(* ===== verification/Py_Base.thy ===== *)
theory Py_Base
  imports Main "HOL-Library.Sublist"
begin

text \<open>
  The prelude: what every other theory uses of the language the scripts are written in.
  A function of the source that raises is a function into \<open>py_error + 'a\<close>; one that
  returns \<^verbatim>\<open>str | None\<close> (a ``problem'', \<^verbatim>\<open>None\<close> when there is none) is a function into
  \<open>string option\<close>.  A run of statements \<^verbatim>\<open>if c: reject(r)\<close> is a guard list, a list of
  pairs \<open>(c, r)\<close>, and \<open>first_reject\<close> is what running it does.  Text is \<open>string\<close>: the
  consoles the scripts read are ASCII, and on ASCII every operation below is Python's.
\<close>

section \<open>Results\<close>

datatype py_error =
    ValueError string
  | FirmwareFormatError string
  | ContractError string
  | AssertionError string
  | RuntimeError string
  | TimeoutError string
  | SystemExit string
  | FileNotFoundError string
  | OSError string
  | SerialException string
  | CalledProcessError string
  | AttributeError
  | TypeError
  | StructError
  | KeyError
  | IndexError
  | StopIteration
  | ZeroDivisionError

type_synonym 'a result = "py_error + 'a"

definition rbind :: "'e + 'a \<Rightarrow> ('a \<Rightarrow> 'e + 'b) \<Rightarrow> 'e + 'b" where
  "rbind r f = (case r of Inl e \<Rightarrow> Inl e | Inr x \<Rightarrow> f x)"

named_theorems result_simps \<open>rewriting of results and guard lists\<close>

lemma rbind_simps [simp, result_simps]:
  "rbind (Inl e) f = Inl e"
  "rbind (Inr x) f = f x"
  by (simp_all add: rbind_def)

lemma rbind_eq_Inr_iff [result_simps]:
  "rbind r f = Inr y \<longleftrightarrow> (\<exists>x. r = Inr x \<and> f x = Inr y)"
  by (cases r) (simp_all add: rbind_def)

lemma rbind_InrE:
  assumes "rbind r f = Inr y"
  obtains x where "r = Inr x" and "f x = Inr y"
  using assms by (auto simp: rbind_eq_Inr_iff)

lemma rbind_eq_Inl_iff [result_simps]:
  "rbind r f = Inl e \<longleftrightarrow> r = Inl e \<or> (\<exists>x. r = Inr x \<and> f x = Inl e)"
  by (cases r) (simp_all add: rbind_def)

text \<open>A comprehension \<^verbatim>\<open>[f(x) for x in xs]\<close> whose body may raise: the first error wins.\<close>

fun map_result :: "('a \<Rightarrow> 'e + 'b) \<Rightarrow> 'a list \<Rightarrow> 'e + 'b list" where
  "map_result f [] = Inr []"
| "map_result f (x # xs) = rbind (f x) (\<lambda>y. rbind (map_result f xs) (\<lambda>ys. Inr (y # ys)))"

lemma map_result_Inr_iff:
  "map_result f xs = Inr ys \<longleftrightarrow> list_all2 (\<lambda>x y. f x = Inr y) xs ys"
  by (induction xs arbitrary: ys)
    (auto simp: rbind_eq_Inr_iff list_all2_Cons1)

lemma map_result_ex: "(\<exists>ys. map_result f xs = Inr ys) \<longleftrightarrow> list_all (\<lambda>x. \<exists>y. f x = Inr y) xs"
proof (induction xs)
  case (Cons x xs)
  then show ?case by (cases "f x"; cases "map_result f xs") (simp_all add: rbind_def)
qed simp

lemma map_result_length: "map_result f xs = Inr ys \<Longrightarrow> length ys = length xs"
  by (auto simp: map_result_Inr_iff dest: list_all2_lengthD)

lemma map_result_all:
  assumes "map_result f xs = Inr ys" and "\<And>x y. f x = Inr y \<Longrightarrow> P y"
  shows "\<forall>y \<in> set ys. P y"
  using assms(1)
proof (induction xs arbitrary: ys)
  case (Cons x xs)
  then show ?case using assms(2) by (auto simp: rbind_eq_Inr_iff)
qed simp

text \<open>Every error of the comprehension is an error of its body.\<close>

lemma map_result_Inl:
  "map_result f xs = Inl e \<Longrightarrow> \<exists>x \<in> set xs. f x = Inl e"
  by (induction xs) (auto simp: rbind_eq_Inl_iff)

section \<open>Guard lists\<close>

fun first_reject :: "(bool \<times> 'r) list \<Rightarrow> 'r option" where
  "first_reject [] = None"
| "first_reject ((c, r) # gs) = (if c then Some r else first_reject gs)"

lemma first_reject_None_iff:
  "first_reject gs = None \<longleftrightarrow> (\<forall>(c, r) \<in> set gs. \<not> c)"
  by (induction gs rule: first_reject.induct) auto

lemma first_reject_Some_mem: "first_reject gs = Some r \<Longrightarrow> (True, r) \<in> set gs"
  by (induction gs rule: first_reject.induct) (auto split: if_splits)

lemma first_reject_append [simp]:
  "first_reject (gs @ hs) =
     (case first_reject gs of None \<Rightarrow> first_reject hs | Some r \<Rightarrow> Some r)"
  by (induction gs rule: first_reject.induct) auto

lemma first_reject_None_simps [result_simps]:
  "first_reject [] = None"
  "first_reject ((c, r) # gs) = None \<longleftrightarrow> \<not> c \<and> first_reject gs = None"
  "first_reject (gs @ hs) = None \<longleftrightarrow> first_reject gs = None \<and> first_reject hs = None"
  by (auto split: option.split)

lemma first_reject_Some_reason:
  "first_reject gs = Some r \<Longrightarrow> r \<in> snd ` set gs"
  by (drule first_reject_Some_mem) force

text \<open>
  The guard that fires is preceded by guards that do not: the reason a validator gives is
  the first one that applies, in the order of the source.
\<close>

lemma first_reject_Some_split:
  "first_reject gs = Some r \<longleftrightarrow>
     (\<exists>pre post. gs = pre @ (True, r) # post \<and> first_reject pre = None)"
proof (induction gs rule: first_reject.induct)
  case 1
  then show ?case by simp
next
  case (2 c r' gs)
  show ?case
  proof (cases c)
    case True
    then show ?thesis
      by (auto simp: Cons_eq_append_conv)
  next
    case False
    show ?thesis
    proof
      assume "first_reject ((c, r') # gs) = Some r"
      with False "2.IH" obtain pre post
        where "gs = pre @ (True, r) # post" "first_reject pre = None" by auto
      with False have "(c, r') # gs = ((c, r') # pre) @ (True, r) # post \<and>
          first_reject ((c, r') # pre) = None" by simp
      then show "\<exists>pre post. (c, r') # gs = pre @ (True, r) # post \<and> first_reject pre = None"
        by blast
    next
      assume "\<exists>pre post. (c, r') # gs = pre @ (True, r) # post \<and> first_reject pre = None"
      with False "2.IH" show "first_reject ((c, r') # gs) = Some r"
        by (auto simp: Cons_eq_append_conv)
    qed
  qed
qed

definition raise_on :: "('r \<Rightarrow> py_error) \<Rightarrow> 'r option \<Rightarrow> unit result" where
  "raise_on exc p = (case p of None \<Rightarrow> Inr () | Some r \<Rightarrow> Inl (exc r))"

lemma raise_on_simps [simp, result_simps]:
  "raise_on exc None = Inr ()"
  "raise_on exc (Some r) = Inl (exc r)"
  "raise_on exc p = Inr u \<longleftrightarrow> p = None"
  by (simp_all add: raise_on_def split: option.split)

section \<open>Text\<close>

abbreviation (input) newline :: char where "newline \<equiv> CHR 0x0A"
abbreviation (input) carriage_return :: char where "carriage_return \<equiv> CHR 0x0D"

text \<open>\<^verbatim>\<open>needle in text\<close>.\<close>

fun py_in :: "string \<Rightarrow> string \<Rightarrow> bool" where
  "py_in needle [] = (needle = [])"
| "py_in needle (c # cs) = (prefix needle (c # cs) \<or> py_in needle cs)"

lemma py_in_iff: "py_in needle hay \<longleftrightarrow> (\<exists>ps ss. hay = ps @ needle @ ss)"
proof (induction hay)
  case Nil
  then show ?case by simp
next
  case (Cons c cs)
  show ?case
  proof
    assume "py_in needle (c # cs)"
    then consider "prefix needle (c # cs)" | "py_in needle cs" by auto
    then show "\<exists>ps ss. c # cs = ps @ needle @ ss"
    proof cases
      case 1
      then show ?thesis by (metis append_Nil prefixE)
    next
      case 2
      with Cons.IH obtain ps ss where "cs = ps @ needle @ ss" by blast
      then have "c # cs = (c # ps) @ needle @ ss" by simp
      then show ?thesis by blast
    qed
  next
    assume "\<exists>ps ss. c # cs = ps @ needle @ ss"
    then obtain ps ss where eq: "c # cs = ps @ needle @ ss" by blast
    show "py_in needle (c # cs)"
    proof (cases ps)
      case Nil
      with eq have "prefix needle (c # cs)" by (metis append_Nil prefixI)
      then show ?thesis by simp
    next
      case (Cons d ds)
      with eq have "cs = ds @ needle @ ss" by simp
      with Cons.IH show ?thesis by auto
    qed
  qed
qed

lemma py_in_appendI1: "py_in needle xs \<Longrightarrow> py_in needle (xs @ ys)"
  by (auto simp: py_in_iff) (metis append.assoc)

lemma py_in_appendI2: "py_in needle ys \<Longrightarrow> py_in needle (xs @ ys)"
  by (auto simp: py_in_iff) (metis append.assoc)

text \<open>
  \<^verbatim>\<open>text.find(needle, start)\<close>: \<open>None\<close> where Python returns -1.
\<close>

fun find_at :: "string \<Rightarrow> string \<Rightarrow> nat \<Rightarrow> nat option" where
  "find_at needle [] i = (if needle = [] then Some i else None)"
| "find_at needle (c # cs) i =
     (if prefix needle (c # cs) then Some i else find_at needle cs (Suc i))"

definition py_find :: "string \<Rightarrow> string \<Rightarrow> nat \<Rightarrow> nat option" where
  "py_find hay needle start =
     (if start \<le> length hay then find_at needle (drop start hay) start else None)"

lemma find_at_Some:
  "find_at needle hay i = Some k \<Longrightarrow> i \<le> k \<and> prefix needle (drop (k - i) hay)"
proof (induction hay arbitrary: i)
  case (Cons c cs)
  show ?case
  proof (cases "prefix needle (c # cs)")
    case False
    with Cons.prems have "find_at needle cs (Suc i) = Some k" by simp
    from Cons.IH [OF this] have "Suc i \<le> k" "prefix needle (drop (k - Suc i) cs)" by auto
    moreover from this have "k - i = Suc (k - Suc i)" by simp
    ultimately show ?thesis by simp
  qed (use Cons.prems in simp)
qed (auto split: if_splits)

lemma py_find_Some:
  "py_find hay needle start = Some k \<Longrightarrow> start \<le> k \<and> prefix needle (drop k hay)"
  by (auto simp: py_find_def split: if_splits dest: find_at_Some)

definition startswith :: "string \<Rightarrow> string \<Rightarrow> bool" where
  "startswith hay p = prefix p hay"

text \<open>\<^verbatim>\<open>text.replace(c, d)\<close> for single characters, and \<^verbatim>\<open>text.lower()\<close> on ASCII.\<close>

definition replace_char :: "char \<Rightarrow> char \<Rightarrow> string \<Rightarrow> string" where
  "replace_char c d = map (\<lambda>x. if x = c then d else x)"

definition lower_char :: "char \<Rightarrow> char" where
  "lower_char c = (let n = (of_char c :: nat) in if 65 \<le> n \<and> n \<le> 90 then char_of (n + 32) else c)"

definition lower :: "string \<Rightarrow> string" where
  "lower = map lower_char"

fun join :: "string \<Rightarrow> string list \<Rightarrow> string" where
  "join sep [] = []"
| "join sep [x] = x"
| "join sep (x # y # ys) = x @ sep @ join sep (y # ys)"

text \<open>
  \<^verbatim>\<open>text.splitlines()\<close> ends a line at \<^verbatim>\<open>\n\<close>, \<^verbatim>\<open>\r\<close>, \<^verbatim>\<open>\r\n\<close> and the other ASCII separators Python
  knows; a final separator does not open another line.
\<close>

definition is_linebreak :: "char \<Rightarrow> bool" where
  "is_linebreak c = ((of_char c :: nat) \<in> {0x0A, 0x0B, 0x0C, 0x0D, 0x1C, 0x1D, 0x1E, 0x85})"

fun splitlines_acc :: "string \<Rightarrow> string \<Rightarrow> string list" where
  "splitlines_acc acc [] = (if acc = [] then [] else [rev acc])"
| "splitlines_acc acc (c # cs) =
     (if is_linebreak c
      then rev acc #
        (if c = carriage_return
         then (case cs of [] \<Rightarrow> [] | d # ds \<Rightarrow>
           if d = newline then splitlines_acc [] ds else splitlines_acc [] cs)
         else splitlines_acc [] cs)
      else splitlines_acc (c # acc) cs)"

definition splitlines :: "string \<Rightarrow> string list" where
  "splitlines = splitlines_acc []"

definition is_space :: "char \<Rightarrow> bool" where
  "is_space c = ((of_char c :: nat) \<in>
     {0x09, 0x0A, 0x0B, 0x0C, 0x0D, 0x1C, 0x1D, 0x1E, 0x1F, 0x20, 0x85, 0xA0})"

definition strip :: "string \<Rightarrow> string" where
  "strip s = rev (dropWhile is_space (rev (dropWhile is_space s)))"

section \<open>Decimal and hexadecimal numbers\<close>

definition is_digit :: "char \<Rightarrow> bool" where
  "is_digit c = (48 \<le> (of_char c :: nat) \<and> (of_char c :: nat) \<le> 57)"

definition digit_char :: "nat \<Rightarrow> char" where
  "digit_char d = char_of (if d < 10 then 48 + d else 87 + d)"

text \<open>The value of a digit in any base up to 36, letters in either case.\<close>

definition digit_val :: "char \<Rightarrow> nat option" where
  "digit_val c = (let n = (of_char c :: nat) in
     if 48 \<le> n \<and> n \<le> 57 then Some (n - 48)
     else if 97 \<le> n \<and> n \<le> 122 then Some (n - 87)
     else if 65 \<le> n \<and> n \<le> 90 then Some (n - 55)
     else None)"

fun show_base :: "nat \<Rightarrow> nat \<Rightarrow> string" where
  "show_base b n =
     (if b < 2 \<or> n < b then [digit_char n] else show_base b (n div b) @ [digit_char (n mod b)])"

declare show_base.simps [simp del]

definition str_nat :: "nat \<Rightarrow> string" where
  "str_nat = show_base 10"

definition str_int :: "int \<Rightarrow> string" where
  "str_int i = (if i < 0 then CHR ''-'' # str_nat (nat (- i)) else str_nat (nat i))"

text \<open>\<^verbatim>\<open>f"{n:x}"\<close> and, with zero padding to a width, \<^verbatim>\<open>f"{n:08x}"\<close>.\<close>

definition str_hex :: "nat \<Rightarrow> string" where
  "str_hex = show_base 16"

definition zero_pad :: "nat \<Rightarrow> string \<Rightarrow> string" where
  "zero_pad w s = replicate (w - length s) (CHR ''0'') @ s"

definition str_hex8 :: "nat \<Rightarrow> string" where
  "str_hex8 n = zero_pad 8 (str_hex n)"

text \<open>\<^verbatim>\<open>repr(s)\<close>, the form \<^verbatim>\<open>{!r}\<close> gives a string in a message.\<close>

definition repr_char :: "char \<Rightarrow> char \<Rightarrow> string" where
  "repr_char q c = (let n = (of_char c :: nat) in
     if c = q \<or> n = 0x5C then [CHR 0x5C, c]
     else if n = 0x09 then [CHR 0x5C, CHR ''t'']
     else if n = 0x0A then [CHR 0x5C, CHR ''n'']
     else if n = 0x0D then [CHR 0x5C, CHR ''r'']
     else if n < 0x20 \<or> 0x7F \<le> n \<and> n \<le> 0xA0 \<or> n = 0xAD
     then CHR 0x5C # CHR ''x'' # zero_pad 2 (str_hex n)
     else [c])"

definition py_repr :: "string \<Rightarrow> string" where
  "py_repr s =
     (let q = (if CHR 0x27 \<in> set s \<and> CHR 0x22 \<notin> set s then CHR 0x22 else CHR 0x27)
      in q # concat (map (repr_char q) s) @ [q])"

text \<open>Horner's rule over a digit string: \<^verbatim>\<open>int(s, b)\<close> on a string of digits of base \<open>b\<close>.\<close>

definition base_val :: "nat \<Rightarrow> string \<Rightarrow> nat" where
  "base_val b s = foldl (\<lambda>acc c. acc * b + (case digit_val c of Some d \<Rightarrow> d | None \<Rightarrow> 0)) 0 s"

lemma base_val_Nil [simp]: "base_val b [] = 0"
  by (simp add: base_val_def)

lemma base_val_snoc [simp]:
  "base_val b (s @ [c]) = base_val b s * b + (case digit_val c of Some d \<Rightarrow> d | None \<Rightarrow> 0)"
  by (simp add: base_val_def)

lemma digit_val_digit_char [simp]: "d < 36 \<Longrightarrow> digit_val (digit_char d) = Some d"
  by (auto simp: digit_val_def digit_char_def Let_def)

lemma base_val_show_base:
  "2 \<le> b \<Longrightarrow> b \<le> 36 \<Longrightarrow> base_val b (show_base b n) = n"
proof (induction b n rule: show_base.induct)
  case (1 b n)
  show ?case
  proof (cases "n < b")
    case True
    with "1.prems" show ?thesis
      using base_val_snoc [of b "[]" "digit_char n"] by (simp add: show_base.simps [of b n])
  next
    case False
    with "1.prems" "1.IH" have "base_val b (show_base b (n div b)) = n div b" by simp
    moreover have "n mod b < 36" using "1.prems" by (meson less_le_trans mod_less_divisor
        zero_less_numeral order_less_le_trans)
    ultimately show ?thesis
      using False "1.prems" by (simp add: show_base.simps [of b n])
  qed
qed

lemma base_val_str_nat [simp]: "base_val 10 (str_nat n) = n"
  by (simp add: str_nat_def base_val_show_base)

lemma base_val_str_hex [simp]: "base_val 16 (str_hex n) = n"
  by (simp add: str_hex_def base_val_show_base)

lemma show_base_digits:
  "2 \<le> b \<Longrightarrow> b \<le> 36 \<Longrightarrow> c \<in> set (show_base b n) \<Longrightarrow> \<exists>d < b. c = digit_char d"
proof (induction b n rule: show_base.induct)
  case (1 b n)
  show ?case
  proof (cases "n < b")
    case True
    with "1.prems" show ?thesis by (auto simp: show_base.simps [of b n])
  next
    case False
    with "1.prems"(3) consider "c \<in> set (show_base b (n div b))" | "c = digit_char (n mod b)"
      using "1.prems" by (auto simp: show_base.simps [of b n])
    then show ?thesis
    proof cases
      case 1
      with "1.IH" "1.prems" False show ?thesis by simp
    next
      case 2
      then show ?thesis using "1.prems" by (auto intro: exI [of _ "n mod b"])
    qed
  qed
qed

lemma show_base_nonempty [simp]: "show_base b n \<noteq> []"
  by (subst show_base.simps) simp

lemma str_nat_nonempty [simp]: "str_nat n \<noteq> []"
  by (simp add: str_nat_def)

lemma is_digit_digit_char [simp]: "d < 10 \<Longrightarrow> is_digit (digit_char d)"
  by (simp add: is_digit_def digit_char_def)

lemma str_nat_digits: "c \<in> set (str_nat n) \<Longrightarrow> is_digit c"
  using show_base_digits [of 10 c n] by (auto simp: str_nat_def)

lemma base_val_zeros: "base_val b (replicate k (CHR ''0'') @ s) = base_val b s"
proof -
  have "foldl (\<lambda>acc c. acc * b + (case digit_val c of Some d \<Rightarrow> d | None \<Rightarrow> 0)) 0
      (replicate k (CHR ''0'')) = 0"
    by (induction k) (simp_all add: digit_val_def)
  then show ?thesis by (simp add: base_val_def)
qed

lemma base_val_zero_pad [simp]: "base_val b (zero_pad w s) = base_val b s"
  by (simp add: zero_pad_def base_val_zeros)

text \<open>\<^verbatim>\<open>int(s)\<close> on an optionally signed string of digits.\<close>

fun int_str :: "string \<Rightarrow> int" where
  "int_str [] = 0"
| "int_str (c # cs) = (if c = CHR ''-'' then - int (base_val 10 cs) else int (base_val 10 (c # cs)))"

lemma int_str_str_nat [simp]: "int_str (str_nat n) = int n"
proof -
  obtain c cs where s: "str_nat n = c # cs" by (cases "str_nat n") simp_all
  then have "is_digit c" using str_nat_digits [of c n] by simp
  then have "c \<noteq> CHR ''-''" by (auto simp: is_digit_def)
  then show ?thesis using base_val_str_nat [of n] by (simp add: s)
qed

lemma int_str_str_int [simp]: "int_str (str_int i) = i"
  by (simp add: str_int_def)

section \<open>Dictionaries\<close>

text \<open>
  \<^verbatim>\<open>dict(zip(FIELDS, values))\<close> and its lookups.  Every key the validators look up is a field of
  the format, so the default is never used.
\<close>

definition dict_get :: "(string \<times> int) list \<Rightarrow> string \<Rightarrow> int" where
  "dict_get d k = (case map_of d k of Some v \<Rightarrow> v | None \<Rightarrow> 0)"

text \<open>\<^verbatim>\<open>values.update(overrides)\<close> with keyword arguments.\<close>

definition dict_update :: "(string \<Rightarrow> int) \<Rightarrow> (string \<times> int) list \<Rightarrow> string \<Rightarrow> int" where
  "dict_update d overrides k = (case map_of overrides k of Some v \<Rightarrow> v | None \<Rightarrow> d k)"

lemma dict_update_simps [simp]:
  "dict_update d [] = d"
  "dict_update d ((k, v) # kvs) = (dict_update d kvs)(k := v)"
  by (auto simp: dict_update_def fun_eq_iff)

lemma dict_get_zip_map [simp]: "k \<in> set ks \<Longrightarrow> dict_get (zip ks (map f ks)) k = f k"
  by (simp add: dict_get_def map_of_zip_map)

lemma dict_get_Cons:
  "dict_get (zip (j # ks) (v # vs)) k = (if k = j then v else dict_get (zip ks vs) k)"
  by (simp add: dict_get_def)

lemma map_dict_get_zip:
  "distinct ks \<Longrightarrow> length vs = length ks \<Longrightarrow> map (dict_get (zip ks vs)) ks = vs"
proof (induction ks arbitrary: vs)
  case (Cons k ks)
  then obtain v ws where vs: "vs = v # ws" by (cases vs) auto
  have "map (dict_get (zip (k # ks) vs)) ks = map (dict_get (zip ks ws)) ks"
    using Cons.prems(1) by (auto simp: vs dict_get_def)
  moreover have "dict_get (zip (k # ks) vs) k = v" by (simp add: vs dict_get_def)
  moreover have "map (dict_get (zip ks ws)) ks = ws" using Cons vs by simp
  ultimately show ?case by (simp only: list.map vs)
qed simp

end
