(* ===== verification/Py_Struct.thy ===== *)
theory Py_Struct
  imports Py_Base "HOL-Library.Word"
begin

text \<open>
  Byte strings and the parts of \<^verbatim>\<open>struct\<close> and \<^verbatim>\<open>zlib\<close> the scripts use.  A byte string is a list
  of 8-bit words.  A format such as \<^verbatim>\<open><IHH29I\<close> is the list of its field widths in bytes, all
  fields unsigned; \<^verbatim>\<open>pack\<close> raises \<^verbatim>\<open>struct.error\<close> (\<open>StructError\<close>) on a value outside its
  field, \<^verbatim>\<open>unpack\<close> on a buffer of another length.  The locale \<open>byte_codec\<close> is the contract of
  an encoder and a decoder that are inverse to each other; every binary format of the
  program is an interpretation of it.
\<close>

unbundle bit_operations_syntax

type_synonym byte = "8 word"
type_synonym bytes = "byte list"

section \<open>Encoders and decoders\<close>

locale byte_codec =
  fixes wf :: "'a \<Rightarrow> bool"
    and enc :: "'a \<Rightarrow> bytes result"
    and dec :: "bytes \<Rightarrow> 'a result"
  assumes dec_enc: "wf x \<Longrightarrow> \<exists>b. enc x = Inr b \<and> dec b = Inr x"
    and enc_dec: "dec b = Inr x \<Longrightarrow> wf x \<and> enc x = Inr b"
begin

lemma roundtrip:
  assumes "wf x" and "enc x = Inr b"
  shows "dec b = Inr x"
proof -
  from dec_enc [OF assms(1)] obtain b' where "enc x = Inr b'" "dec b' = Inr x" by blast
  with assms(2) show ?thesis by simp
qed

lemma enc_total: "wf x \<Longrightarrow> \<exists>b. enc x = Inr b"
  by (drule dec_enc) blast

text \<open>Encodings are canonical: a value has one accepted encoding and conversely.\<close>

lemma dec_inj:
  assumes "dec b = Inr x" and "dec b' = Inr x"
  shows "b = b'"
proof -
  from enc_dec [OF assms(1)] enc_dec [OF assms(2)] have "(Inr b :: bytes result) = Inr b'"
    by metis
  then show ?thesis by simp
qed

lemma enc_inj:
  assumes "wf x" and "wf y" and "enc x = Inr b" and "enc y = Inr b"
  shows "x = y"
proof -
  from roundtrip [OF assms(1,3)] roundtrip [OF assms(2,4)]
  have "(Inr x :: 'a result) = Inr y" by metis
  then show ?thesis by simp
qed

lemma accepted_iff: "(\<exists>x. dec b = Inr x) \<longleftrightarrow> (\<exists>x. wf x \<and> enc x = Inr b)"
  by (meson enc_dec roundtrip)

end

section \<open>Integers as bytes\<close>

primrec le_bytes :: "nat \<Rightarrow> nat \<Rightarrow> bytes" where
  "le_bytes 0 n = []"
| "le_bytes (Suc k) n = of_nat n # le_bytes k (n div 256)"

primrec le_nat :: "bytes \<Rightarrow> nat" where
  "le_nat [] = 0"
| "le_nat (b # bs) = unat b + 256 * le_nat bs"

definition be_bytes :: "nat \<Rightarrow> nat \<Rightarrow> bytes" where
  "be_bytes k n = rev (le_bytes k n)"

definition be_nat :: "bytes \<Rightarrow> nat" where
  "be_nat bs = le_nat (rev bs)"

lemma length_le_bytes [simp]: "length (le_bytes k n) = k"
  by (induction k arbitrary: n) auto

lemma unat_byte_less [simp]: "unat (b :: byte) < 256"
  using unsigned_less [of b, where ?'a = nat] by simp

lemma le_nat_le_bytes [simp]: "le_nat (le_bytes k n) = n mod 256 ^ k"
proof (induction k arbitrary: n)
  case (Suc k)
  have "le_nat (le_bytes (Suc k) n) = n mod 256 + 256 * (n div 256 mod 256 ^ k)"
    using Suc.IH by (simp add: unat_of_nat)
  also have "\<dots> = n mod (256 * 256 ^ k)"
    by (simp add: mod_mult2_eq)
  finally show ?case by simp
qed simp

lemma le_nat_less: "le_nat bs < 256 ^ length bs"
proof (induction bs)
  case (Cons b bs)
  have "le_nat (b # bs) < 256 + 256 * le_nat bs" by simp
  also have "\<dots> \<le> 256 * 256 ^ length bs" using Cons.IH by simp
  finally show ?case by simp
qed simp

lemma le_bytes_le_nat [simp]: "le_bytes (length bs) (le_nat bs) = bs"
proof (induction bs)
  case (Cons b bs)
  have "of_nat (unat b + 256 * le_nat bs) = b"
  proof -
    have "(of_nat (unat b + 256 * le_nat bs) :: byte) = b + of_nat 256 * of_nat (le_nat bs)"
      by (simp del: of_nat_numeral)
    also have "(of_nat 256 :: byte) = 0" by simp
    finally show ?thesis by simp
  qed
  moreover have "(unat b + 256 * le_nat bs) div 256 = le_nat bs" by simp
  ultimately show ?case using Cons.IH by simp
qed simp

lemma le_bytes_inj:
  "m < 256 ^ k \<Longrightarrow> n < 256 ^ k \<Longrightarrow> le_bytes k m = le_bytes k n \<Longrightarrow> m = n"
  by (metis le_nat_le_bytes mod_less)

section \<open>Little-endian structures\<close>

definition calcsize :: "nat list \<Rightarrow> nat" where
  "calcsize fmt = sum_list fmt"

definition fits :: "nat \<Rightarrow> int \<Rightarrow> bool" where
  "fits k v = (0 \<le> v \<and> v < 256 ^ k)"

fun pack_le :: "nat list \<Rightarrow> int list \<Rightarrow> bytes result" where
  "pack_le [] [] = Inr []"
| "pack_le (k # ks) (v # vs) =
     (if fits k v then rbind (pack_le ks vs) (\<lambda>b. Inr (le_bytes k (nat v) @ b))
      else Inl StructError)"
| "pack_le _ _ = Inl StructError"

fun fields_le :: "nat list \<Rightarrow> bytes \<Rightarrow> int list" where
  "fields_le [] b = []"
| "fields_le (k # ks) b = int (le_nat (take k b)) # fields_le ks (drop k b)"

definition unpack_le :: "nat list \<Rightarrow> bytes \<Rightarrow> int list result" where
  "unpack_le fmt b = (if length b = calcsize fmt then Inr (fields_le fmt b) else Inl StructError)"

text \<open>\<^verbatim>\<open>unpack_from\<close> reads a prefix of the buffer.\<close>

definition unpack_from_le :: "nat list \<Rightarrow> bytes \<Rightarrow> int list result" where
  "unpack_from_le fmt b = (if calcsize fmt \<le> length b then Inr (fields_le fmt b) else Inl StructError)"

lemma calcsize_simps [simp]:
  "calcsize [] = 0"
  "calcsize (k # ks) = k + calcsize ks"
  by (simp_all add: calcsize_def)

lemma length_fields_le [simp]: "length (fields_le fmt b) = length fmt"
  by (induction fmt arbitrary: b) auto

lemma fields_le_take: "calcsize fmt \<le> n \<Longrightarrow> fields_le fmt (take n b) = fields_le fmt b"
proof (induction fmt arbitrary: n b)
  case (Cons k ks)
  then have "fields_le ks (take (n - k) (drop k b)) = fields_le ks (drop k b)" by simp
  moreover have "min k n = k" using Cons.prems by simp
  ultimately show ?case by (simp add: drop_take)
qed simp

lemma fields_le_append:
  "calcsize fmt \<le> length b \<Longrightarrow> fields_le fmt (b @ c) = fields_le fmt b"
  using fields_le_take [of fmt "length b" "b @ c"] by simp

lemma pack_le_Inr_iff:
  "pack_le fmt vs = Inr b \<longleftrightarrow>
     length b = calcsize fmt \<and> list_all2 fits fmt vs \<and> fields_le fmt b = vs"
proof (induction fmt vs arbitrary: b rule: pack_le.induct)
  case (2 k ks v vs)
  show ?case
  proof
    assume "pack_le (k # ks) (v # vs) = Inr b"
    then obtain b' where fit: "fits k v" and b': "pack_le ks vs = Inr b'"
      and b: "b = le_bytes k (nat v) @ b'"
      by (auto simp: rbind_eq_Inr_iff split: if_splits)
    have "nat v < 256 ^ k"
      using fit by (simp add: fits_def nat_less_iff)
    then have "int (nat v mod 256 ^ k) = v"
      using fit by (simp add: fits_def)
    then show "length b = calcsize (k # ks) \<and> list_all2 fits (k # ks) (v # vs)
        \<and> fields_le (k # ks) b = v # vs"
      using fit b b' "2.IH" by simp
  next
    assume R: "length b = calcsize (k # ks) \<and> list_all2 fits (k # ks) (v # vs)
        \<and> fields_le (k # ks) b = v # vs"
    then have fit: "fits k v" and v: "v = int (le_nat (take k b))" by auto
    from R "2.IH" fit have "pack_le ks vs = Inr (drop k b)" by simp
    moreover have "le_bytes k (nat v) = take k b"
      using R v le_bytes_le_nat [of "take k b"] by (simp add: min_def split: if_splits)
    ultimately show "pack_le (k # ks) (v # vs) = Inr b" using fit by simp
  qed
qed auto

lemma fits_fields_le: "calcsize fmt \<le> length b \<Longrightarrow> list_all2 fits fmt (fields_le fmt b)"
proof (induction fmt arbitrary: b)
  case (Cons k ks)
  from Cons.prems have "length (take k b) = k" by simp
  with le_nat_less [of "take k b"] have "le_nat (take k b) < 256 ^ k" by simp
  then have "fits k (int (le_nat (take k b)))" by (simp add: fits_def)
  moreover have "list_all2 fits ks (fields_le ks (drop k b))"
    by (rule Cons.IH) (use Cons.prems in simp)
  ultimately show ?case by simp
qed simp

interpretation struct_le: byte_codec "list_all2 fits fmt" "pack_le fmt" "unpack_le fmt" for fmt
proof
  fix vs
  assume "list_all2 fits fmt vs"
  then show "\<exists>b. pack_le fmt vs = Inr b \<and> unpack_le fmt b = Inr vs"
  proof (induction fmt vs rule: list_all2_induct)
    case Nil
    then show ?case by (simp add: unpack_le_def)
  next
    case (Cons k ks v vs)
    then obtain b where "pack_le ks vs = Inr b" by blast
    with Cons.hyps have "pack_le (k # ks) (v # vs) = Inr (le_bytes k (nat v) @ b)" by simp
    then show ?case by (metis pack_le_Inr_iff unpack_le_def)
  qed
next
  fix b vs
  assume "unpack_le fmt b = Inr vs"
  then show "list_all2 fits fmt vs \<and> pack_le fmt vs = Inr b"
    by (auto simp: unpack_le_def pack_le_Inr_iff fits_fields_le split: if_splits)
qed

section \<open>CRC-32\<close>

text \<open>
  \<^verbatim>\<open>zlib.crc32\<close>: the reflected polynomial \<open>0xEDB88320\<close>, register and result complemented.
  \<^verbatim>\<open>& 0xFFFFFFFF\<close> on it is the identity, since the register has 32 bits.
\<close>

definition crc32_bit :: "32 word \<Rightarrow> 32 word" where
  "crc32_bit c = (if bit c 0 then drop_bit 1 c XOR 0xEDB88320 else drop_bit 1 c)"

definition crc32_byte :: "32 word \<Rightarrow> byte \<Rightarrow> 32 word" where
  "crc32_byte c b = (crc32_bit ^^ 8) (c XOR ucast b)"

definition crc32 :: "bytes \<Rightarrow> int" where
  "crc32 bs = uint (NOT (foldl crc32_byte (NOT 0) bs))"

lemma crc32_fits [simp]: "fits 4 (crc32 bs)"
  using uint_bounded [of "NOT (foldl crc32_byte (NOT 0) bs) :: 32 word"]
  by (simp add: crc32_def fits_def)

text \<open>
  The step is linear over exclusive or and injective, so a register that has absorbed up to
  four bytes determines them: the checksum detects every burst of at most 32 bits.
\<close>

lemma crc32_bit_0 [simp]: "crc32_bit 0 = 0"
  by (simp add: crc32_bit_def)

lemma crc32_bit_xor: "crc32_bit (c XOR d) = crc32_bit c XOR crc32_bit d"
  by (rule bit_word_eqI) (auto simp: crc32_bit_def bit_xor_iff bit_drop_bit_eq)

lemma bit_crc32_bit_31: "bit (crc32_bit c) 31 \<longleftrightarrow> bit c 0"
  using bit_imp_le_length [of c 32]
  by (auto simp: crc32_bit_def bit_xor_iff bit_drop_bit_eq bit_numeral_rec)

lemma xor_right_cancel: "a XOR p = b XOR p \<longleftrightarrow> a = (b :: 'a::len word)"
  by (metis xor.assoc xor.right_neutral xor_self_eq)

lemma inj_crc32_bit: "inj crc32_bit"
proof (rule injI)
  fix c d :: "32 word"
  assume eq: "crc32_bit c = crc32_bit d"
  then have low: "bit c 0 = bit d 0" by (metis bit_crc32_bit_31)
  with eq have "drop_bit 1 c = drop_bit 1 d"
    by (simp add: crc32_bit_def xor_right_cancel split: if_splits)
  then have "bit c (Suc n) = bit d (Suc n)" for n
    by (metis bit_drop_bit_eq comp_apply plus_1_eq_Suc)
  with low show "c = d"
    by (metis bit_eq_iff not0_implies_Suc)
qed

lemma crc32_bits_xor: "(crc32_bit ^^ n) (c XOR d) = (crc32_bit ^^ n) c XOR (crc32_bit ^^ n) d"
  by (induction n) (simp_all add: crc32_bit_xor)

lemma crc32_bits_drop: "(\<And>i. i < n \<Longrightarrow> \<not> bit c i) \<Longrightarrow> (crc32_bit ^^ n) c = drop_bit n c"
proof (induction n)
  case (Suc n)
  then have "(crc32_bit ^^ n) c = drop_bit n c" by simp
  moreover have "\<not> bit (drop_bit n c) 0" using Suc.prems [of n] by (simp add: bit_drop_bit_eq)
  then have "crc32_bit (drop_bit n c) = drop_bit (Suc n) c" by (simp add: crc32_bit_def)
  ultimately show ?case by simp
qed simp

definition le_word :: "bytes \<Rightarrow> 32 word" where
  "le_word bs = of_nat (le_nat bs)"

lemma unat_le_word: "length bs \<le> 4 \<Longrightarrow> unat (le_word bs) = le_nat bs"
proof -
  assume "length bs \<le> 4"
  then have "(256 :: nat) ^ length bs \<le> 256 ^ 4" by (intro power_increasing) simp_all
  with le_nat_less [of bs] have "le_nat bs < 2 ^ 32" by simp
  then show ?thesis by (simp add: le_word_def unat_of_nat)
qed

lemma le_word_inj:
  "length xs \<le> 4 \<Longrightarrow> length ys = length xs \<Longrightarrow> le_word xs = le_word ys \<Longrightarrow> xs = ys"
  by (metis le_bytes_le_nat unat_le_word)

lemma le_word_Cons: "le_word (b # bs) = ucast b XOR push_bit 8 (le_word bs)"
proof -
  have "le_word (b # bs) = ucast b + push_bit 8 (le_word bs)"
    by (simp add: le_word_def push_bit_eq_mult)
  also have "\<dots> = ucast b XOR push_bit 8 (le_word bs)"
    by (rule disjunctive_add_eq_xor) (auto simp: bit_eq_iff bit_simps dest: bit_imp_le_length)
  finally show ?thesis .
qed

lemma crc32_byte_shift:
  assumes "length bs \<le> 3"
  shows "(crc32_bit ^^ 8) (push_bit 8 (le_word bs)) = le_word bs"
proof -
  have "(crc32_bit ^^ 8) (push_bit 8 (le_word bs)) = drop_bit 8 (push_bit 8 (le_word bs))"
    by (rule crc32_bits_drop) (simp add: bit_push_bit_iff)
  also have "\<dots> = le_word bs"
  proof (rule bit_word_eqI)
    fix n :: nat
    have "(256 :: nat) ^ length bs \<le> 256 ^ 3" using assms by (intro power_increasing) simp_all
    with le_nat_less [of bs] have "le_nat bs < 2 ^ 24" by simp
    then have "take_bit 24 (le_nat bs) = le_nat bs" by (rule take_bit_nat_eq_self)
    then have "bit (le_nat bs) n \<Longrightarrow> n < 24" by (metis bit_take_bit_iff)
    then have "bit (le_word bs) n \<Longrightarrow> n < 24" by (simp add: le_word_def bit_simps)
    then show "bit (drop_bit 8 (push_bit 8 (le_word bs))) n = bit (le_word bs) n"
      by (auto simp: bit_simps)
  qed
  finally show ?thesis .
qed

lemma crc32_word:
  "length bs \<le> 4 \<Longrightarrow>
     foldl crc32_byte c bs = (crc32_bit ^^ (8 * length bs)) (c XOR le_word bs)"
proof (induction bs arbitrary: c)
  case (Cons b bs)
  let ?n = "8 * length bs"
  have "crc32_byte c b XOR le_word bs =
      (crc32_bit ^^ 8) (c XOR ucast b) XOR (crc32_bit ^^ 8) (push_bit 8 (le_word bs))"
    using Cons.prems by (simp add: crc32_byte_shift crc32_byte_def)
  also have "\<dots> = (crc32_bit ^^ 8) ((c XOR ucast b) XOR push_bit 8 (le_word bs))"
    by (rule crc32_bits_xor [symmetric])
  finally have step: "crc32_byte c b XOR le_word bs = (crc32_bit ^^ 8) (c XOR le_word (b # bs))"
    by (simp only: le_word_Cons xor.assoc)
  have "foldl crc32_byte c (b # bs) = (crc32_bit ^^ ?n) (crc32_byte c b XOR le_word bs)"
    using Cons.prems Cons.IH [of "crc32_byte c b"] by simp
  also have "\<dots> = (crc32_bit ^^ (?n + 8)) (c XOR le_word (b # bs))"
    by (simp only: step funpow_add comp_apply)
  finally show ?case by (simp add: add.commute)
qed (simp add: le_word_def)

lemma crc32_bits_eq: "(crc32_bit ^^ n) c = (crc32_bit ^^ n) d \<longleftrightarrow> c = d"
  by (rule inj_eq [OF inj_fn [OF inj_crc32_bit]])

lemma inj_crc32_byte: "crc32_byte c b = crc32_byte d b \<longleftrightarrow> c = d"
  by (simp only: crc32_byte_def crc32_bits_eq xor_right_cancel)

lemma foldl_crc32_byte_inj: "foldl crc32_byte c bs = foldl crc32_byte d bs \<longleftrightarrow> c = d"
  by (induction bs arbitrary: c d) (simp_all add: inj_crc32_byte)

lemma crc32_burst:
  assumes "length xs \<le> 4" and "length ys = length xs" and "xs \<noteq> ys"
  shows "crc32 (pre @ xs @ post) \<noteq> crc32 (pre @ ys @ post)"
proof
  let ?c = "foldl crc32_byte (NOT 0) pre"
  assume "crc32 (pre @ xs @ post) = crc32 (pre @ ys @ post)"
  then have "foldl crc32_byte ?c xs = foldl crc32_byte ?c ys"
    unfolding crc32_def foldl_append word_uint_eq_iff [symmetric] bit.compl_eq_compl_iff
      foldl_crc32_byte_inj .
  then have "?c XOR le_word xs = ?c XOR le_word ys"
    using assms by (simp only: crc32_word crc32_bits_eq)
  then have "le_word xs = le_word ys" by (metis xor.commute xor_right_cancel)
  with assms show False by (metis le_word_inj)
qed

text \<open>
  A message followed by its checksum, least significant byte first, has a constant checksum,
  whatever the message; and no other four bytes give it that checksum.
\<close>

definition crc32_residue :: int where
  "crc32_residue = uint (NOT ((crc32_bit ^^ 32) (NOT 0)))"

lemma xor_NOT_iff: "c XOR d = NOT 0 \<longleftrightarrow> d = NOT (c :: 'a::len word)"
  by (metis bit.xor_cancel_right bit.xor_left_self bit.compl_zero xor.commute)

lemma crc32_residue_iff:
  assumes "length t = 4"
  shows "crc32 (m @ t) = crc32_residue \<longleftrightarrow> int (le_nat t) = crc32 m"
proof -
  let ?c = "foldl crc32_byte (NOT 0) m"
  have "crc32 (m @ t) = crc32_residue \<longleftrightarrow> foldl crc32_byte ?c t = (crc32_bit ^^ 32) (NOT 0)"
    unfolding crc32_def crc32_residue_def foldl_append word_uint_eq_iff [symmetric]
      bit.compl_eq_compl_iff ..
  also have "\<dots> \<longleftrightarrow> ?c XOR le_word t = NOT 0"
    using assms crc32_word [of t ?c] crc32_bits_eq [of 32 "?c XOR le_word t" "NOT 0"] by simp
  also have "\<dots> \<longleftrightarrow> uint (le_word t) = uint (NOT ?c)"
    by (metis xor_NOT_iff word_uint_eq_iff)
  also have "uint (le_word t) = int (le_nat t)"
    using assms unat_le_word [of t] by (metis order_refl uint_nat)
  finally show ?thesis by (simp add: crc32_def)
qed

lemma crc32_bit_numeral:
  "crc32_bit (numeral n) =
     (if bit (numeral n :: 32 word) 0 then drop_bit 1 (numeral n) XOR 0xEDB88320
      else drop_bit 1 (numeral n))"
  "crc32_bit 1 = 0xEDB88320"
  by (simp_all add: crc32_bit_def)

lemma crc32_byte_unfold:
  "crc32_byte c b = crc32_bit (crc32_bit (crc32_bit (crc32_bit (crc32_bit (crc32_bit (crc32_bit
     (crc32_bit (c XOR ucast b))))))))"
  by (simp add: crc32_byte_def eval_nat_numeral)

lemma crc32_fold:
  "crc32 bs = uint (foldl crc32_byte 0xFFFFFFFF bs XOR 0xFFFFFFFF)"
proof -
  have "(NOT 0 :: 32 word) = 0xFFFFFFFF" by simp
  moreover have "NOT w = w XOR 0xFFFFFFFF" for w :: "32 word"
    by (metis bit.xor_one_right calculation bit.compl_zero)
  ultimately show ?thesis by (simp add: crc32_def)
qed

text \<open>Rules by which \<open>simp\<close> computes the checksum of a concrete byte string.\<close>

lemmas crc32_eval = crc32_fold crc32_byte_unfold crc32_bit_numeral

text \<open>The check value of the CRC-32 catalogue, the checksum of \<^verbatim>\<open>123456789\<close>.\<close>

lemma crc32_check_value: "crc32 [0x31,0x32,0x33,0x34,0x35,0x36,0x37,0x38,0x39] = 0xCBF43926"
  by (simp add: crc32_eval)

end
