(* ===== verification/Jd9365_Firmware.thy ===== *)
theory Jd9365_Firmware
  imports Py_Struct Complex_Main
begin

text \<open>
  The generator of the panel's command firmware, \<^verbatim>\<open>micronux-jd9365-firmware/generate_firmware.py\<close>:
  a JSON document of display commands is normalised (\<open>normalize_source\<close>), encoded into a
  bounded binary artifact with a CRC-protected payload (\<open>build_blob\<close>) and decoded again
  (\<open>parse_blob\<close>).  \<^verbatim>\<open>json.load\<close> is the only part left out: the document is a value of type
  \<open>json\<close>.  The main results: the encoder and the decoder are inverse to each other (the
  interpretation \<open>fw\<close> of \<open>byte_codec\<close>), the encoder never fails on a normalised source, and
  the decoder refuses every payload that differs from an accepted one in a single byte.
\<close>

section \<open>Documents\<close>

datatype json =
    JNull
  | JBool bool
  | JInt int
  | JFloat rat
  | JStr string
  | JArr "json list"
  | JObj "(string \<times> json) list"

text \<open>\<^verbatim>\<open>value.get(key, default)\<close>; only a dictionary has the method.\<close>

definition json_get_default :: "json \<Rightarrow> string \<Rightarrow> json \<Rightarrow> json result" where
  "json_get_default v k d =
     (case v of JObj kvs \<Rightarrow> Inr (case map_of kvs k of Some w \<Rightarrow> w | None \<Rightarrow> d)
      | _ \<Rightarrow> Inl AttributeError)"

definition json_get :: "json \<Rightarrow> string \<Rightarrow> json result" where
  "json_get v k = json_get_default v k JNull"

text \<open>\<^verbatim>\<open>isinstance(value, list)\<close>, with the elements.\<close>

fun json_list :: "json \<Rightarrow> json list option" where
  "json_list (JArr xs) = Some xs"
| "json_list _ = None"

text \<open>Comparison of an integer with a JSON value: booleans and floats are numbers.\<close>

fun int_eq_json :: "int \<Rightarrow> json \<Rightarrow> bool" where
  "int_eq_json n (JInt m) = (n = m)"
| "int_eq_json n (JBool b) = (n = of_bool b)"
| "int_eq_json n (JFloat q) = (of_int n = q)"
| "int_eq_json n _ = False"

text \<open>
  \<^verbatim>\<open>int(s, 0)\<close>: surrounding space, a sign, a base prefix, and single underscores between
  digits; a decimal literal other than zero has no leading zero.
\<close>

fun us_digits :: "nat \<Rightarrow> bool \<Rightarrow> string \<Rightarrow> string option" where
  "us_digits b prev [] = (if prev then Some [] else None)"
| "us_digits b prev (c # cs) =
     (if c = CHR ''_'' then (if prev then us_digits b False cs else None)
      else case digit_val c of
        None \<Rightarrow> None
      | Some d \<Rightarrow> if d < b then map_option ((#) c) (us_digits b True cs) else None)"

definition prefixed_val :: "nat \<Rightarrow> string \<Rightarrow> nat option" where
  "prefixed_val b s = (if s = [] then None else map_option (base_val b) (us_digits b True s))"

definition unsigned_base0 :: "string \<Rightarrow> nat option" where
  "unsigned_base0 s =
     (if prefix ''0x'' (lower s) then prefixed_val 16 (drop 2 s)
      else if prefix ''0o'' (lower s) then prefixed_val 8 (drop 2 s)
      else if prefix ''0b'' (lower s) then prefixed_val 2 (drop 2 s)
      else case us_digits 10 False s of
        None \<Rightarrow> None
      | Some ds \<Rightarrow>
          if prefix ''0'' s \<and> base_val 10 ds \<noteq> 0 then None else Some (base_val 10 ds))"

definition int_base0 :: "string \<Rightarrow> int option" where
  "int_base0 s = (case strip s of
       [] \<Rightarrow> None
     | c # cs \<Rightarrow>
         if c = CHR ''-'' then map_option (\<lambda>n. - int n) (unsigned_base0 cs)
         else if c = CHR ''+'' then map_option int (unsigned_base0 cs)
         else map_option int (unsigned_base0 (c # cs)))"

text \<open>\<^verbatim>\<open>bytes.fromhex\<close>: pairs of hexadecimal digits, ASCII space between pairs.\<close>

definition hex_val :: "char \<Rightarrow> nat option" where
  "hex_val c = (case digit_val c of Some d \<Rightarrow> if d < 16 then Some d else None | None \<Rightarrow> None)"

definition hex_space :: "char \<Rightarrow> bool" where
  "hex_space c = ((of_char c :: nat) \<in> {0x09, 0x0A, 0x0B, 0x0C, 0x0D, 0x20})"

fun fromhex :: "string \<Rightarrow> bytes option" where
  "fromhex [] = Some []"
| "fromhex (c # cs) =
     (if hex_space c then fromhex cs
      else case cs of [] \<Rightarrow> None | d # ds \<Rightarrow>
        (case (hex_val c, hex_val d) of
           (Some x, Some y) \<Rightarrow> map_option ((#) (of_nat (16 * x + y))) (fromhex ds)
         | _ \<Rightarrow> None))"

section \<open>Format constants and records\<close>

definition MAGIC_FW :: bytes where
  "MAGIC_FW = map (\<lambda>c. of_nat (of_char c)) ''MNJD9365''"

definition FORMAT_VERSION :: int where "FORMAT_VERSION = 1"
definition FLAGS :: int where "FLAGS = 0x7"

text \<open>\<^verbatim>\<open>HEADER = struct.Struct("<8sHHHHIIIHH")\<close>: the magic and nine integers, 32 bytes.\<close>

definition HEADER_INTS :: "nat list" where "HEADER_INTS = [2, 2, 2, 2, 4, 4, 4, 2, 2]"
definition HEADER_SIZE_FW :: nat where "HEADER_SIZE_FW = 8 + calcsize HEADER_INTS"
definition RECORD_HEADER :: "nat list" where "RECORD_HEADER = [1, 1, 2]"

definition MAX_RECORDS :: nat where "MAX_RECORDS = 512"
definition MAX_PAYLOAD_BYTES :: nat where "MAX_PAYLOAD_BYTES = 65536"
definition MAX_PARAM_BYTES :: nat where "MAX_PARAM_BYTES = 64"
definition MAX_DELAY_MS :: int where "MAX_DELAY_MS = 5000"

lemmas fw_const_defs =
  MAGIC_FW_def FORMAT_VERSION_def FLAGS_def HEADER_INTS_def HEADER_SIZE_FW_def
  RECORD_HEADER_def MAX_RECORDS_def MAX_PAYLOAD_BYTES_def MAX_PARAM_BYTES_def MAX_DELAY_MS_def

record fw_record =
  fw_command :: int
  fw_data :: bytes
  fw_delay_ms :: int

record fw_info =
  record_count :: int
  prelude_count :: int
  payload_bytes :: int
  payload_crc32 :: int
  fw_flags :: int
  max_params :: int
  max_delay_ms :: int
  fw_records :: "fw_record list"

section \<open>Normalising a source document\<close>

definition json_integer :: "json \<Rightarrow> string \<Rightarrow> int result" where
  "json_integer v field =
     (case v of
        JInt n \<Rightarrow> Inr n
      | JBool b \<Rightarrow> Inr (of_bool b)
      | JStr s \<Rightarrow>
          (case int_base0 s of
             Some n \<Rightarrow> Inr n
           | None \<Rightarrow> Inl (FirmwareFormatError (''invalid '' @ field @ '': '' @ py_repr s)))
      | _ \<Rightarrow> Inl (FirmwareFormatError (''invalid '' @ field @ '' type'')))"

definition record_item :: "json \<Rightarrow> nat \<Rightarrow> fw_record result" where
  "record_item item index = (let rec = ''record '' @ str_nat index in
     rbind (json_get item ''command'') (\<lambda>command_value.
     rbind (json_integer command_value (rec @ '' command'')) (\<lambda>command.
     rbind (json_get item ''delay_ms'') (\<lambda>delay_value.
     rbind (json_integer delay_value (rec @ '' delay'')) (\<lambda>delay_ms.
     rbind (json_get item ''data'') (\<lambda>data_value.
       case data_value of
         JStr data_text \<Rightarrow>
           (case fromhex data_text of
              None \<Rightarrow> Inl (FirmwareFormatError (rec @ '' data is not hexadecimal''))
            | Some data \<Rightarrow>
                if \<not> (0 \<le> command \<and> command \<le> 0xFF)
                then Inl (FirmwareFormatError (rec @ '' command is out of range''))
                else if length data > MAX_PARAM_BYTES
                then Inl (FirmwareFormatError (rec @ '' has too many parameter bytes''))
                else if \<not> (0 \<le> delay_ms \<and> delay_ms \<le> MAX_DELAY_MS)
                then Inl (FirmwareFormatError (rec @ '' delay is out of range''))
                else Inr \<lparr>fw_command = command, fw_data = data, fw_delay_ms = delay_ms\<rparr>)
       | _ \<Rightarrow> Inl (FirmwareFormatError (rec @ '' data must be a hex string''))))))))"

definition normalize_source :: "json \<Rightarrow> (fw_record list \<times> nat) result" where
  "normalize_source document =
     rbind (json_get document ''schema'') (\<lambda>schema.
     if schema \<noteq> JStr ''micronux-jd9365-command-source-v1''
     then Inl (FirmwareFormatError ''unknown source schema'') else
     rbind (json_get document ''license'') (\<lambda>license.
     if license \<noteq> JStr ''Apache-2.0''
     then Inl (FirmwareFormatError ''source must retain its Apache-2.0 license'') else
     rbind (json_get document ''prelude'') (\<lambda>prelude.
     rbind (json_get document ''vendor_records'') (\<lambda>vendor.
     case (json_list prelude, json_list vendor) of
       (Some prelude_items, Some vendor_items) \<Rightarrow>
         rbind (json_get_default document ''profile'' (JObj [])) (\<lambda>expected.
         rbind (json_get expected ''prelude_records'') (\<lambda>expected_prelude.
         if \<not> int_eq_json (int (length prelude_items)) expected_prelude
         then Inl (FirmwareFormatError ''prelude record count mismatch'') else
         rbind (json_get expected ''vendor_records'') (\<lambda>expected_vendor.
         if \<not> int_eq_json (int (length vendor_items)) expected_vendor
         then Inl (FirmwareFormatError ''vendor record count mismatch'') else
         rbind (map_result (\<lambda>(index, item). record_item item index)
                  (List.enumerate 0 (prelude_items @ vendor_items))) (\<lambda>records.
         if \<not> (0 < length records \<and> length records \<le> MAX_RECORDS)
         then Inl (FirmwareFormatError ''total record count is out of range'')
         else Inr (records, length prelude_items)))))
     | _ \<Rightarrow> Inl (FirmwareFormatError ''prelude and vendor_records must be arrays'')))))"

section \<open>Encoding\<close>

fun max_of :: "'a::linorder list \<Rightarrow> 'a" where
  "max_of [] = undefined"
| "max_of (x # xs) = fold max xs x"

definition encode_record :: "fw_record \<Rightarrow> bytes result" where
  "encode_record r =
     rbind (pack_le RECORD_HEADER [fw_command r, int (length (fw_data r)), fw_delay_ms r])
       (\<lambda>header. Inr (header @ fw_data r))"

definition build_records :: "fw_record list \<Rightarrow> nat \<Rightarrow> bytes result" where
  "build_records records prelude =
     rbind (map_result encode_record records) (\<lambda>payload_parts.
     let payload = concat payload_parts in
     if length payload > MAX_PAYLOAD_BYTES
     then Inl (FirmwareFormatError ''record payload is too large'')
     else if records = [] then Inl (ValueError ''max() iterable argument is empty'')
     else
       rbind (pack_le HEADER_INTS
         [FORMAT_VERSION, int HEADER_SIZE_FW, int (length records), int prelude,
          int (length payload), crc32 payload, FLAGS,
          int (max_of (map (length \<circ> fw_data) records)),
          max_of (map fw_delay_ms records)]) (\<lambda>header.
       Inr (MAGIC_FW @ header @ payload)))"

definition build_blob :: "json \<Rightarrow> bytes result" where
  "build_blob document =
     rbind (normalize_source document) (\<lambda>(records, prelude). build_records records prelude)"

section \<open>Decoding\<close>

text \<open>
  The record loop of \<^verbatim>\<open>parse_blob\<close>: \<open>rest\<close> is \<^verbatim>\<open>payload[offset:]\<close>, so \<^verbatim>\<open>len(payload) - offset\<close> is
  its length.  The result is the records and what is left behind the last one.
\<close>

fun parse_records :: "nat \<Rightarrow> nat \<Rightarrow> bytes \<Rightarrow> (fw_record list \<times> bytes) result" where
  "parse_records 0 index rest = Inr ([], rest)"
| "parse_records (Suc n) index rest =
     (if length rest < calcsize RECORD_HEADER
      then Inl (FirmwareFormatError (''record '' @ str_nat index @ '' header is truncated''))
      else
        (case fields_le RECORD_HEADER rest of
           [command, param_bytes, delay_ms] \<Rightarrow>
             let body = drop (calcsize RECORD_HEADER) rest in
             if param_bytes > int MAX_PARAM_BYTES \<or> delay_ms > MAX_DELAY_MS
             then Inl (FirmwareFormatError (''record '' @ str_nat index @ '' exceeds format bounds''))
             else if int (length body) < param_bytes
             then Inl (FirmwareFormatError (''record '' @ str_nat index @ '' data is truncated''))
             else
               rbind (parse_records n (Suc index) (drop (nat param_bytes) body)) (\<lambda>(records, left).
               Inr (\<lparr>fw_command = command, fw_data = take (nat param_bytes) body,
                     fw_delay_ms = delay_ms\<rparr> # records, left))
         | _ \<Rightarrow> Inl StructError))"

definition parse_blob :: "bytes \<Rightarrow> fw_info result" where
  "parse_blob blob =
     (if length blob < HEADER_SIZE_FW then Inl (FirmwareFormatError ''truncated header'')
      else
        (case fields_le HEADER_INTS (drop (length MAGIC_FW) blob) of
           [version, header_bytes, records_n, prelude_n, payload_n, payload_crc, flags,
            encoded_max_params, encoded_max_delay] \<Rightarrow>
             if take (length MAGIC_FW) blob \<noteq> MAGIC_FW \<or> version \<noteq> FORMAT_VERSION
                \<or> header_bytes \<noteq> int HEADER_SIZE_FW
             then Inl (FirmwareFormatError ''unsupported header'')
             else if flags \<noteq> FLAGS then Inl (FirmwareFormatError ''unsupported flags'')
             else if \<not> (0 < records_n \<and> records_n \<le> int MAX_RECORDS) \<or> prelude_n > records_n
             then Inl (FirmwareFormatError ''record count is out of range'')
             else if payload_n > int MAX_PAYLOAD_BYTES
                \<or> int (length blob) \<noteq> header_bytes + payload_n
             then Inl (FirmwareFormatError ''payload length mismatch'')
             else
               (let payload = drop HEADER_SIZE_FW blob in
                if crc32 payload \<noteq> payload_crc
                then Inl (FirmwareFormatError ''payload CRC32 mismatch'')
                else
                  rbind (parse_records (nat records_n) 0 payload) (\<lambda>(records, left).
                  if left \<noteq> [] then Inl (FirmwareFormatError ''trailing payload bytes'')
                  else
                    (let actual_max_params = int (max_of (map (length \<circ> fw_data) records));
                         actual_max_delay = max_of (map fw_delay_ms records) in
                     if encoded_max_params \<noteq> actual_max_params \<or> encoded_max_delay \<noteq> actual_max_delay
                     then Inl (FirmwareFormatError ''encoded maxima do not match records'')
                     else Inr \<lparr>record_count = records_n, prelude_count = prelude_n,
                                payload_bytes = payload_n, payload_crc32 = payload_crc,
                                fw_flags = flags, max_params = actual_max_params,
                                max_delay_ms = actual_max_delay, fw_records = records\<rparr>)))
         | _ \<Rightarrow> Inl StructError))"

text \<open>
  \<^verbatim>\<open>main\<close> on the files' contents: the source document and, with \<^verbatim>\<open>--check\<close>, the existing output
  (\<open>None\<close> when it cannot be read).  The result is what is written (\<open>None\<close> with \<^verbatim>\<open>--check\<close>) and
  the decoded artifact the summary line prints; \<^verbatim>\<open>parser.error\<close> exits.
\<close>

definition generator_main :: "json \<Rightarrow> bytes option option \<Rightarrow> (bytes option \<times> fw_info) result" where
  "generator_main source check_output =
     rbind (build_blob source) (\<lambda>blob.
     rbind (parse_blob blob) (\<lambda>decoded.
       case check_output of
         None \<Rightarrow> Inr (Some blob, decoded)
       | Some None \<Rightarrow> Inl (SystemExit ''cannot read'')
       | Some (Some existing) \<Rightarrow>
           if existing \<noteq> blob
           then Inl (SystemExit ''is not the deterministic generator output'')
           else Inr (None, decoded)))"

section \<open>Well-formed records\<close>

definition record_ok :: "fw_record \<Rightarrow> bool" where
  "record_ok r = (0 \<le> fw_command r \<and> fw_command r \<le> 0xFF \<and>
     length (fw_data r) \<le> MAX_PARAM_BYTES \<and> 0 \<le> fw_delay_ms r \<and> fw_delay_ms r \<le> MAX_DELAY_MS)"

definition source_ok :: "fw_record list \<times> nat \<Rightarrow> bool" where
  "source_ok = (\<lambda>(records, prelude).
     0 < length records \<and> length records \<le> MAX_RECORDS \<and> prelude \<le> length records \<and>
     (\<forall>r \<in> set records. record_ok r))"

lemma record_item_ok: "record_item item index = Inr r \<Longrightarrow> record_ok r"
  by (auto simp: record_item_def record_ok_def Let_def elim!: rbind_InrE
      split: json.split_asm option.split_asm if_splits)

lemma normalize_source_ok:
  assumes "normalize_source document = Inr x"
  shows "source_ok x"
proof -
  from assms obtain prelude vendor records where
    m: "map_result (\<lambda>(index, item). record_item item index)
          (List.enumerate 0 (prelude @ vendor)) = Inr records"
    and n: "0 < length records" "length records \<le> MAX_RECORDS"
    and x: "x = (records, length prelude)"
    by (auto simp: normalize_source_def elim!: rbind_InrE split: if_splits option.split_asm)
  from map_result_all [OF m, of record_ok] have "\<forall>r \<in> set records. record_ok r"
    by (auto dest: record_item_ok)
  moreover from map_result_length [OF m] have "length records = length prelude + length vendor"
    by simp
  ultimately show ?thesis using n x by (auto simp: source_ok_def)
qed

lemma max_of_fold: "fold max xs (x :: 'a::linorder) \<in> set (x # xs) \<and> (\<forall>y \<in> set (x # xs). y \<le> fold max xs x)"
  by (induction xs arbitrary: x) (fastforce simp: max_def)+

lemma max_of_mem: "xs \<noteq> [] \<Longrightarrow> max_of xs \<in> set xs"
  by (cases xs) (use max_of_fold in auto)

lemma max_of_ge: "x \<in> set xs \<Longrightarrow> x \<le> max_of xs"
  by (cases xs) (use max_of_fold in auto)

section \<open>The payload\<close>

lemma calcsize_RECORD_HEADER [simp]: "calcsize RECORD_HEADER = 4"
  by (simp add: RECORD_HEADER_def)

lemma RECORD_HEADER_cases:
  obtains c p d where "fields_le RECORD_HEADER b = [c, p, d]"
  by (simp add: RECORD_HEADER_def)

abbreviation (input) header_fields :: "fw_record \<Rightarrow> int list" where
  "header_fields r \<equiv> [fw_command r, int (length (fw_data r)), fw_delay_ms r]"

lemma encode_record_Inr_iff:
  "encode_record r = Inr b \<longleftrightarrow>
     (\<exists>h. length h = 4 \<and> list_all2 fits RECORD_HEADER (header_fields r)
        \<and> fields_le RECORD_HEADER h = header_fields r \<and> b = h @ fw_data r)"
  unfolding encode_record_def rbind_eq_Inr_iff pack_le_Inr_iff calcsize_RECORD_HEADER
  by auto

lemma encode_record_total:
  assumes "record_ok r"
  obtains b where "encode_record r = Inr b" and "length b \<le> 4 + MAX_PARAM_BYTES"
proof -
  have "list_all2 fits RECORD_HEADER (header_fields r)"
    using assms by (simp add: record_ok_def fw_const_defs fits_def)
  from struct_le.enc_total [OF this] obtain h where
    h: "pack_le RECORD_HEADER (header_fields r) = Inr h" ..
  from pack_le_Inr_iff [THEN iffD1, OF h] have "length h = 4" by simp
  with h assms show ?thesis
    by (intro that [of "h @ fw_data r"]) (simp_all add: encode_record_def record_ok_def)
qed

lemma encode_records_total:
  "\<forall>r \<in> set rs. record_ok r \<Longrightarrow>
     \<exists>parts. map_result encode_record rs = Inr parts \<and>
       length (concat parts) \<le> length rs * (4 + MAX_PARAM_BYTES)"
proof (induction rs)
  case (Cons r rs)
  then obtain parts where p: "map_result encode_record rs = Inr parts"
    "length (concat parts) \<le> length rs * (4 + MAX_PARAM_BYTES)" by auto
  from Cons.prems obtain b where "encode_record r = Inr b" "length b \<le> 4 + MAX_PARAM_BYTES"
    by (auto elim: encode_record_total)
  with p show ?case by simp
qed simp

lemma parse_records_step:
  assumes "record_ok r" and "encode_record r = Inr b"
  shows "parse_records (Suc n) index (b @ rest) =
     rbind (parse_records n (Suc index) rest) (\<lambda>(records, left). Inr (r # records, left))"
proof -
  from assms(2) obtain h where h: "length h = 4" "b = h @ fw_data r"
    "fields_le RECORD_HEADER h = header_fields r"
    by (auto simp: encode_record_Inr_iff)
  then have "fields_le RECORD_HEADER (b @ rest) = header_fields r"
    using fields_le_append [of RECORD_HEADER h "fw_data r @ rest"] by simp
  moreover have eta: "\<lparr>fw_command = fw_command r, fw_data = fw_data r, fw_delay_ms = fw_delay_ms r\<rparr> = r"
    by simp
  ultimately show ?thesis using h assms(1)
    by (simp add: record_ok_def Let_def eta)
qed

lemma parse_encode_records:
  "\<forall>r \<in> set rs. record_ok r \<Longrightarrow> map_result encode_record rs = Inr parts \<Longrightarrow>
     parse_records (length rs) index (concat parts @ left) = Inr (rs, left)"
proof (induction rs arbitrary: parts index)
  case (Cons r rs)
  from Cons.prems obtain b parts' where "encode_record r = Inr b"
    "map_result encode_record rs = Inr parts'" "parts = b # parts'"
    by (auto simp: rbind_eq_Inr_iff)
  with Cons show ?case
    by (simp add: parse_records_step [of r b] del: parse_records.simps(2))
qed simp

lemma parse_records_SucD:
  assumes "parse_records (Suc n) index b = Inr (rs, left)"
  obtains r rs' d rest where "rs = r # rs'" and "record_ok r" and "encode_record r = Inr d"
    and "b = d @ rest" and "parse_records n (Suc index) rest = Inr (rs', left)"
proof -
  obtain c p d where f: "fields_le RECORD_HEADER b = [c, p, d]" by (rule RECORD_HEADER_cases)
  from assms f obtain rs' where len: "4 \<le> length b"
    and bnd: "p \<le> int MAX_PARAM_BYTES" "d \<le> MAX_DELAY_MS" "p \<le> int (length b - 4)"
    and rec: "parse_records n (Suc index) (drop (nat p) (drop 4 b)) = Inr (rs', left)"
    and rs: "rs = \<lparr>fw_command = c, fw_data = take (nat p) (drop 4 b), fw_delay_ms = d\<rparr> # rs'"
    by (auto simp: Let_def rbind_eq_Inr_iff split: if_splits)
  have fits: "list_all2 fits RECORD_HEADER [c, p, d]"
    using fits_fields_le [of RECORD_HEADER b] f len by simp
  then have nn: "0 \<le> c" "c \<le> 255" "0 \<le> p" "0 \<le> d" by (simp_all add: RECORD_HEADER_def fits_def)
  have p: "int (length (take (nat p) (drop 4 b))) = p" using bnd nn by simp
  show ?thesis
  proof (rule that)
    show "record_ok (hd rs)" using nn bnd p by (simp add: rs record_ok_def)
    show "encode_record (hd rs) = Inr (take 4 b @ take (nat p) (drop 4 b))"
      unfolding encode_record_Inr_iff
      using f fits p len fields_le_take [of RECORD_HEADER 4 b]
      by (intro exI [of _ "take 4 b"]) (simp add: rs)
    show "b = (take 4 b @ take (nat p) (drop 4 b)) @ drop (nat p) (drop 4 b)"
      by (metis append.assoc append_take_drop_id)
  qed (use rs rec in simp_all)
qed

lemma parse_recordsD:
  "parse_records n index b = Inr (rs, left) \<Longrightarrow>
     length rs = n \<and> (\<forall>r \<in> set rs. record_ok r) \<and>
     (\<exists>parts. map_result encode_record rs = Inr parts \<and> b = concat parts @ left)"
proof (induction n arbitrary: index b rs)
  case (Suc n)
  from Suc.prems show ?case
    by (rule parse_records_SucD) (use Suc.IH in fastforce)
qed simp

section \<open>The artifact\<close>

lemma calcsize_HEADER_INTS [simp]: "calcsize HEADER_INTS = 24"
  by (simp add: HEADER_INTS_def)

lemma HEADER_SIZE_FW [simp]: "HEADER_SIZE_FW = 32"
  by (simp add: HEADER_SIZE_FW_def)

lemma length_MAGIC_FW [simp]: "length MAGIC_FW = 8"
  by (simp add: MAGIC_FW_def)

lemma HEADER_INTS_cases:
  obtains v hb rn pn pl pc fl mp md where "fields_le HEADER_INTS b = [v, hb, rn, pn, pl, pc, fl, mp, md]"
  by (simp add: HEADER_INTS_def)

abbreviation (input) artifact_fields :: "fw_record list \<Rightarrow> nat \<Rightarrow> bytes \<Rightarrow> int list" where
  "artifact_fields rs prelude payload \<equiv>
     [FORMAT_VERSION, int HEADER_SIZE_FW, int (length rs), int prelude,
      int (length payload), crc32 payload, FLAGS,
      int (max_of (map (length \<circ> fw_data) rs)), max_of (map fw_delay_ms rs)]"

definition decoded_of :: "fw_record list \<Rightarrow> nat \<Rightarrow> bytes \<Rightarrow> fw_info" where
  "decoded_of rs prelude payload =
     \<lparr>record_count = int (length rs), prelude_count = int prelude,
      payload_bytes = int (length payload), payload_crc32 = crc32 payload, fw_flags = FLAGS,
      max_params = int (max_of (map (length \<circ> fw_data) rs)),
      max_delay_ms = max_of (map fw_delay_ms rs), fw_records = rs\<rparr>"

lemma build_records_Inr_iff:
  "build_records rs prelude = Inr b \<longleftrightarrow>
     (\<exists>parts h. map_result encode_record rs = Inr parts \<and> rs \<noteq> [] \<and>
        length (concat parts) \<le> MAX_PAYLOAD_BYTES \<and>
        pack_le HEADER_INTS (artifact_fields rs prelude (concat parts)) = Inr h \<and>
        b = MAGIC_FW @ h @ concat parts)"
  by (auto simp: build_records_def Let_def rbind_eq_Inr_iff not_less split: if_splits)

lemma parse_blob_Inr_iff:
  "parse_blob b = Inr i \<longleftrightarrow>
     (\<exists>h rs prelude payload. length h = 24 \<and> b = MAGIC_FW @ h @ payload \<and>
        fields_le HEADER_INTS h = artifact_fields rs prelude payload \<and>
        0 < length rs \<and> length rs \<le> MAX_RECORDS \<and> prelude \<le> length rs \<and>
        length payload \<le> MAX_PAYLOAD_BYTES \<and>
        parse_records (length rs) 0 payload = Inr (rs, []) \<and>
        i = decoded_of rs prelude payload)" (is "?L \<longleftrightarrow> ?R")
proof
  assume ?L
  let ?h = "take 24 (drop 8 b)" and ?payload = "drop 32 b"
  obtain v hb rn pn pl pc fl mp md
    where f: "fields_le HEADER_INTS (drop 8 b) = [v, hb, rn, pn, pl, pc, fl, mp, md]"
    by (rule HEADER_INTS_cases)
  from \<open>?L\<close> f have len: "32 \<le> length b"
    by (auto simp: parse_blob_def split: if_splits)
  from f len have nn: "0 \<le> rn" "0 \<le> pn"
    using fits_fields_le [of HEADER_INTS "drop 8 b"] by (simp_all add: fits_def HEADER_INTS_def)
  from \<open>?L\<close> f len obtain rs where
    hdr: "take 8 b = MAGIC_FW" "v = FORMAT_VERSION" "hb = int HEADER_SIZE_FW" "fl = FLAGS"
    and cnt: "0 < rn" "rn \<le> int MAX_RECORDS" "pn \<le> rn"
    and pay: "pl \<le> int MAX_PAYLOAD_BYTES" "int (length b) = int HEADER_SIZE_FW + pl"
    and crc: "pc = crc32 ?payload"
    and rec: "parse_records (nat rn) 0 ?payload = Inr (rs, [])"
    and mx: "mp = int (max_of (map (length \<circ> fw_data) rs))" "md = max_of (map fw_delay_ms rs)"
    and i: "i = \<lparr>record_count = rn, prelude_count = pn, payload_bytes = pl, payload_crc32 = pc,
        fw_flags = fl, max_params = mp, max_delay_ms = md, fw_records = rs\<rparr>"
    by (auto simp: parse_blob_def Let_def elim!: rbind_InrE split: if_splits)
  have rn: "rn = int (length rs)" "length rs = nat rn" using parse_recordsD [OF rec] nn by simp_all
  have pl: "pl = int (length ?payload)" using pay(2) len by simp
  have "b = take 8 b @ take 24 (drop 8 b) @ drop 24 (drop 8 b)"
    by (simp only: append_take_drop_id)
  then have "b = MAGIC_FW @ ?h @ ?payload" by (simp add: hdr(1))
  moreover have "fields_le HEADER_INTS ?h = artifact_fields rs (nat pn) ?payload"
    using f fields_le_take [of HEADER_INTS 24 "drop 8 b"] nn(2) by (simp add: hdr rn(1) pl crc mx)
  moreover have "i = decoded_of rs (nat pn) ?payload"
    using nn(2) by (simp add: i hdr rn(1) pl crc mx decoded_of_def)
  moreover have "nat pn \<le> length rs" "0 < length rs" "length rs \<le> MAX_RECORDS"
    using cnt nn rn(1) by auto
  moreover have "length ?h = 24" "length ?payload \<le> MAX_PAYLOAD_BYTES"
    "parse_records (length rs) 0 ?payload = Inr (rs, [])"
    using len pay(1) pl rec rn(2) by simp_all
  ultimately show ?R by blast
next
  assume ?R
  then obtain h rs prelude payload where
    b: "length h = 24" "b = MAGIC_FW @ h @ payload"
    and f: "fields_le HEADER_INTS h = artifact_fields rs prelude payload"
    and o: "rs \<noteq> []" "length rs \<le> MAX_RECORDS" "prelude \<le> length rs"
      "length payload \<le> MAX_PAYLOAD_BYTES" "parse_records (length rs) 0 payload = Inr (rs, [])"
    and i: "i = decoded_of rs prelude payload" by auto
  have "fields_le HEADER_INTS (h @ payload) = artifact_fields rs prelude payload"
    using f b fields_le_append [of HEADER_INTS h payload] by simp
  with b o i show ?L
    by (simp add: parse_blob_def Let_def decoded_of_def)
qed

text \<open>The codec: documents as pairs of records and prelude count, artifacts as bytes.\<close>

definition decode_blob :: "bytes \<Rightarrow> (fw_record list \<times> nat) result" where
  "decode_blob b = rbind (parse_blob b) (\<lambda>i. Inr (fw_records i, nat (prelude_count i)))"

lemma build_records_total:
  assumes "source_ok (rs, prelude)"
  shows "\<exists>b payload. build_records rs prelude = Inr b \<and> parse_blob b = Inr (decoded_of rs prelude payload)
     \<and> length b \<le> 32 + length rs * (4 + MAX_PARAM_BYTES) \<and> b = take 32 b @ payload"
proof -
  from assms have ok: "\<forall>r \<in> set rs. record_ok r" and n: "rs \<noteq> []" "length rs \<le> MAX_RECORDS"
    "prelude \<le> length rs" by (auto simp: source_ok_def)
  from encode_records_total [OF ok] obtain parts where p: "map_result encode_record rs = Inr parts"
    and len: "length (concat parts) \<le> length rs * (4 + MAX_PARAM_BYTES)" by blast
  let ?payload = "concat parts"
  have small: "length ?payload \<le> 34816" using len n(2) by (simp add: fw_const_defs)
  have "\<forall>r \<in> set rs. length (fw_data r) \<le> 64" "\<forall>r \<in> set rs. 0 \<le> fw_delay_ms r \<and> fw_delay_ms r \<le> 5000"
    using ok by (auto simp: record_ok_def fw_const_defs)
  then have "max_of (map (length \<circ> fw_data) rs) \<le> 64"
    "0 \<le> max_of (map fw_delay_ms rs)" "max_of (map fw_delay_ms rs) \<le> 5000"
    using max_of_mem [of "map (length \<circ> fw_data) rs"] max_of_mem [of "map fw_delay_ms rs"] n(1) by auto
  then have "list_all2 fits HEADER_INTS (artifact_fields rs prelude ?payload)"
    using small n crc32_fits [of ?payload] by (simp add: fw_const_defs fits_def)
  from struct_le.enc_total [OF this] obtain h
    where h: "pack_le HEADER_INTS (artifact_fields rs prelude ?payload) = Inr h" ..
  let ?b = "MAGIC_FW @ h @ ?payload"
  from h have hf: "length h = 24" "fields_le HEADER_INTS h = artifact_fields rs prelude ?payload"
    unfolding pack_le_Inr_iff by simp_all
  have "length ?payload \<le> MAX_PAYLOAD_BYTES" using small by (simp add: MAX_PAYLOAD_BYTES_def)
  then have "build_records rs prelude = Inr ?b"
    unfolding build_records_Inr_iff using p h n(1) by blast
  moreover have "parse_blob ?b = Inr (decoded_of rs prelude ?payload)"
    unfolding parse_blob_Inr_iff
    using hf n small parse_encode_records [OF ok p, of 0 "[]"]
    by (intro exI [of _ h] exI [of _ rs] exI [of _ prelude] exI [of _ ?payload])
      (simp add: MAX_PAYLOAD_BYTES_def)
  moreover have "length ?b \<le> 32 + length rs * (4 + MAX_PARAM_BYTES)" "?b = take 32 ?b @ ?payload"
    using hf(1) len by simp_all
  ultimately show ?thesis by blast
qed

lemma parse_blob_canonical:
  assumes "parse_blob b = Inr i"
  shows "source_ok (fw_records i, nat (prelude_count i))"
    and "build_records (fw_records i) (nat (prelude_count i)) = Inr b"
proof -
  from assms obtain h rs prelude payload where
    b: "length h = 24" "b = MAGIC_FW @ h @ payload"
    and f: "fields_le HEADER_INTS h = artifact_fields rs prelude payload"
    and n: "0 < length rs" "length rs \<le> MAX_RECORDS" "prelude \<le> length rs"
      "length payload \<le> MAX_PAYLOAD_BYTES" and r: "parse_records (length rs) 0 payload = Inr (rs, [])"
    and i: "i = decoded_of rs prelude payload"
    unfolding parse_blob_Inr_iff by blast
  from i have di: "fw_records i = rs" "nat (prelude_count i) = prelude"
    by (simp_all add: decoded_of_def)
  from parse_recordsD [OF r] obtain parts where
    p: "\<forall>r \<in> set rs. record_ok r" "map_result encode_record rs = Inr parts" "payload = concat parts"
    by auto
  with n di show "source_ok (fw_records i, nat (prelude_count i))" by (simp add: source_ok_def)
  have "pack_le HEADER_INTS (artifact_fields rs prelude payload) = Inr h"
    unfolding pack_le_Inr_iff using b(1) f fits_fields_le [of HEADER_INTS h] by simp
  with p n b show "build_records (fw_records i) (nat (prelude_count i)) = Inr b"
    unfolding di build_records_Inr_iff by auto
qed

interpretation fw: byte_codec source_ok "\<lambda>(rs, prelude). build_records rs prelude" decode_blob
proof
  fix x
  assume "source_ok x"
  then show "\<exists>b. (\<lambda>(rs, prelude). build_records rs prelude) x = Inr b \<and> decode_blob b = Inr x"
    using build_records_total [of "fst x" "snd x"]
    by (auto simp: decode_blob_def decoded_of_def split: prod.split)
next
  fix b x
  assume "decode_blob b = Inr x"
  then show "source_ok x \<and> (\<lambda>(rs, prelude). build_records rs prelude) x = Inr b"
    using parse_blob_canonical by (auto simp: decode_blob_def elim!: rbind_InrE)
qed

section \<open>Properties\<close>

definition example_source :: json where
  "example_source = JObj
     [(''schema'', JStr ''micronux-jd9365-command-source-v1''),
      (''license'', JStr ''Apache-2.0''),
      (''prelude'', JArr [JObj [(''command'', JStr ''0xE0''), (''data'', JStr ''00''), (''delay_ms'', JInt 0)]]),
      (''vendor_records'', JArr [JObj [(''command'', JInt 41), (''data'', JStr []), (''delay_ms'', JInt 120)]]),
      (''profile'', JObj [(''prelude_records'', JInt 1), (''vendor_records'', JInt 1)])]"

definition example_records :: "fw_record list" where
  "example_records =
     [\<lparr>fw_command = 0xE0, fw_data = [0], fw_delay_ms = 0\<rparr>,
      \<lparr>fw_command = 41, fw_data = [], fw_delay_ms = 120\<rparr>]"

lemma int_base0_E0: "int_base0 ''0xE0'' = Some 224"
  by code_simp

lemma record_items_example:
  "record_item (JObj [(''command'', JStr ''0xE0''), (''data'', JStr ''00''), (''delay_ms'', JInt 0)]) i
     = Inr \<lparr>fw_command = 0xE0, fw_data = [0], fw_delay_ms = 0\<rparr>"
  "record_item (JObj [(''command'', JInt 41), (''data'', JStr []), (''delay_ms'', JInt 120)]) i
     = Inr \<lparr>fw_command = 41, fw_data = [], fw_delay_ms = 120\<rparr>"
  by (simp_all add: record_item_def json_get_def json_get_default_def json_integer_def Let_def
      int_base0_E0 hex_space_def hex_val_def digit_val_def fw_const_defs)

lemma normalize_example: "normalize_source example_source = Inr (example_records, 1)"
  by (simp add: normalize_source_def example_source_def example_records_def json_get_def
      json_get_default_def record_items_example MAX_RECORDS_def)

definition example_header :: bytes where
  "example_header = [77, 78, 74, 68, 57, 51, 54, 53, 1, 0, 32, 0, 2, 0, 1, 0, 9, 0, 0, 0,
     145, 134, 73, 42, 7, 0, 0, 0, 1, 0, 120, 0]"

lemma parse_example:
  "parse_blob (example_header @ [224] @ [1, 0, 0, 0] @ [41, 0, 120, 0]) =
     Inr (decoded_of example_records 1 [224, 1, 0, 0, 0, 41, 0, 120, 0])"
proof -
  let ?payload = "[224, 1, 0, 0, 0, 41, 0, 120, 0] :: bytes"
  have "fields_le HEADER_INTS (drop 8 example_header) = artifact_fields example_records 1 ?payload"
    by (simp add: example_header_def example_records_def fw_const_defs crc32_eval HEADER_SIZE_FW_def)
  moreover have "example_header @ ?payload = MAGIC_FW @ drop 8 example_header @ ?payload"
    by (simp add: example_header_def MAGIC_FW_def)
  moreover have "parse_records (length example_records) 0 ?payload = Inr (example_records, [])"
    by (simp add: example_records_def fw_const_defs Let_def)
  moreover have "length (drop 8 example_header) = 24" "length example_records = 2"
    by (simp_all add: example_header_def example_records_def)
  ultimately have "parse_blob (example_header @ ?payload) = Inr (decoded_of example_records 1 ?payload)"
    unfolding parse_blob_Inr_iff
    by (intro exI [of _ "drop 8 example_header"] exI [of _ example_records] exI [of _ 1]
        exI [of _ ?payload]) (simp add: fw_const_defs)
  then show ?thesis by simp
qed

text \<open>
  C4. Every source document that normalises is encoded, the encoding fits in the bound the
  record limits give, and decoding it returns exactly the normalised records, their count
  and the prelude count.
\<close>

theorem build_parse_roundtrip:
  assumes "normalize_source document = Inr (rs, prelude)"
  shows "\<exists>b i. build_blob document = Inr b \<and> parse_blob b = Inr i \<and> fw_records i = rs \<and>
     prelude_count i = int prelude \<and> record_count i = int (length rs) \<and>
     payload_bytes i = int (length b) - 32 \<and> length b \<le> 32 + 512 * (4 + 64)"
proof -
  from build_records_total [OF normalize_source_ok [OF assms]] obtain b payload where
    b: "build_records rs prelude = Inr b" "parse_blob b = Inr (decoded_of rs prelude payload)"
    "length b \<le> 32 + length rs * (4 + MAX_PARAM_BYTES)" "b = take 32 b @ payload" by blast
  have "length rs \<le> 512" using normalize_source_ok [OF assms] by (simp add: source_ok_def MAX_RECORDS_def)
  then have "length b \<le> 32 + 512 * (4 + 64)" using b(3) by (simp add: MAX_PARAM_BYTES_def)
  moreover have "32 \<le> length b"
    by (rule ccontr) (use b(2) in \<open>simp add: parse_blob_def\<close>)
  with arg_cong [OF b(4), of length] have "int (length payload) = int (length b) - 32"
    by (simp only: length_append length_take)
  ultimately show ?thesis
    using b(1,2) assms by (auto simp: build_blob_def decoded_of_def)
qed

theorem build_parse_roundtrip_witness:
  "normalize_source example_source = Inr (example_records, 1) \<and>
   (\<exists>b i. build_blob example_source = Inr b \<and> parse_blob b = Inr i \<and> fw_records i = example_records \<and>
     prelude_count i = 1 \<and> record_count i = 2)"
  using build_parse_roundtrip [OF normalize_example] normalize_example
  by (auto simp: example_records_def)

text \<open>
  C18. The decoder accepts only canonical artifacts: two accepted artifacts with the same
  records and prelude count are the same bytes, and what it accepts is what the encoder
  produces from the decoded records, all of them within the format's bounds.
\<close>

theorem parse_blob_canonical_encoding:
  assumes "parse_blob b = Inr i"
  shows "build_records (fw_records i) (nat (prelude_count i)) = Inr b \<and>
     (\<forall>r \<in> set (fw_records i). record_ok r) \<and>
     (\<forall>b' i'. parse_blob b' = Inr i' \<and> fw_records i' = fw_records i \<and>
        prelude_count i' = prelude_count i \<longrightarrow> b' = b)"
proof (intro conjI allI impI)
  fix b' i'
  assume "parse_blob b' = Inr i' \<and> fw_records i' = fw_records i \<and> prelude_count i' = prelude_count i"
  then show "b' = b"
    using parse_blob_canonical(2) [OF assms] parse_blob_canonical(2) [of b' i'] by simp
qed (use parse_blob_canonical [OF assms] in \<open>auto simp: source_ok_def\<close>)

theorem parse_blob_canonical_encoding_witness:
  "build_records example_records 1 =
     Inr (example_header @ [224] @ [1, 0, 0, 0] @ [41, 0, 120, 0])"
  using parse_blob_canonical_encoding [OF parse_example] by (simp add: decoded_of_def)

text \<open>
  C19. A payload corrupted within any four consecutive bytes (a burst of up to 32 bits) is
  refused, and for the checksum: no corrupted payload reaches the record parser.
\<close>

theorem parse_blob_rejects_burst:
  assumes "parse_blob (hdr @ pre @ xs @ post) = Inr i" and "length hdr = 32"
    and "length ys = length xs" and "length xs \<le> 4" and "ys \<noteq> xs"
  shows "parse_blob (hdr @ pre @ ys @ post) =
     Inl (FirmwareFormatError ''payload CRC32 mismatch'')"
proof -
  from assms(1) obtain h rs prelude payload where
    h: "length h = 24" "hdr @ pre @ xs @ post = (MAGIC_FW @ h) @ payload"
    and f: "fields_le HEADER_INTS h = artifact_fields rs prelude payload"
    and n: "0 < length rs" "length rs \<le> MAX_RECORDS" "prelude \<le> length rs"
      "length payload \<le> MAX_PAYLOAD_BYTES"
    unfolding parse_blob_Inr_iff by auto
  have "length hdr = length (MAGIC_FW @ h)" using h(1) assms(2) by simp
  with h(2) have hdr: "hdr = MAGIC_FW @ h" "payload = pre @ xs @ post"
    using append_eq_append_conv [of hdr "MAGIC_FW @ h" "pre @ xs @ post" payload] by metis+
  let ?payload = "pre @ ys @ post"
  have "fields_le HEADER_INTS (h @ ?payload) = artifact_fields rs prelude payload"
    using f h(1) fields_le_append [of HEADER_INTS h ?payload] by simp
  moreover have "crc32 ?payload \<noteq> crc32 payload"
    unfolding hdr(2) by (rule crc32_burst) (use assms in auto)
  moreover have "length (MAGIC_FW @ h @ ?payload) = 32 + length payload"
    using h(1) hdr(2) assms(3) by simp
  moreover have "drop 32 (MAGIC_FW @ h @ ?payload) = ?payload" using h(1) by simp
  ultimately show ?thesis
    using n unfolding hdr(1) parse_blob_def by simp
qed

theorem parse_blob_rejects_burst_witness:
  "(\<exists>i. parse_blob (example_header @ [224] @ [1, 0, 0, 0] @ [41, 0, 120, 0]) = Inr i) \<and>
   parse_blob (example_header @ [224] @ [0, 0, 9, 0] @ [41, 0, 120, 0]) =
     Inl (FirmwareFormatError ''payload CRC32 mismatch'')"
  using parse_blob_rejects_burst [OF parse_example, of "[0, 0, 9, 0]"] parse_example
  by (simp add: example_header_def)

text \<open>
  C20. The generator fails on a document exactly when its normalisation does, with the same
  error: neither \<^verbatim>\<open>struct.error\<close> nor the payload bound nor its own decoder ever stops it; and
  \<^verbatim>\<open>--check\<close> succeeds on exactly one file content.
\<close>

theorem generator_fails_only_on_source:
  "(generator_main document None = Inl e \<longleftrightarrow> normalize_source document = Inl e) \<and>
   ((\<exists>i. generator_main document (Some (Some existing)) = Inr (None, i)) \<longleftrightarrow>
      build_blob document = Inr existing)"
proof (cases "normalize_source document")
  case (Inl err)
  then show ?thesis by (simp add: generator_main_def build_blob_def)
next
  case (Inr x)
  obtain rs prelude where x: "x = (rs, prelude)" by (cases x)
  with Inr normalize_source_ok have "source_ok (rs, prelude)" by blast
  from build_records_total [OF this] obtain b i where
    "build_records rs prelude = Inr b" "parse_blob b = Inr i" by blast
  then show ?thesis using Inr x by (auto simp: generator_main_def build_blob_def)
qed

end
