(* ===== verification/Display_Layout.thy ===== *)
theory Display_Layout
  imports Py_Struct
begin

text \<open>
  What the two display contracts of \<^verbatim>\<open>scripts/m9-2-display-contract-test.py\<close> share: the physical
  memory map, dictionaries of named fields, structures sealed by a trailing CRC-32
  (\<open>seal_dict\<close>, an instance of the codec contract), and the guards on the three frame
  buffers.  The memory-map facts of \<^verbatim>\<open>test_memory_budget\<close> are at the end.
\<close>

section \<open>Constants\<close>

definition HANDOFF_MAGIC :: int where "HANDOFF_MAGIC = 0x4D4E5844"
definition FRAME_SIZE :: int where "FRAME_SIZE = 2048000"
definition COLD_PAGE_SIZE :: int where "COLD_PAGE_SIZE = 0x1000"
definition LOADER_PSRAM :: "int \<times> int" where "LOADER_PSRAM = (0x48000000, 0x48400000)"
definition DISPLAY_POOL :: "int \<times> int" where "DISPLAY_POOL = (0x49300000, 0x49700000)"
definition DESCRIPTOR_SRAM :: "int \<times> int" where "DESCRIPTOR_SRAM = (0x4FF00000, 0x4FFC0000)"
definition SD_DMA_SRAM :: "int \<times> int" where "SD_DMA_SRAM = (0x4FF80000, 0x4FF82000)"
definition DSI_FIFO :: int where "DSI_FIFO = 0x50105000"
definition DSI_FIFO_WINDOW :: "int \<times> int" where
  "DSI_FIFO_WINDOW = (DSI_FIFO, DSI_FIFO + COLD_PAGE_SIZE)"
definition DESCRIPTOR_SIZE :: int where "DESCRIPTOR_SIZE = 64"
definition DESCRIPTOR_COUNT :: int where "DESCRIPTOR_COUNT = 3"
definition DISPLAY_OWNER_LINUX_PENDING :: int where "DISPLAY_OWNER_LINUX_PENDING = 1"
definition DISPLAY_TIMING :: "int list" where "DISPLAY_TIMING = [20, 20, 40, 4, 10, 30]"
definition DISPLAY_SLOT_SIZE :: int where "DISPLAY_SLOT_SIZE = 0x00200000"
definition PSRAM :: "int \<times> int" where "PSRAM = (0x48000000, 0x4A000000)"
definition LINUX_RAM :: "int \<times> int" where "LINUX_RAM = (0x48400000, 0x4A000000)"
definition KERNEL_GENERAL_RAM :: "int \<times> int" where "KERNEL_GENERAL_RAM = (0x48400000, 0x49300000)"
definition KERNEL_LOAD_ADDRESS :: int where "KERNEL_LOAD_ADDRESS = fst KERNEL_GENERAL_RAM"
definition USER_POOL :: "int \<times> int" where "USER_POOL = (0x49700000, 0x49F00000)"
definition COMMS_POOL :: "int \<times> int" where "COMMS_POOL = (0x49F00000, 0x4A000000)"

lemmas layout_defs [simp] =
  HANDOFF_MAGIC_def FRAME_SIZE_def COLD_PAGE_SIZE_def LOADER_PSRAM_def DISPLAY_POOL_def
  DESCRIPTOR_SRAM_def SD_DMA_SRAM_def DSI_FIFO_def DSI_FIFO_WINDOW_def DESCRIPTOR_SIZE_def
  DESCRIPTOR_COUNT_def DISPLAY_OWNER_LINUX_PENDING_def DISPLAY_TIMING_def DISPLAY_SLOT_SIZE_def
  PSRAM_def LINUX_RAM_def KERNEL_GENERAL_RAM_def KERNEL_LOAD_ADDRESS_def USER_POOL_def
  COMMS_POOL_def

text \<open>Half-open address ranges: the overlap test of the source, and disjointness.\<close>

definition overlaps :: "int \<times> int \<Rightarrow> int \<times> int \<Rightarrow> bool" where
  "overlaps first second = (fst first < snd second \<and> fst second < snd first)"

definition span :: "int \<times> int \<Rightarrow> int set" where
  "span r = {fst r ..< snd r}"

lemma overlaps_iff:
  "fst r < snd r \<Longrightarrow> fst s < snd s \<Longrightarrow> overlaps r s \<longleftrightarrow> span r \<inter> span s \<noteq> {}"
  by (auto simp: overlaps_def span_def)

fun pairwise_disjoint :: "(int \<times> int) list \<Rightarrow> bool" where
  "pairwise_disjoint [] = True"
| "pairwise_disjoint (r # rs) = ((\<forall>s \<in> set rs. span r \<inter> span s = {}) \<and> pairwise_disjoint rs)"

section \<open>Dictionaries of named fields\<close>

section \<open>Structures sealed by a checksum\<close>

text \<open>
  The tail of \<^verbatim>\<open>make_handoff\<close> and \<^verbatim>\<open>make_cold_relinquish\<close>: pack with a zero checksum, then pack again
  with the checksum of all but the last four bytes.
\<close>

definition seal_dict :: "nat list \<Rightarrow> string list \<Rightarrow> (string \<Rightarrow> int) \<Rightarrow> bytes result" where
  "seal_dict fmt fields values =
     (let zeroed = values(''crc32'' := 0) in
      rbind (pack_le fmt (map zeroed fields)) (\<lambda>provisional.
      let sealed = zeroed(''crc32'' := crc32 (take (length provisional - 4) provisional)) in
      pack_le fmt (map sealed fields)))"

lemma fields_le_append_fmt:
  "fields_le (ks @ ls) b = fields_le ks b @ fields_le ls (drop (calcsize ks) b)"
  by (induction ks arbitrary: b) (simp_all add: add.commute)

lemma fields_le_snoc:
  "fields_le (ks @ [k]) b = fields_le ks b @ [int (le_nat (take k (drop (calcsize ks) b)))]"
  by (induction ks arbitrary: b) (simp_all add: add.commute)

lemma calcsize_append [simp]: "calcsize (ks @ ls) = calcsize ks + calcsize ls"
  by (simp add: calcsize_def)

text \<open>The bytes before the last field depend on the fields before it only.\<close>

lemma take_fields_le:
  assumes "length b = calcsize fmt + n" and "length c = calcsize fmt + n"
    and "fields_le fmt b = fields_le fmt c"
  shows "take (calcsize fmt) b = take (calcsize fmt) c"
proof (rule struct_le.dec_inj [where fmt = fmt and x = "fields_le fmt b"])
  show "unpack_le fmt (take (calcsize fmt) b) = Inr (fields_le fmt b)"
    using assms by (simp add: unpack_le_def fields_le_take)
  show "unpack_le fmt (take (calcsize fmt) c) = Inr (fields_le fmt b)"
    using assms by (simp add: unpack_le_def fields_le_take)
qed

text \<open>
  A sealed structure, from its bytes: the field values are the packed ones, and the last
  four bytes are the checksum of the rest.
\<close>

lemma seal_dict_Inr_iff:
  assumes "fmt = fmt' @ [4]" and "fields = fields' @ [''crc32'']" and "''crc32'' \<notin> set fields'"
    and "length fields' = length fmt'"
  shows "seal_dict fmt fields values = Inr b \<longleftrightarrow>
     length b = calcsize fmt \<and> list_all2 fits fmt' (map values fields') \<and>
     fields_le fmt b = map (values(''crc32'' := crc32 (take (length b - 4) b))) fields"
proof -
  let ?z = "\<lambda>c. map (values(''crc32'' := c)) fields"
  have z: "?z c = map values fields' @ [c]" for c
    using assms(2,3) by simp
  have fit: "list_all2 fits fmt (?z c) \<longleftrightarrow> list_all2 fits fmt' (map values fields') \<and> fits 4 c" for c
    unfolding z assms(1) using assms(4) by (simp add: list_all2_append)
  have same: "take (calcsize fmt') p = take (calcsize fmt') q"
    if "length p = calcsize fmt" "length q = calcsize fmt"
      "fields_le fmt p = ?z c" "fields_le fmt q = ?z d" for p q c d
    by (rule take_fields_le [where n = 4])
      (use that in \<open>simp_all add: assms(1) fields_le_snoc z del: map_append\<close>)
  have size: "calcsize fmt - 4 = calcsize fmt'" by (simp add: assms(1))
  have fit0: "fits 4 0" by (simp add: fits_def)
  show ?thesis
  proof
    assume "seal_dict fmt fields values = Inr b"
    then obtain p where p: "pack_le fmt (?z 0) = Inr p"
      and b: "pack_le fmt (?z (crc32 (take (length p - 4) p))) = Inr b"
      by (auto simp: seal_dict_def Let_def elim!: rbind_InrE)
    from p b have "take (calcsize fmt') p = take (calcsize fmt') b"
      unfolding pack_le_Inr_iff by (intro same) auto
    with p b show "length b = calcsize fmt \<and> list_all2 fits fmt' (map values fields') \<and>
        fields_le fmt b = ?z (crc32 (take (length b - 4) b))"
      unfolding pack_le_Inr_iff fit by (simp add: size)
  next
    assume R: "length b = calcsize fmt \<and> list_all2 fits fmt' (map values fields') \<and>
        fields_le fmt b = ?z (crc32 (take (length b - 4) b))"
    then have "list_all2 fits fmt (?z 0)" unfolding fit using fit0 by blast
    from struct_le.enc_total [OF this] obtain p where p: "pack_le fmt (?z 0) = Inr p" ..
    with R have "take (calcsize fmt') p = take (calcsize fmt') b"
      unfolding pack_le_Inr_iff by (intro same) auto
    then have "crc32 (take (length p - 4) p) = crc32 (take (length b - 4) b)"
      using p R unfolding pack_le_Inr_iff by (simp add: size)
    moreover have "pack_le fmt (?z (crc32 (take (length b - 4) b))) = Inr b"
      unfolding pack_le_Inr_iff fit using R by simp
    ultimately show "seal_dict fmt fields values = Inr b"
      using p by (simp add: seal_dict_def Let_def)
  qed
qed

lemma list_all2_fits_replicate:
  "length xs = n \<Longrightarrow> \<forall>x \<in> set xs. fits k x \<Longrightarrow> list_all2 fits (replicate n k) xs"
  by (simp add: list_all2_conv_all_nth)

lemma seal_dict_total:
  assumes "\<And>c. fits 4 c \<Longrightarrow> list_all2 fits fmt (map (values(''crc32'' := c)) fs)"
  shows "\<exists>b. seal_dict fmt fs values = Inr b"
proof -
  have "list_all2 fits fmt (map (values(''crc32'' := 0)) fs)"
    by (rule assms) (simp add: fits_def)
  from struct_le.enc_total [OF this] obtain p
    where p: "pack_le fmt (map (values(''crc32'' := 0)) fs) = Inr p" ..
  have "\<exists>b. pack_le fmt (map (values(''crc32'' := crc32 (take (length p - 4) p))) fs) = Inr b"
    by (rule struct_le.enc_total) (rule assms, simp)
  with p show ?thesis by (simp add: seal_dict_def Let_def)
qed

text \<open>The dictionary a validator reads: \<^verbatim>\<open>dict(zip(FIELDS, FORMAT.unpack(blob)))\<close>.\<close>

definition struct_values :: "nat list \<Rightarrow> string list \<Rightarrow> bytes \<Rightarrow> string \<Rightarrow> int" where
  "struct_values fmt fields blob = dict_get (zip fields (fields_le fmt blob))"

text \<open>
  The interface both record formats meet: distinct field names, one per item of the format,
  the last one a four-byte checksum.  What it gives: a record is determined by its
  dictionary, and its checksum field is right exactly when the whole record has the constant
  checksum \<open>crc32_residue\<close>.
\<close>

locale sealed_record =
  fixes fmt :: "nat list" and keys :: "string list"
  assumes keys_distinct: "distinct keys"
    and keys_length: "length keys = length fmt"
    and keys_snoc: "keys = butlast keys @ [''crc32'']"
    and fmt_snoc: "fmt = butlast fmt @ [4]"
begin

lemma crc32_notin: "''crc32'' \<notin> set (butlast keys)"
  using keys_distinct keys_snoc by (metis distinct_append disjoint_iff list.set_intros(1))

lemma crc32_mem: "''crc32'' \<in> set keys"
  by (subst keys_snoc) simp

lemma fields_values: "fields_le fmt b = map (struct_values fmt keys b) keys"
  unfolding struct_values_def
  by (rule map_dict_get_zip [symmetric]) (simp_all add: keys_distinct keys_length)

lemma values_nonneg:
  assumes "calcsize fmt \<le> length b" and "k \<in> set keys"
  shows "0 \<le> struct_values fmt keys b k"
proof -
  have "list_all2 fits fmt (map (struct_values fmt keys b) keys)"
    using fits_fields_le [OF assms(1)] by (simp only: fields_values)
  then show ?thesis
    using assms(2) by (fastforce simp: list_all2_conv_all_nth in_set_conv_nth fits_def)
qed

lemma seal_iff:
  "seal_dict fmt keys v = Inr b \<longleftrightarrow>
     length b = calcsize fmt \<and> list_all2 fits (butlast fmt) (map v (butlast keys)) \<and>
     (\<forall>k \<in> set keys. struct_values fmt keys b k =
        (if k = ''crc32'' then crc32 (take (length b - 4) b) else v k))"
  using seal_dict_Inr_iff [OF fmt_snoc keys_snoc crc32_notin, of v b] keys_length
  unfolding fields_values map_eq_conv fun_upd_apply by simp

lemma seal_values:
  assumes "length b = calcsize fmt"
    and "\<And>k. k \<in> set keys \<Longrightarrow> struct_values fmt keys b k =
        (if k = ''crc32'' then crc32 (take (length b - 4) b) else v k)"
  shows "seal_dict fmt keys v = Inr b"
proof -
  have same: "map v (butlast keys) = butlast (fields_le fmt b)"
    unfolding fields_values map_butlast [symmetric] map_eq_conv
    using assms(2) crc32_notin in_set_butlastD by metis
  have "list_all2 fits (butlast fmt) (butlast (fields_le fmt b))"
    using fits_fields_le [of fmt b] assms(1) by (simp add: list_all2_conv_all_nth nth_butlast)
  then show ?thesis unfolding seal_iff same using assms by blast
qed

lemma crc_field_iff:
  assumes "length b = calcsize fmt"
  shows "struct_values fmt keys b ''crc32'' = crc32 (take (length b - 4) b) \<longleftrightarrow> crc32 b = crc32_residue"
proof -
  have size: "calcsize fmt = calcsize (butlast fmt) + 4" by (subst fmt_snoc) simp
  have "struct_values fmt keys b ''crc32'' = last (map (struct_values fmt keys b) keys)"
    by (subst (2) keys_snoc) simp
  also have "\<dots> = last (fields_le (butlast fmt @ [4]) b)"
    unfolding fields_values [symmetric] by (subst fmt_snoc) simp
  also have "\<dots> = int (le_nat (drop (length b - 4) b))"
    using assms size by (simp add: fields_le_snoc)
  finally have "struct_values fmt keys b ''crc32'' = int (le_nat (drop (length b - 4) b))" .
  moreover have "crc32 (take (length b - 4) b @ drop (length b - 4) b) = crc32_residue \<longleftrightarrow>
      int (le_nat (drop (length b - 4) b)) = crc32 (take (length b - 4) b)"
    by (rule crc32_residue_iff) (use assms size in simp)
  ultimately show ?thesis by simp
qed

end

text \<open>
  Both records open with the same header, magic, version and size, followed by words; then
  values that fit their fields always give a record: \<^verbatim>\<open>struct.pack\<close> fails on nothing else.
\<close>

definition override_ok :: "string \<times> int \<Rightarrow> bool" where
  "override_ok = (\<lambda>(k, x). 0 \<le> x \<and> x < 2 ^ 32 \<and>
     (k = ''abi_version'' \<or> k = ''struct_size'' \<longrightarrow> x < 2 ^ 16))"

lemma override_ok_update:
  assumes "\<forall>p \<in> set ov. override_ok p" and "override_ok (k, d k)"
  shows "override_ok (k, dict_update d ov k)"
proof (cases "map_of ov k")
  case (Some x)
  then have "(k, x) \<in> set ov" by (rule map_of_SomeD)
  with assms(1) Some show ?thesis by (auto simp: dict_update_def)
qed (use assms(2) in \<open>simp add: dict_update_def\<close>)

locale abi_record = sealed_record +
  fixes words :: nat
  assumes fmt_words: "fmt = [4, 2, 2] @ replicate words 4"
    and keys_header: "keys = ''magic'' # ''abi_version'' # ''struct_size'' # drop 3 keys"
begin

lemma header_mem:
  "''magic'' \<in> set keys" "''abi_version'' \<in> set keys" "''struct_size'' \<in> set keys"
  by (subst keys_header, simp)+

lemma seal_total:
  assumes "\<And>k. k \<in> set keys \<Longrightarrow> override_ok (k, v k)"
  shows "\<exists>b. seal_dict fmt keys v = Inr b"
proof (rule seal_dict_total)
  fix c :: int
  let ?w = "v(''crc32'' := c)"
  assume c: "fits 4 c"
  have ok: "override_ok (k, ?w k)" if "k \<in> set keys" for k
    using assms [OF that] c by (simp add: override_ok_def fits_def)
  have "length (drop 3 keys) = words" using keys_length by (simp add: fmt_words)
  moreover have "\<forall>k \<in> set (drop 3 keys). fits 4 (?w k)"
    using ok by (auto simp: override_ok_def fits_def simp del: fun_upd_apply dest!: in_set_dropD)
  ultimately have "list_all2 fits (replicate words 4) (map ?w (drop 3 keys))"
    by (intro list_all2_fits_replicate) (auto simp del: fun_upd_apply)
  then show "list_all2 fits fmt (map ?w keys)"
    using ok [OF header_mem(1)] ok [OF header_mem(2)] ok [OF header_mem(3)]
    by (subst keys_header)
      (simp add: fmt_words fits_def override_ok_def del: fun_upd_apply)
qed

end

section \<open>Frame buffers\<close>

text \<open>
  The loop over the three frame addresses and the loop over their pairs, the same code in
  both validators but for the alignment.
\<close>

definition frame_range :: "int \<Rightarrow> int \<times> int" where
  "frame_range address = (address, address + FRAME_SIZE)"

definition frame_guards :: "int \<Rightarrow> int list \<Rightarrow> (bool \<times> string) list" where
  "frame_guards alignment addresses =
     concat (map (\<lambda>(index, address). let frame_end = address + FRAME_SIZE in
       [(frame_end > 0xFFFFFFFF, ''frame-address-overflow''),
        (address mod alignment \<noteq> 0, ''framebuffer-alignment''),
        (index \<noteq> 0 \<and> (address < fst DISPLAY_POOL \<or> frame_end > snd DISPLAY_POOL), ''display-pool-bounds''),
        (index \<noteq> 0 \<and> frame_end > address + DISPLAY_SLOT_SIZE, ''display-slot-bounds'')])
       (List.enumerate 0 addresses))"

definition overlap_guards :: "(int \<times> int) list \<Rightarrow> (bool \<times> string) list" where
  "overlap_guards ranges =
     concat (map (\<lambda>(index, first). map (\<lambda>second. (overlaps first second, ''frame-overlap''))
       (drop (Suc index) ranges)) (List.enumerate 0 ranges))"

section \<open>The memory budget\<close>

definition validate_kernel_memory_span :: "int \<Rightarrow> unit result" where
  "validate_kernel_memory_span memory_size =
     (let kernel_end = KERNEL_LOAD_ADDRESS + memory_size in
      if memory_size \<le> 0 \<or> kernel_end > snd KERNEL_GENERAL_RAM
      then Inl (ContractError ''kernel-memory-span'') else Inr ())"

definition memory_layout :: "(string \<times> int \<times> int) list" where
  "memory_layout =
     [(''loader'', LOADER_PSRAM), (''kernel'', KERNEL_GENERAL_RAM), (''display'', DISPLAY_POOL),
      (''user'', USER_POOL), (''comms'', COMMS_POOL)]"

text \<open>
  The kernel image that passes the span check fills memory between the loader and the
  display pool only.
\<close>

lemma validate_kernel_memory_span_iff:
  "validate_kernel_memory_span n = Inr () \<longleftrightarrow>
     0 < n \<and> span (KERNEL_LOAD_ADDRESS, KERNEL_LOAD_ADDRESS + n) \<subseteq> span KERNEL_GENERAL_RAM"
  by (auto simp: validate_kernel_memory_span_def span_def)

text \<open>
  C25. The five regions of the memory budget partition the PSRAM: an address of the PSRAM is
  in exactly one of them; and a kernel the span check accepts meets no other region.
\<close>

theorem memory_budget_partition:
  "(\<Union>r \<in> set memory_layout. span (snd r)) = span PSRAM \<and>
   (\<forall>r \<in> set memory_layout. \<forall>s \<in> set memory_layout. r = s \<or> span (snd r) \<inter> span (snd s) = {}) \<and>
   map (\<lambda>r. (snd (snd r) - fst (snd r)) div (1024 * 1024)) memory_layout = [4, 15, 4, 8, 1] \<and>
   (validate_kernel_memory_span n = Inr () \<longrightarrow>
      (\<forall>r \<in> set memory_layout. fst r = ''kernel'' \<or>
         span (KERNEL_LOAD_ADDRESS, KERNEL_LOAD_ADDRESS + n) \<inter> span (snd r) = {}))"
proof (intro conjI)
  show "(\<Union>r \<in> set memory_layout. span (snd r)) = span PSRAM"
    by (auto simp: memory_layout_def span_def)
  show "\<forall>r \<in> set memory_layout. \<forall>s \<in> set memory_layout. r = s \<or> span (snd r) \<inter> span (snd s) = {}"
    by (simp add: memory_layout_def span_def)
  show "map (\<lambda>r. (snd (snd r) - fst (snd r)) div (1024 * 1024)) memory_layout = [4, 15, 4, 8, 1]"
    by (simp add: memory_layout_def)
  show "validate_kernel_memory_span n = Inr () \<longrightarrow>
      (\<forall>r \<in> set memory_layout. fst r = ''kernel'' \<or>
         span (KERNEL_LOAD_ADDRESS, KERNEL_LOAD_ADDRESS + n) \<inter> span (snd r) = {})"
    by (auto simp: validate_kernel_memory_span_def memory_layout_def span_def split: if_splits)
qed

theorem memory_budget_partition_witness:
  "validate_kernel_memory_span 0xF00000 = Inr () \<and>
   span (KERNEL_LOAD_ADDRESS, KERNEL_LOAD_ADDRESS + 0xF00000) \<inter> span DISPLAY_POOL = {}"
proof -
  have ok: "validate_kernel_memory_span 0xF00000 = Inr ()"
    by (simp add: validate_kernel_memory_span_def)
  moreover have display: "(''display'', DISPLAY_POOL) \<in> set memory_layout"
    by (simp add: memory_layout_def)
  from memory_budget_partition [where n = "0xF00000"] ok
  have "\<forall>r \<in> set memory_layout. fst r = ''kernel'' \<or>
      span (KERNEL_LOAD_ADDRESS, KERNEL_LOAD_ADDRESS + 0xF00000) \<inter> span (snd r) = {}" by blast
  from bspec [OF this display] have "span (KERNEL_LOAD_ADDRESS, KERNEL_LOAD_ADDRESS + 0xF00000) \<inter>
      span DISPLAY_POOL = {}" by simp
  ultimately show ?thesis by blast
qed

end
