(* ===== verification/Display_Cold.thy ===== *)
theory Display_Cold
  imports Display_Layout
begin

text \<open>
  ABI v3 of the display handoff, the cold relinquish contract: the loader quiesces the
  display and publishes a 192-byte record; Linux validates the record against the raw
  hardware state before its first register write (\<open>validate_cold_relinquish\<close>).  The main
  result, \<open>cold_accept_iff\<close>, says exactly what is accepted: apart from the front buffer and
  the descriptor page, whose placement is constrained, every bit of the record is fixed.
\<close>

section \<open>The record\<close>

definition COLD_RELINQUISH_FORMAT :: "nat list" where
  "COLD_RELINQUISH_FORMAT = [4, 2, 2] @ replicate 46 4"

definition COLD_RELINQUISH_FIELDS :: "string list" where
  "COLD_RELINQUISH_FIELDS =
     [''magic'', ''abi_version'', ''struct_size'', ''flags'', ''boot_mode'', ''ownership_state'',
      ''silicon_revision'', ''panel_profile_id'', ''width'', ''height'', ''stride'', ''pixel_format'',
      ''pixel_clock_hz'', ''lane_bit_rate_mbps'', ''data_lanes'', ''buffer_count'',
      ''hsync_pulse_width'', ''hsync_back_porch'', ''hsync_front_porch'', ''vsync_pulse_width'',
      ''vsync_back_porch'', ''vsync_front_porch'', ''framebuffer0'', ''framebuffer1'',
      ''framebuffer2'', ''framebuffer_size'', ''descriptor_address'', ''descriptor_size'',
      ''descriptor_count'', ''dma_channel'', ''dsi_fifo_address'', ''gdma_irq_source'',
      ''gdma_clic_irq'', ''i2c_port'', ''i2c_sda_gpio'', ''i2c_scl_gpio'', ''i2c_rate_hz'',
      ''i2c_address'', ''display_control_register'', ''backlight_register'',
      ''display_control_reset_assert_command'', ''display_control_reset_prepare_command'',
      ''display_control_reveal_command'', ''backlight_brightness'', ''reset_hold_ms'',
      ''pwm_zero_settle_ms'', ''panel_payload_crc32'', ''quiesce_sequence_id'', ''crc32'']"

definition COLD_SIZE :: int where "COLD_SIZE = int (calcsize COLD_RELINQUISH_FORMAT)"
definition COLD_ABI_VERSION :: int where "COLD_ABI_VERSION = 3"
definition COLD_BOOT_MODE :: int where "COLD_BOOT_MODE = 1"
definition COLD_SILICON_REVISION :: int where "COLD_SILICON_REVISION = 103"
definition COLD_PANEL_PROFILE :: int where "COLD_PANEL_PROFILE = 1"
definition COLD_PIXEL_FORMAT_RGB565_LE :: int where "COLD_PIXEL_FORMAT_RGB565_LE = 1"
definition COLD_REQUIRED_FLAGS :: int where "COLD_REQUIRED_FLAGS = 0x00003FFF"
definition COLD_ALLOWED_FLAGS :: int where "COLD_ALLOWED_FLAGS = COLD_REQUIRED_FLAGS"
definition COLD_FLAG_VALUES :: "int list" where "COLD_FLAG_VALUES = map (\<lambda>n. 2 ^ n) [0..<14]"
definition COLD_RESET_ASSERT :: int where "COLD_RESET_ASSERT = 0x11"
definition COLD_RESET_PREPARE :: int where "COLD_RESET_PREPARE = 0x13"
definition COLD_REVEAL :: int where "COLD_REVEAL = 0x17"
definition COLD_FRAME_ADDRESSES :: "int list" where
  "COLD_FRAME_ADDRESSES = [0x48041000, 0x49300000, 0x49500000]"
definition COLD_DESCRIPTOR_ADDRESS :: int where "COLD_DESCRIPTOR_ADDRESS = 0x4FF3C000"
definition COLD_DESCRIPTOR_PUBLISHED_SIZE :: int where
  "COLD_DESCRIPTOR_PUBLISHED_SIZE = DESCRIPTOR_SIZE * DESCRIPTOR_COUNT"
definition COLD_DESCRIPTOR_BACKING_SIZE :: int where "COLD_DESCRIPTOR_BACKING_SIZE = COLD_PAGE_SIZE"
definition COLD_FRAMEBUFFER_ALIGNMENT :: int where "COLD_FRAMEBUFFER_ALIGNMENT = COLD_PAGE_SIZE"
definition COLD_GDMA_IRQ_SOURCE :: int where "COLD_GDMA_IRQ_SOURCE = 24"
definition COLD_GDMA_CLIC_IRQ :: int where "COLD_GDMA_CLIC_IRQ = 18"
definition COLD_I2C_PORT :: int where "COLD_I2C_PORT = 0"
definition COLD_I2C_SDA_GPIO :: int where "COLD_I2C_SDA_GPIO = 7"
definition COLD_I2C_SCL_GPIO :: int where "COLD_I2C_SCL_GPIO = 8"
definition COLD_I2C_RATE_HZ :: int where "COLD_I2C_RATE_HZ = 100000"
definition COLD_RESET_HOLD_MS :: int where "COLD_RESET_HOLD_MS = 10"
definition COLD_PWM_ZERO_SETTLE_MS :: int where "COLD_PWM_ZERO_SETTLE_MS = 100"
definition COLD_PANEL_PAYLOAD_CRC32 :: int where "COLD_PANEL_PAYLOAD_CRC32 = 0xCEA07F9B"
definition COLD_QUIESCE_SEQUENCE_ID :: int where "COLD_QUIESCE_SEQUENCE_ID = 1"
definition COLD_DMA_PMS_READ_MASK :: int where "COLD_DMA_PMS_READ_MASK = 2 + 4 + 8"
definition COLD_DMA_PMS_WRITE_MASK :: int where "COLD_DMA_PMS_WRITE_MASK = 8 + 16"

lemmas cold_const_defs [simp] =
  COLD_ABI_VERSION_def COLD_BOOT_MODE_def COLD_SILICON_REVISION_def COLD_PANEL_PROFILE_def
  COLD_PIXEL_FORMAT_RGB565_LE_def COLD_REQUIRED_FLAGS_def COLD_ALLOWED_FLAGS_def
  COLD_RESET_ASSERT_def COLD_RESET_PREPARE_def COLD_REVEAL_def COLD_FRAME_ADDRESSES_def
  COLD_DESCRIPTOR_ADDRESS_def COLD_DESCRIPTOR_PUBLISHED_SIZE_def COLD_DESCRIPTOR_BACKING_SIZE_def
  COLD_FRAMEBUFFER_ALIGNMENT_def COLD_GDMA_IRQ_SOURCE_def COLD_GDMA_CLIC_IRQ_def COLD_I2C_PORT_def
  COLD_I2C_SDA_GPIO_def COLD_I2C_SCL_GPIO_def COLD_I2C_RATE_HZ_def COLD_RESET_HOLD_MS_def
  COLD_PWM_ZERO_SETTLE_MS_def COLD_PANEL_PAYLOAD_CRC32_def COLD_QUIESCE_SEQUENCE_ID_def
  COLD_DMA_PMS_READ_MASK_def COLD_DMA_PMS_WRITE_MASK_def

definition cold_default_values :: "string \<Rightarrow> int" where
  "cold_default_values = dict_get
     [(''magic'', HANDOFF_MAGIC), (''abi_version'', COLD_ABI_VERSION), (''struct_size'', COLD_SIZE),
      (''flags'', COLD_REQUIRED_FLAGS), (''boot_mode'', COLD_BOOT_MODE),
      (''ownership_state'', DISPLAY_OWNER_LINUX_PENDING), (''silicon_revision'', COLD_SILICON_REVISION),
      (''panel_profile_id'', COLD_PANEL_PROFILE), (''width'', 800), (''height'', 1280), (''stride'', 1600),
      (''pixel_format'', COLD_PIXEL_FORMAT_RGB565_LE), (''pixel_clock_hz'', 60000000),
      (''lane_bit_rate_mbps'', 1000), (''data_lanes'', 2), (''buffer_count'', 3),
      (''hsync_pulse_width'', DISPLAY_TIMING ! 0), (''hsync_back_porch'', DISPLAY_TIMING ! 1),
      (''hsync_front_porch'', DISPLAY_TIMING ! 2), (''vsync_pulse_width'', DISPLAY_TIMING ! 3),
      (''vsync_back_porch'', DISPLAY_TIMING ! 4), (''vsync_front_porch'', DISPLAY_TIMING ! 5),
      (''framebuffer0'', COLD_FRAME_ADDRESSES ! 0), (''framebuffer1'', COLD_FRAME_ADDRESSES ! 1),
      (''framebuffer2'', COLD_FRAME_ADDRESSES ! 2), (''framebuffer_size'', FRAME_SIZE),
      (''descriptor_address'', COLD_DESCRIPTOR_ADDRESS),
      (''descriptor_size'', COLD_DESCRIPTOR_PUBLISHED_SIZE), (''descriptor_count'', DESCRIPTOR_COUNT),
      (''dma_channel'', 0), (''dsi_fifo_address'', DSI_FIFO), (''gdma_irq_source'', COLD_GDMA_IRQ_SOURCE),
      (''gdma_clic_irq'', COLD_GDMA_CLIC_IRQ), (''i2c_port'', COLD_I2C_PORT),
      (''i2c_sda_gpio'', COLD_I2C_SDA_GPIO), (''i2c_scl_gpio'', COLD_I2C_SCL_GPIO),
      (''i2c_rate_hz'', COLD_I2C_RATE_HZ), (''i2c_address'', 0x45), (''display_control_register'', 0x95),
      (''backlight_register'', 0x96), (''display_control_reset_assert_command'', COLD_RESET_ASSERT),
      (''display_control_reset_prepare_command'', COLD_RESET_PREPARE),
      (''display_control_reveal_command'', COLD_REVEAL), (''backlight_brightness'', 63),
      (''reset_hold_ms'', COLD_RESET_HOLD_MS), (''pwm_zero_settle_ms'', COLD_PWM_ZERO_SETTLE_MS),
      (''panel_payload_crc32'', COLD_PANEL_PAYLOAD_CRC32),
      (''quiesce_sequence_id'', COLD_QUIESCE_SEQUENCE_ID), (''crc32'', 0)]"

definition make_cold_relinquish :: "(string \<times> int) list \<Rightarrow> bytes result" where
  "make_cold_relinquish overrides =
     seal_dict COLD_RELINQUISH_FORMAT COLD_RELINQUISH_FIELDS (dict_update cold_default_values overrides)"

section \<open>The hardware state\<close>

record cold_hardware_state =
  hw_silicon_revision :: int
  gdma_linux_irq_data_available :: bool
  gdma_linux_virq :: int
  gdma_linux_hwirq :: int
  gdma_reset_asserted :: bool
  dsi_module_reset_asserted :: bool
  gdma_cpu_clock_enabled :: bool
  gdma_sys_clock_enabled :: bool
  dsi_sys_clock_enabled :: bool
  dphy_config_clock_enabled :: bool
  dphy_pll_ref_clock_enabled :: bool
  dpi_clock_enabled :: bool
  i2c_apb_clock_enabled :: bool
  dphy_ldo_enabled :: bool
  gdma_irq_route :: int
  dma_pms_regions :: "(int \<times> int) list"
  dma_pms_read_mask :: int
  dma_pms_write_mask :: int
  descriptor_backing :: bytes

definition ColdHardwareState :: cold_hardware_state where
  "ColdHardwareState =
     \<lparr>hw_silicon_revision = COLD_SILICON_REVISION, gdma_linux_irq_data_available = True,
      gdma_linux_virq = 3, gdma_linux_hwirq = COLD_GDMA_CLIC_IRQ, gdma_reset_asserted = True,
      dsi_module_reset_asserted = True, gdma_cpu_clock_enabled = False,
      gdma_sys_clock_enabled = False, dsi_sys_clock_enabled = False,
      dphy_config_clock_enabled = False, dphy_pll_ref_clock_enabled = False,
      dpi_clock_enabled = False, i2c_apb_clock_enabled = False, dphy_ldo_enabled = False,
      gdma_irq_route = COLD_GDMA_CLIC_IRQ,
      dma_pms_regions =
        [(COLD_FRAME_ADDRESSES ! 0, COLD_FRAME_ADDRESSES ! 0 + FRAME_SIZE), DISPLAY_POOL,
         (COLD_DESCRIPTOR_ADDRESS, COLD_DESCRIPTOR_ADDRESS + COLD_DESCRIPTOR_BACKING_SIZE),
         DSI_FIFO_WINDOW],
      dma_pms_read_mask = COLD_DMA_PMS_READ_MASK, dma_pms_write_mask = COLD_DMA_PMS_WRITE_MASK,
      descriptor_backing = replicate (nat COLD_DESCRIPTOR_BACKING_SIZE) 0\<rparr>"

section \<open>The validator\<close>

text \<open>
  The checks in the order of the source, each group a guard list.  The record's dictionary is
  read before its length is known to be right; the guards that use it come after the length
  guards, so a short record is refused for its size.
\<close>

definition cold_values :: "bytes \<Rightarrow> string \<Rightarrow> int" where
  "cold_values blob = struct_values COLD_RELINQUISH_FORMAT COLD_RELINQUISH_FIELDS blob"

definition cold_header_guards :: "bytes \<Rightarrow> (bool \<times> string) list" where
  "cold_header_guards blob = (let header = fields_le [4, 2, 2] blob in
     [(length blob < 8, ''structure-size''),
      (header ! 0 \<noteq> HANDOFF_MAGIC, ''magic''),
      (header ! 1 \<noteq> COLD_ABI_VERSION, ''abi-version''),
      (header ! 2 \<noteq> COLD_SIZE, ''declared-size''),
      (int (length blob) \<noteq> COLD_SIZE, ''structure-size''),
      (crc32 (take (length blob - 4) blob) \<noteq> cold_values blob ''crc32'', ''crc32'')])"

definition cold_profile_guards :: "(string \<Rightarrow> int) \<Rightarrow> (bool \<times> string) list" where
  "cold_profile_guards values =
     [(values ''flags'' AND NOT COLD_ALLOWED_FLAGS \<noteq> 0, ''unknown-flags''),
      (values ''flags'' AND COLD_REQUIRED_FLAGS \<noteq> COLD_REQUIRED_FLAGS, ''required-flags''),
      (values ''boot_mode'' \<noteq> COLD_BOOT_MODE, ''boot-mode''),
      (values ''ownership_state'' \<noteq> DISPLAY_OWNER_LINUX_PENDING, ''ownership-state''),
      (map values [''silicon_revision'', ''panel_profile_id'', ''width'', ''height'', ''stride'',
         ''pixel_format'', ''pixel_clock_hz'', ''lane_bit_rate_mbps'', ''data_lanes'', ''buffer_count'',
         ''hsync_pulse_width'', ''hsync_back_porch'', ''hsync_front_porch'', ''vsync_pulse_width'',
         ''vsync_back_porch'', ''vsync_front_porch'']
       \<noteq> [COLD_SILICON_REVISION, COLD_PANEL_PROFILE, 800, 1280, 1600, COLD_PIXEL_FORMAT_RGB565_LE,
          60000000, 1000, 2, 3] @ DISPLAY_TIMING, ''panel-profile''),
      (values ''height'' > 0xFFFFFFFF div values ''stride'', ''frame-size-overflow''),
      (values ''height'' * values ''stride'' \<noteq> FRAME_SIZE, ''frame-size''),
      (values ''framebuffer_size'' \<noteq> FRAME_SIZE, ''published-frame-size'')]"

definition cold_addresses :: "(string \<Rightarrow> int) \<Rightarrow> int list" where
  "cold_addresses values = map values [''framebuffer0'', ''framebuffer1'', ''framebuffer2'']"

definition cold_frame_guards :: "(string \<Rightarrow> int) \<Rightarrow> (bool \<times> string) list" where
  "cold_frame_guards values =
     (let addresses = cold_addresses values; front_end = addresses ! 0 + FRAME_SIZE in
      [(front_end > 0xFFFFFFFF \<or> addresses ! 0 < fst LOADER_PSRAM \<or> front_end > snd LOADER_PSRAM,
        ''loader-front-bounds''),
       (tl addresses \<noteq> tl COLD_FRAME_ADDRESSES, ''display-pool-layout'')] @
      frame_guards COLD_FRAMEBUFFER_ALIGNMENT addresses @
      overlap_guards (map frame_range addresses))"

definition cold_descriptor_guards :: "(string \<Rightarrow> int) \<Rightarrow> (bool \<times> string) list" where
  "cold_descriptor_guards values =
     (let address = values ''descriptor_address'';
          descriptor_page_end = address + COLD_DESCRIPTOR_BACKING_SIZE in
      [(descriptor_page_end > 0xFFFFFFFF, ''descriptor-overflow''),
       (address < fst DESCRIPTOR_SRAM \<or> descriptor_page_end > snd DESCRIPTOR_SRAM
          \<or> address mod COLD_PAGE_SIZE \<noteq> 0
          \<or> values ''descriptor_size'' \<noteq> COLD_DESCRIPTOR_PUBLISHED_SIZE
          \<or> values ''descriptor_count'' \<noteq> DESCRIPTOR_COUNT, ''descriptor-bounds''),
       (address < snd SD_DMA_SRAM \<and> descriptor_page_end > fst SD_DMA_SRAM,
        ''descriptor-sd-dma-overlap''),
       (values ''dma_channel'' \<noteq> 0, ''dma-channel'')])"

definition cold_peripheral_guards ::
  "(string \<Rightarrow> int) \<Rightarrow> cold_hardware_state \<Rightarrow> (bool \<times> string) list" where
  "cold_peripheral_guards values hardware =
     [(\<not> gdma_linux_irq_data_available hardware, ''gdma-linux-irq-data''),
      (gdma_linux_hwirq hardware \<noteq> values ''gdma_clic_irq'', ''gdma-linux-hwirq''),
      (values ''dsi_fifo_address'' \<noteq> DSI_FIFO
         \<or> values ''gdma_irq_source'' \<noteq> COLD_GDMA_IRQ_SOURCE
         \<or> values ''gdma_clic_irq'' \<noteq> COLD_GDMA_CLIC_IRQ
         \<or> values ''i2c_port'' \<noteq> COLD_I2C_PORT
         \<or> values ''i2c_sda_gpio'' \<noteq> COLD_I2C_SDA_GPIO
         \<or> values ''i2c_scl_gpio'' \<noteq> COLD_I2C_SCL_GPIO
         \<or> values ''i2c_rate_hz'' \<noteq> COLD_I2C_RATE_HZ
         \<or> values ''i2c_address'' \<noteq> 0x45
         \<or> values ''display_control_register'' \<noteq> 0x95
         \<or> values ''backlight_register'' \<noteq> 0x96
         \<or> values ''display_control_reset_assert_command'' \<noteq> COLD_RESET_ASSERT
         \<or> values ''display_control_reset_prepare_command'' \<noteq> COLD_RESET_PREPARE
         \<or> values ''display_control_reveal_command'' \<noteq> COLD_REVEAL
         \<or> values ''backlight_brightness'' \<noteq> 63
         \<or> values ''reset_hold_ms'' \<noteq> COLD_RESET_HOLD_MS
         \<or> values ''pwm_zero_settle_ms'' \<noteq> COLD_PWM_ZERO_SETTLE_MS
         \<or> values ''panel_payload_crc32'' \<noteq> COLD_PANEL_PAYLOAD_CRC32
         \<or> values ''quiesce_sequence_id'' \<noteq> COLD_QUIESCE_SEQUENCE_ID, ''peripheral-contract'')]"

definition expected_pms_regions :: "(string \<Rightarrow> int) \<Rightarrow> (int \<times> int) list" where
  "expected_pms_regions values =
     [frame_range (values ''framebuffer0''), DISPLAY_POOL,
      (values ''descriptor_address'', values ''descriptor_address'' + COLD_DESCRIPTOR_BACKING_SIZE),
      DSI_FIFO_WINDOW]"

definition cold_hardware_guards ::
  "(string \<Rightarrow> int) \<Rightarrow> cold_hardware_state \<Rightarrow> (bool \<times> string) list" where
  "cold_hardware_guards values hardware =
     [(hw_silicon_revision hardware \<noteq> values ''silicon_revision'', ''silicon-readback''),
      (\<not> gdma_reset_asserted hardware \<or> \<not> dsi_module_reset_asserted hardware,
       ''display-reset-clock-state''),
      (gdma_cpu_clock_enabled hardware \<or> gdma_sys_clock_enabled hardware
         \<or> dsi_sys_clock_enabled hardware \<or> dphy_config_clock_enabled hardware
         \<or> dphy_pll_ref_clock_enabled hardware \<or> dpi_clock_enabled hardware,
       ''display-reset-clock-state''),
      (dphy_ldo_enabled hardware, ''dphy-ldo-enabled''),
      (i2c_apb_clock_enabled hardware, ''i2c-not-released''),
      (gdma_irq_route hardware \<noteq> values ''gdma_clic_irq'', ''gdma-irq-route''),
      (dma_pms_regions hardware \<noteq> expected_pms_regions values
         \<or> dma_pms_read_mask hardware \<noteq> COLD_DMA_PMS_READ_MASK
         \<or> dma_pms_write_mask hardware \<noteq> COLD_DMA_PMS_WRITE_MASK, ''dma-pms-policy''),
      (int (length (descriptor_backing hardware)) \<noteq> COLD_DESCRIPTOR_BACKING_SIZE
         \<or> list_ex (\<lambda>b. b \<noteq> 0) (descriptor_backing hardware), ''descriptor-storage-not-zero'')]"

definition cold_value_guards ::
  "(string \<Rightarrow> int) \<Rightarrow> cold_hardware_state \<Rightarrow> (bool \<times> string) list" where
  "cold_value_guards values hardware =
     cold_profile_guards values @ cold_frame_guards values @ cold_descriptor_guards values @
     cold_peripheral_guards values hardware @ cold_hardware_guards values hardware"

definition validate_cold_relinquish :: "bytes \<Rightarrow> cold_hardware_state \<Rightarrow> unit result" where
  "validate_cold_relinquish blob hardware = raise_on ContractError
     (first_reject (cold_header_guards blob @ cold_value_guards (cold_values blob) hardware))"

section \<open>What is accepted\<close>

lemma COLD_SIZE [simp]: "COLD_SIZE = 192"
  by (simp add: COLD_SIZE_def COLD_RELINQUISH_FORMAT_def calcsize_def sum_list_replicate)

lemma calcsize_COLD [simp]: "calcsize COLD_RELINQUISH_FORMAT = 192"
  by (simp add: COLD_RELINQUISH_FORMAT_def calcsize_def sum_list_replicate)

lemma distinct_COLD_FIELDS: "distinct COLD_RELINQUISH_FIELDS"
  by code_simp

lemma length_COLD_FIELDS_49: "length COLD_RELINQUISH_FIELDS = 49"
  by (simp only: COLD_RELINQUISH_FIELDS_def list.size)

lemma length_COLD_FIELDS: "length COLD_RELINQUISH_FIELDS = length COLD_RELINQUISH_FORMAT"
  by (simp add: length_COLD_FIELDS_49 COLD_RELINQUISH_FORMAT_def)

lemma COLD_FIELDS_snoc: "COLD_RELINQUISH_FIELDS = butlast COLD_RELINQUISH_FIELDS @ [''crc32'']"
  by (simp only: COLD_RELINQUISH_FIELDS_def butlast.simps list.distinct simp_thms if_True if_False append.simps)

lemma COLD_FORMAT_snoc: "COLD_RELINQUISH_FORMAT = butlast COLD_RELINQUISH_FORMAT @ [4]"
proof -
  have "replicate 46 (4 :: nat) = replicate 45 4 @ [4]"
    using replicate_append_same [of 45 "4 :: nat"] replicate_Suc [of 45 "4 :: nat"] by simp
  then have "COLD_RELINQUISH_FORMAT = ([4, 2, 2] @ replicate 45 4) @ [4]"
    by (simp only: COLD_RELINQUISH_FORMAT_def append.assoc)
  then show ?thesis by (metis butlast_snoc)
qed

lemma COLD_FIELDS_header:
  "COLD_RELINQUISH_FIELDS = ''magic'' # ''abi_version'' # ''struct_size'' # drop 3 COLD_RELINQUISH_FIELDS"
  by (simp add: COLD_RELINQUISH_FIELDS_def)

interpretation cold: abi_record COLD_RELINQUISH_FORMAT COLD_RELINQUISH_FIELDS 46
  by unfold_locales
    (rule distinct_COLD_FIELDS length_COLD_FIELDS COLD_FIELDS_snoc COLD_FORMAT_snoc
      COLD_RELINQUISH_FORMAT_def COLD_FIELDS_header)+

lemma flags_exact:
  "0 \<le> (f :: int) \<Longrightarrow> f AND NOT 0x3FFF = 0 \<Longrightarrow> f AND 0x3FFF = 0x3FFF \<Longrightarrow> f = 0x3FFF"
proof -
  assume "f AND NOT 0x3FFF = 0" and "f AND 0x3FFF = 0x3FFF"
  moreover have "f = (f AND 0x3FFF) OR (f AND NOT 0x3FFF)"
    by (rule bit_eqI) (auto simp: bit_simps)
  ultimately show ?thesis by simp
qed

lemma cold_values_header:
  "fields_le [4, 2, 2] b ! 0 = cold_values b ''magic''"
  "fields_le [4, 2, 2] b ! 1 = cold_values b ''abi_version''"
  "fields_le [4, 2, 2] b ! 2 = cold_values b ''struct_size''"
  unfolding cold_values_def struct_values_def COLD_RELINQUISH_FORMAT_def fields_le_append_fmt COLD_RELINQUISH_FIELDS_def
  by (simp_all add: dict_get_def)

text \<open>
  On a record made from a dictionary the validator sees that dictionary: its length and
  checksum are right by construction.
\<close>

definition cold_dict_guards ::
  "(string \<Rightarrow> int) \<Rightarrow> cold_hardware_state \<Rightarrow> (bool \<times> string) list" where
  "cold_dict_guards v hardware =
     [(v ''magic'' \<noteq> HANDOFF_MAGIC, ''magic''), (v ''abi_version'' \<noteq> COLD_ABI_VERSION, ''abi-version''),
      (v ''struct_size'' \<noteq> COLD_SIZE, ''declared-size'')] @ cold_value_guards v hardware"

lemmas cold_guard_defs =
  cold_value_guards_def cold_profile_guards_def cold_frame_guards_def cold_descriptor_guards_def
  cold_peripheral_guards_def cold_hardware_guards_def cold_addresses_def expected_pms_regions_def

lemma cold_value_guards_cong:
  assumes "\<And>k. k \<in> set COLD_RELINQUISH_FIELDS \<Longrightarrow> k \<noteq> ''crc32'' \<Longrightarrow> v k = w k"
  shows "cold_value_guards v hardware = cold_value_guards w hardware"
proof -
  have "\<forall>k \<in> set COLD_RELINQUISH_FIELDS. k = ''crc32'' \<or> v k = w k" using assms by blast
  note eqs = this [unfolded COLD_RELINQUISH_FIELDS_def list.set ball_simps insert_iff, simplified]
  show ?thesis unfolding cold_guard_defs list.map Let_def by (simp only: eqs)
qed

lemma validate_make_cold:
  assumes "make_cold_relinquish ov = Inr b"
  shows "validate_cold_relinquish b hardware = raise_on ContractError
     (first_reject (cold_dict_guards (dict_update cold_default_values ov) hardware))"
proof -
  let ?v = "dict_update cold_default_values ov"
  from assms have len: "length b = 192"
    and vals: "\<And>k. k \<in> set COLD_RELINQUISH_FIELDS \<Longrightarrow> k \<noteq> ''crc32'' \<Longrightarrow> cold_values b k = ?v k"
    and crc: "cold_values b ''crc32'' = crc32 (take 188 b)"
    unfolding make_cold_relinquish_def cold.seal_iff cold_values_def using cold.crc32_mem by simp_all
  have "first_reject (cold_header_guards b @ gs) =
      first_reject ([(?v ''magic'' \<noteq> HANDOFF_MAGIC, ''magic''),
        (?v ''abi_version'' \<noteq> COLD_ABI_VERSION, ''abi-version''),
        (?v ''struct_size'' \<noteq> COLD_SIZE, ''declared-size'')] @ gs)" for gs
    unfolding cold_header_guards_def Let_def cold_values_header
    using len crc vals [OF cold.header_mem(1)] vals [OF cold.header_mem(2)]
      vals [OF cold.header_mem(3)] by simp
  moreover have "cold_value_guards (cold_values b) hardware = cold_value_guards ?v hardware"
    by (rule cold_value_guards_cong) (rule vals)
  ultimately show ?thesis
    unfolding validate_cold_relinquish_def cold_dict_guards_def by (simp only:)
qed

lemma cold_profile_pass:
  assumes "first_reject (cold_profile_guards v) = None" and "0 \<le> v ''flags''"
  shows "v ''flags'' = 0x3FFF \<and> v ''boot_mode'' = 1 \<and> v ''ownership_state'' = 1 \<and>
    v ''silicon_revision'' = 103 \<and> v ''panel_profile_id'' = 1 \<and> v ''width'' = 800 \<and>
    v ''height'' = 1280 \<and> v ''stride'' = 1600 \<and> v ''pixel_format'' = 1 \<and>
    v ''pixel_clock_hz'' = 60000000 \<and> v ''lane_bit_rate_mbps'' = 1000 \<and> v ''data_lanes'' = 2 \<and>
    v ''buffer_count'' = 3 \<and> v ''hsync_pulse_width'' = 20 \<and> v ''hsync_back_porch'' = 20 \<and>
    v ''hsync_front_porch'' = 40 \<and> v ''vsync_pulse_width'' = 4 \<and> v ''vsync_back_porch'' = 10 \<and>
    v ''vsync_front_porch'' = 30 \<and> v ''framebuffer_size'' = 2048000"
proof -
  have "v ''flags'' = 0x3FFF"
    using assms flags_exact [of "v ''flags''"] unfolding cold_profile_guards_def
    by (simp split: if_splits)
  with assms show ?thesis unfolding cold_profile_guards_def by (simp split: if_splits)
qed

definition cold_placement_ok :: "int \<Rightarrow> int \<Rightarrow> bool" where
  "cold_placement_ok front descriptor =
     (fst LOADER_PSRAM \<le> front \<and> front + FRAME_SIZE \<le> snd LOADER_PSRAM \<and>
      front mod COLD_PAGE_SIZE = 0 \<and>
      fst DESCRIPTOR_SRAM \<le> descriptor \<and> descriptor + COLD_PAGE_SIZE \<le> snd DESCRIPTOR_SRAM \<and>
      descriptor mod COLD_PAGE_SIZE = 0 \<and>
      \<not> overlaps (descriptor, descriptor + COLD_PAGE_SIZE) SD_DMA_SRAM)"

lemma cold_frame_pass:
  "first_reject (cold_frame_guards v) = None \<longleftrightarrow>
     0x48000000 \<le> v ''framebuffer0'' \<and> v ''framebuffer0'' + 2048000 \<le> 0x48400000 \<and>
     v ''framebuffer0'' mod 0x1000 = 0 \<and> v ''framebuffer1'' = 0x49300000 \<and> v ''framebuffer2'' = 0x49500000"
  unfolding cold_frame_guards_def cold_addresses_def frame_guards_def overlap_guards_def frame_range_def
     overlaps_def
  by (auto simp: Let_def split: if_splits)

lemma cold_descriptor_pass:
  "first_reject (cold_descriptor_guards v) = None \<longleftrightarrow>
     0x4FF00000 \<le> v ''descriptor_address'' \<and> v ''descriptor_address'' + 0x1000 \<le> 0x4FFC0000 \<and>
     v ''descriptor_address'' mod 0x1000 = 0 \<and>
     \<not> overlaps (v ''descriptor_address'', v ''descriptor_address'' + 0x1000) SD_DMA_SRAM \<and>
     v ''descriptor_size'' = 192 \<and> v ''descriptor_count'' = 3 \<and> v ''dma_channel'' = 0"
  unfolding cold_descriptor_guards_def overlaps_def
  by (auto simp: Let_def split: if_splits)

lemma cold_default_list:
  "map cold_default_values COLD_RELINQUISH_FIELDS =
     [0x4D4E5844, 3, 192, 0x3FFF, 1, 1, 103, 1, 800, 1280, 1600, 1, 60000000, 1000, 2, 3, 20,
      20, 40, 4, 10, 30, 0x48041000, 0x49300000, 0x49500000, 2048000, 0x4FF3C000, 192, 3, 0,
      0x50105000, 24, 18, 0, 7, 8, 100000, 0x45, 0x95, 0x96, 0x11, 0x13, 0x17, 63, 10, 100,
      0xCEA07F9B, 1, 0]"
proof -
  let ?vs = "[HANDOFF_MAGIC, COLD_ABI_VERSION, COLD_SIZE, COLD_REQUIRED_FLAGS, COLD_BOOT_MODE,
      DISPLAY_OWNER_LINUX_PENDING, COLD_SILICON_REVISION, COLD_PANEL_PROFILE, 800, 1280, 1600,
      COLD_PIXEL_FORMAT_RGB565_LE, 60000000, 1000, 2, 3, DISPLAY_TIMING ! 0, DISPLAY_TIMING !
      1, DISPLAY_TIMING ! 2, DISPLAY_TIMING ! 3, DISPLAY_TIMING ! 4, DISPLAY_TIMING ! 5,
      COLD_FRAME_ADDRESSES ! 0, COLD_FRAME_ADDRESSES ! 1, COLD_FRAME_ADDRESSES ! 2,
      FRAME_SIZE, COLD_DESCRIPTOR_ADDRESS, COLD_DESCRIPTOR_PUBLISHED_SIZE, DESCRIPTOR_COUNT,
      0, DSI_FIFO, COLD_GDMA_IRQ_SOURCE, COLD_GDMA_CLIC_IRQ, COLD_I2C_PORT, COLD_I2C_SDA_GPIO,
      COLD_I2C_SCL_GPIO, COLD_I2C_RATE_HZ, 0x45, 0x95, 0x96, COLD_RESET_ASSERT,
      COLD_RESET_PREPARE, COLD_REVEAL, 63, COLD_RESET_HOLD_MS, COLD_PWM_ZERO_SETTLE_MS,
      COLD_PANEL_PAYLOAD_CRC32, COLD_QUIESCE_SEQUENCE_ID, 0]"
  have dict: "cold_default_values = dict_get (zip COLD_RELINQUISH_FIELDS ?vs)"
    by (simp only: cold_default_values_def COLD_RELINQUISH_FIELDS_def zip_Cons_Cons zip.simps(1))
  have "length ?vs = length COLD_RELINQUISH_FIELDS" by (simp add: length_COLD_FIELDS_49)
  then have "map cold_default_values COLD_RELINQUISH_FIELDS = ?vs"
    unfolding dict by (rule map_dict_get_zip [OF distinct_COLD_FIELDS])
  then show ?thesis by simp
qed

text \<open>The default of each field, as a conjunction of equations.\<close>

lemmas cold_defaults =
  cold_default_list [unfolded COLD_RELINQUISH_FIELDS_def list.map list.inject simp_thms]

lemma cold_peripheral_pass:
  "first_reject (cold_peripheral_guards v hw) = None \<longleftrightarrow>
     gdma_linux_irq_data_available hw \<and> gdma_linux_hwirq hw = 18 \<and>
     v ''dsi_fifo_address'' = 0x50105000 \<and>
     v ''gdma_irq_source'' = 24 \<and>
     v ''gdma_clic_irq'' = 18 \<and>
     v ''i2c_port'' = 0 \<and>
     v ''i2c_sda_gpio'' = 7 \<and>
     v ''i2c_scl_gpio'' = 8 \<and>
     v ''i2c_rate_hz'' = 100000 \<and>
     v ''i2c_address'' = 0x45 \<and>
     v ''display_control_register'' = 0x95 \<and>
     v ''backlight_register'' = 0x96 \<and>
     v ''display_control_reset_assert_command'' = 0x11 \<and>
     v ''display_control_reset_prepare_command'' = 0x13 \<and>
     v ''display_control_reveal_command'' = 0x17 \<and>
     v ''backlight_brightness'' = 63 \<and>
     v ''reset_hold_ms'' = 10 \<and>
     v ''pwm_zero_settle_ms'' = 100 \<and>
     v ''panel_payload_crc32'' = 0xCEA07F9B \<and>
     v ''quiesce_sequence_id'' = 1"
  unfolding cold_peripheral_guards_def first_reject_None_simps de_Morgan_disj not_not
    cold_const_defs layout_defs by (auto simp only:)

text \<open>The hardware state the record asks for; only the Linux interrupt number is free.\<close>

definition cold_quiesced :: "int \<Rightarrow> int \<Rightarrow> int \<Rightarrow> cold_hardware_state" where
  "cold_quiesced front descriptor virq = ColdHardwareState
     \<lparr>gdma_linux_virq := virq,
      dma_pms_regions := [frame_range front, DISPLAY_POOL,
        (descriptor, descriptor + COLD_PAGE_SIZE), DSI_FIFO_WINDOW]\<rparr>"

lemma zero_bytes_iff:
  "length bs = n \<and> \<not> list_ex (\<lambda>b. b \<noteq> 0) bs \<longleftrightarrow> bs = replicate n (0 :: byte)"
  by (auto simp: list_ex_iff intro: replicate_eqI)

lemma cold_hardware_pass:
  assumes "v ''silicon_revision'' = 103" and "v ''gdma_clic_irq'' = 18"
  shows "gdma_linux_irq_data_available hw \<and> gdma_linux_hwirq hw = 18 \<and>
     first_reject (cold_hardware_guards v hw) = None \<longleftrightarrow>
     hw = cold_quiesced (v ''framebuffer0'') (v ''descriptor_address'') (gdma_linux_virq hw)"
proof -
  have backing: "(int (length (descriptor_backing hw)) = 0x1000 \<and>
      \<not> list_ex (\<lambda>b. b \<noteq> 0) (descriptor_backing hw)) \<longleftrightarrow>
      descriptor_backing hw = replicate 0x1000 0"
    using zero_bytes_iff [of "descriptor_backing hw" 4096] by simp
  have "first_reject (cold_hardware_guards v hw) = None \<longleftrightarrow>
      hw_silicon_revision hw = 103 \<and> gdma_reset_asserted hw \<and> dsi_module_reset_asserted hw \<and>
      \<not> gdma_cpu_clock_enabled hw \<and> \<not> gdma_sys_clock_enabled hw \<and> \<not> dsi_sys_clock_enabled hw \<and>
      \<not> dphy_config_clock_enabled hw \<and> \<not> dphy_pll_ref_clock_enabled hw \<and>
      \<not> dpi_clock_enabled hw \<and> \<not> dphy_ldo_enabled hw \<and> \<not> i2c_apb_clock_enabled hw \<and>
      gdma_irq_route hw = 18 \<and> dma_pms_regions hw = expected_pms_regions v \<and>
      dma_pms_read_mask hw = 14 \<and> dma_pms_write_mask hw = 24 \<and>
      descriptor_backing hw = replicate 0x1000 0"
    unfolding cold_hardware_guards_def backing [symmetric] first_reject_None_simps de_Morgan_disj
      not_not assms by simp
  then show ?thesis
    by (cases hw)
      (simp add: cold_quiesced_def ColdHardwareState_def expected_pms_regions_def conj_ac)
qed


lemma silicon_mem_COLD_FIELDS: "''silicon_revision'' \<in> set COLD_RELINQUISH_FIELDS"
  by (simp add: COLD_RELINQUISH_FIELDS_def)

lemma cold_values_accepted:
  assumes "validate_cold_relinquish b hw = Inr ()" and "k \<in> set COLD_RELINQUISH_FIELDS"
  shows "cold_values b k = (if k = ''crc32'' then crc32 (take 188 b)
     else dict_update cold_default_values [(''framebuffer0'', cold_values b ''framebuffer0''),
       (''descriptor_address'', cold_values b ''descriptor_address'')] k)"
proof -
  let ?v = "cold_values b"
  from assms(1) have hdr: "first_reject (cold_header_guards b) = None"
    and pass: "first_reject (cold_profile_guards ?v) = None" "first_reject (cold_frame_guards ?v) = None"
      "first_reject (cold_descriptor_guards ?v) = None" "first_reject (cold_peripheral_guards ?v hw) = None"
    unfolding validate_cold_relinquish_def cold_value_guards_def raise_on_simps first_reject_None_simps
    by blast+
  from hdr have len: "length b = 192" and h: "?v ''magic'' = 0x4D4E5844" "?v ''abi_version'' = 3"
      "?v ''struct_size'' = 192" "?v ''crc32'' = crc32 (take 188 b)"
    unfolding cold_header_guards_def Let_def cold_values_header first_reject_None_simps by auto
  have "0 \<le> ?v ''flags''"
    unfolding cold_values_def
    by (rule cold.values_nonneg) (simp_all add: len COLD_RELINQUISH_FIELDS_def)
  note eqs = h cold_profile_pass [OF pass(1) this] pass(2) [unfolded cold_frame_pass]
    pass(3) [unfolded cold_descriptor_pass] pass(4) [unfolded cold_peripheral_pass]
  let ?w = "dict_update cold_default_values [(''framebuffer0'', ?v ''framebuffer0''),
       (''descriptor_address'', ?v ''descriptor_address'')]"
  have "map ?v COLD_RELINQUISH_FIELDS = map (?w(''crc32'' := crc32 (take 188 b))) COLD_RELINQUISH_FIELDS"
    unfolding COLD_RELINQUISH_FIELDS_def list.map dict_update_simps
    by (simp only: eqs cold_defaults fun_upd_apply if_True if_False refl) simp
  then have "\<forall>k \<in> set COLD_RELINQUISH_FIELDS. ?v k = (?w(''crc32'' := crc32 (take 188 b))) k"
    by (simp only: map_eq_conv)
  with assms(2) show ?thesis by (simp only: fun_upd_apply)
qed

lemma cold_pass_make:
  assumes p: "cold_placement_ok front descriptor"
    and m: "make_cold_relinquish [(''framebuffer0'', front), (''descriptor_address'', descriptor)] = Inr b"
    and hw: "hw = cold_quiesced front descriptor virq"
  shows "validate_cold_relinquish b hw = Inr ()"
proof -
  let ?v = "dict_update cold_default_values [(''framebuffer0'', front), (''descriptor_address'', descriptor)]"
  have "first_reject (cold_profile_guards ?v) = None"
    unfolding cold_profile_guards_def by (simp add: cold_defaults)
  moreover have "first_reject (cold_frame_guards ?v) = None" "first_reject (cold_descriptor_guards ?v) = None"
    unfolding cold_frame_pass cold_descriptor_pass using p by (simp_all add: cold_defaults cold_placement_ok_def)
  moreover have "gdma_linux_irq_data_available hw \<and> gdma_linux_hwirq hw = 18 \<and>
      first_reject (cold_hardware_guards ?v hw) = None"
    by (subst cold_hardware_pass) (simp_all add: cold_defaults hw cold_quiesced_def)
  moreover from this have "first_reject (cold_peripheral_guards ?v hw) = None"
    unfolding cold_peripheral_pass by (simp add: cold_defaults)
  ultimately have "first_reject (cold_dict_guards ?v hw) = None"
    unfolding cold_dict_guards_def cold_value_guards_def first_reject_None_simps
    by (simp add: cold_defaults)
  then show ?thesis unfolding validate_make_cold [OF m] by simp
qed

text \<open>
  C5. Exactly what Linux accepts as a cold handoff: a record that \<^verbatim>\<open>make_cold_relinquish\<close> builds for
  some front buffer and descriptor page, page aligned and inside the loader's PSRAM and the
  DMA SRAM outside the SD window, presented with the hardware fully quiesced and the DMA
  windows of those very addresses.  Nothing else in the record or the hardware state is free
  but the Linux interrupt number.
\<close>

theorem cold_accept_iff:
  "validate_cold_relinquish b hw = Inr () \<longleftrightarrow>
     (\<exists>front descriptor virq. cold_placement_ok front descriptor \<and>
        make_cold_relinquish [(''framebuffer0'', front), (''descriptor_address'', descriptor)] = Inr b \<and>
        hw = cold_quiesced front descriptor virq)" (is "?L \<longleftrightarrow> ?R")
proof
  assume L: ?L
  let ?v = "cold_values b"
  let ?front = "?v ''framebuffer0''" and ?desc = "?v ''descriptor_address''"
  let ?ov = "[(''framebuffer0'', ?front), (''descriptor_address'', ?desc)]"
  from L have hdr: "first_reject (cold_header_guards b) = None"
    and pass: "first_reject (cold_frame_guards ?v) = None"
      "first_reject (cold_descriptor_guards ?v) = None" "first_reject (cold_peripheral_guards ?v hw) = None"
      "first_reject (cold_hardware_guards ?v hw) = None" "first_reject (cold_profile_guards ?v) = None"
    unfolding validate_cold_relinquish_def cold_value_guards_def raise_on_simps first_reject_None_simps
    by blast+
  from hdr have len: "length b = 192"
    unfolding cold_header_guards_def Let_def first_reject_None_simps by simp
  have "cold_placement_ok ?front ?desc"
    using pass(1) [unfolded cold_frame_pass] pass(2) [unfolded cold_descriptor_pass]
    by (simp add: cold_placement_ok_def)
  moreover have "make_cold_relinquish ?ov = Inr b"
    unfolding make_cold_relinquish_def
    by (rule cold.seal_values) (use len cold_values_accepted [OF L] in \<open>simp_all add: cold_values_def\<close>)
  moreover have "hw = cold_quiesced ?front ?desc (gdma_linux_virq hw)"
    using cold_hardware_pass [of ?v hw] pass(3) [unfolded cold_peripheral_pass] pass(4)
      cold_values_accepted [OF L silicon_mem_COLD_FIELDS]
    by (simp add: cold_defaults)
  ultimately show ?R by blast
next
  assume ?R
  then show ?L using cold_pass_make by blast
qed

lemma make_cold_total:
  assumes "\<forall>p \<in> set ov. override_ok p"
  shows "\<exists>b. make_cold_relinquish ov = Inr b"
  unfolding make_cold_relinquish_def
proof (rule cold.seal_total, rule override_ok_update [OF assms])
  fix k
  have "\<forall>x \<in> set (map cold_default_values COLD_RELINQUISH_FIELDS). 0 \<le> x \<and> x < 2 ^ 32"
    unfolding cold_default_list by simp
  moreover assume "k \<in> set COLD_RELINQUISH_FIELDS"
  ultimately show "override_ok (k, cold_default_values k)"
    by (auto simp: override_ok_def cold_defaults)
qed

lemma cold_default_accepted:
  "\<exists>b. make_cold_relinquish [] = Inr b \<and> validate_cold_relinquish b ColdHardwareState = Inr ()"
proof -
  obtain b where b: "make_cold_relinquish [] = Inr b" using make_cold_total [of "[]"] by auto
  have same: "dict_update cold_default_values
      [(''framebuffer0'', 0x48041000), (''descriptor_address'', 0x4FF3C000)] = cold_default_values"
    by (simp add: fun_upd_idem cold_defaults)
  have "make_cold_relinquish [(''framebuffer0'', 0x48041000), (''descriptor_address'', 0x4FF3C000)] = Inr b"
    using b unfolding make_cold_relinquish_def same by simp
  moreover have "cold_placement_ok 0x48041000 0x4FF3C000"
    by (simp add: cold_placement_ok_def overlaps_def)
  moreover have "ColdHardwareState = cold_quiesced 0x48041000 0x4FF3C000 3"
    by (simp add: cold_quiesced_def ColdHardwareState_def frame_range_def)
  ultimately show ?thesis using b cold_pass_make by blast
qed

lemma cold_accept_residue:
  assumes "validate_cold_relinquish b hw = Inr ()"
  shows "length b = 192 \<and> crc32 b = crc32_residue"
proof -
  from assms have hdr: "first_reject (cold_header_guards b) = None"
    unfolding validate_cold_relinquish_def raise_on_simps first_reject_None_simps by blast
  then have len: "length b = 192" and crc: "cold_values b ''crc32'' = crc32 (take 188 b)"
    unfolding cold_header_guards_def Let_def first_reject_None_simps by auto
  then show ?thesis using cold.crc_field_iff [of b] by (simp add: cold_values_def)
qed



text \<open>
  C21. What an accepted cold handoff gives the DMA engine: the permission windows of the
  hardware are pairwise disjoint, each frame buffer the record names lies in a window, the
  frame buffers are pairwise disjoint, and no window reaches the kernel's memory, the user
  pool, the communication pool or the SD controller's buffers.
\<close>

theorem cold_accept_dma_isolated:
  assumes "validate_cold_relinquish b hw = Inr ()"
  shows "pairwise_disjoint (dma_pms_regions hw) \<and>
     pairwise_disjoint (map frame_range (cold_addresses (cold_values b))) \<and>
     (\<forall>a \<in> set (cold_addresses (cold_values b)). \<exists>r \<in> set (dma_pms_regions hw).
        span (frame_range a) \<subseteq> span r) \<and>
     (\<forall>r \<in> set (dma_pms_regions hw).
        \<forall>s \<in> {KERNEL_GENERAL_RAM, USER_POOL, COMMS_POOL, SD_DMA_SRAM}. span r \<inter> span s = {})"
proof -
  let ?v = "cold_values b"
  from assms have pass: "first_reject (cold_frame_guards ?v) = None"
      "first_reject (cold_descriptor_guards ?v) = None" "first_reject (cold_hardware_guards ?v hw) = None"
    unfolding validate_cold_relinquish_def cold_value_guards_def raise_on_simps first_reject_None_simps
    by blast+
  note frame = pass(1) [unfolded cold_frame_pass] and desc = pass(2) [unfolded cold_descriptor_pass]
  from pass(3) have hw: "dma_pms_regions hw = expected_pms_regions ?v"
    unfolding cold_hardware_guards_def first_reject_None_simps by blast
  show ?thesis
    using frame desc
    by (simp add: hw expected_pms_regions_def cold_addresses_def frame_range_def span_def overlaps_def)
qed

theorem cold_accept_dma_isolated_witness:
  "\<exists>b. validate_cold_relinquish b ColdHardwareState = Inr () \<and>
     pairwise_disjoint (dma_pms_regions ColdHardwareState) \<and>
     pairwise_disjoint (map frame_range (cold_addresses (cold_values b)))"
proof -
  obtain b where "validate_cold_relinquish b ColdHardwareState = Inr ()"
    using cold_default_accepted by blast
  then show ?thesis using cold_accept_dma_isolated [of b ColdHardwareState] by blast
qed

end
