(* ===== verification/Display_Handoff.thy ===== *)
theory Display_Handoff
  imports Display_Layout
begin

text \<open>
  ABI v2 of the display handoff, the live/adopt contract kept for the shared M7 artifact: a
  124-byte record, the three DMA descriptors it names and the channel configuration
  (\<open>validate_handoff\<close>).  \<open>handoff_accept_iff\<close> says exactly what is accepted.
\<close>

section \<open>The record\<close>

definition HANDOFF_FORMAT :: "nat list" where
  "HANDOFF_FORMAT = [4, 2, 2] @ replicate 29 4"

definition HANDOFF_FIELDS :: "string list" where
  "HANDOFF_FIELDS =
     [''magic'', ''abi_version'', ''struct_size'', ''flags'', ''width'', ''height'', ''stride'',
      ''pixel_clock_hz'', ''lane_bit_rate_mbps'', ''data_lanes'', ''buffer_count'',
      ''ownership_state'', ''hsync_pulse_width'', ''hsync_back_porch'', ''hsync_front_porch'',
      ''vsync_pulse_width'', ''vsync_back_porch'', ''vsync_front_porch'', ''framebuffer0'',
      ''framebuffer1'', ''framebuffer2'', ''framebuffer_size'', ''descriptor_address'',
      ''descriptor_size'', ''descriptor_count'', ''dma_channel'', ''dsi_fifo_address'',
      ''i2c_address'', ''display_control_register'', ''backlight_register'',
      ''backlight_brightness'', ''crc32'']"

definition HANDOFF_SIZE :: int where "HANDOFF_SIZE = int (calcsize HANDOFF_FORMAT)"
definition ABI_VERSION :: int where "ABI_VERSION = 2"
definition REQUIRED_FLAGS :: int where "REQUIRED_FLAGS = 0xFF"
definition FRAME_ADDRESSES :: "int list" where
  "FRAME_ADDRESSES = [0x48040A80, 0x49300000, 0x49500000]"
definition FRAMEBUFFER_ALIGNMENT :: int where "FRAMEBUFFER_ALIGNMENT = 8"
definition DESCRIPTOR_BLOCK_SIZE :: int where "DESCRIPTOR_BLOCK_SIZE = 0x0003E7FF"
definition DESCRIPTOR_CTRL_LO :: int where "DESCRIPTOR_CTRL_LO = 0x001E1B41"
definition DESCRIPTOR_CTRL_HI :: int where "DESCRIPTOR_CTRL_HI = 0x400F87C0"
definition DW_GDMA_BLOCK_TRANSFER_LIST :: int where "DW_GDMA_BLOCK_TRANSFER_LIST = 3"
definition CHANNEL_CFG :: "int \<times> int" where
  "CHANNEL_CFG =
     (DW_GDMA_BLOCK_TRANSFER_LIST OR push_bit 2 DW_GDMA_BLOCK_TRANSFER_LIST, 0x0A020001)"

lemmas handoff_const_defs [simp] =
  ABI_VERSION_def REQUIRED_FLAGS_def FRAME_ADDRESSES_def FRAMEBUFFER_ALIGNMENT_def
  DESCRIPTOR_BLOCK_SIZE_def DESCRIPTOR_CTRL_LO_def DESCRIPTOR_CTRL_HI_def

definition handoff_default_values :: "string \<Rightarrow> int" where
  "handoff_default_values = dict_get
     [(''magic'', HANDOFF_MAGIC), (''abi_version'', ABI_VERSION), (''struct_size'', HANDOFF_SIZE),
      (''flags'', REQUIRED_FLAGS), (''width'', 800), (''height'', 1280), (''stride'', 1600),
      (''pixel_clock_hz'', 80000000), (''lane_bit_rate_mbps'', 1500), (''data_lanes'', 2),
      (''buffer_count'', 3), (''ownership_state'', DISPLAY_OWNER_LINUX_PENDING),
      (''hsync_pulse_width'', DISPLAY_TIMING ! 0), (''hsync_back_porch'', DISPLAY_TIMING ! 1),
      (''hsync_front_porch'', DISPLAY_TIMING ! 2), (''vsync_pulse_width'', DISPLAY_TIMING ! 3),
      (''vsync_back_porch'', DISPLAY_TIMING ! 4), (''vsync_front_porch'', DISPLAY_TIMING ! 5),
      (''framebuffer0'', FRAME_ADDRESSES ! 0), (''framebuffer1'', FRAME_ADDRESSES ! 1),
      (''framebuffer2'', FRAME_ADDRESSES ! 2), (''framebuffer_size'', FRAME_SIZE),
      (''descriptor_address'', 0x4FF3BA80), (''descriptor_size'', DESCRIPTOR_SIZE * DESCRIPTOR_COUNT),
      (''descriptor_count'', DESCRIPTOR_COUNT), (''dma_channel'', 0), (''dsi_fifo_address'', DSI_FIFO),
      (''i2c_address'', 0x45), (''display_control_register'', 0x95), (''backlight_register'', 0x96),
      (''backlight_brightness'', 63), (''crc32'', 0)]"

definition make_handoff :: "(string \<times> int) list \<Rightarrow> bytes result" where
  "make_handoff overrides =
     seal_dict HANDOFF_FORMAT HANDOFF_FIELDS (dict_update handoff_default_values overrides)"

record descriptor =
  sar :: int
  sar_hi :: int
  dar :: int
  dar_hi :: int
  llp :: int
  llp_hi :: int
  block_size :: int
  control_low :: int
  control :: int

definition Descriptor :: descriptor where
  "Descriptor =
     \<lparr>sar = FRAME_ADDRESSES ! 0, sar_hi = 0, dar = DSI_FIFO, dar_hi = 0, llp = 1, llp_hi = 0,
      block_size = DESCRIPTOR_BLOCK_SIZE, control_low = DESCRIPTOR_CTRL_LO,
      control = DESCRIPTOR_CTRL_HI\<rparr>"

section \<open>The validator\<close>

definition handoff_values :: "bytes \<Rightarrow> string \<Rightarrow> int" where
  "handoff_values blob = struct_values HANDOFF_FORMAT HANDOFF_FIELDS blob"

definition handoff_header_guards :: "bytes \<Rightarrow> (bool \<times> string) list" where
  "handoff_header_guards blob = (let values = handoff_values blob in
     [(int (length blob) \<noteq> HANDOFF_SIZE, ''structure-size''),
      (values ''magic'' \<noteq> HANDOFF_MAGIC, ''magic''),
      (values ''abi_version'' \<noteq> ABI_VERSION, ''abi-version''),
      (values ''struct_size'' \<noteq> HANDOFF_SIZE, ''declared-size''),
      (crc32 (take (length blob - 4) blob) \<noteq> values ''crc32'', ''crc32'')])"

definition handoff_profile_guards :: "(string \<Rightarrow> int) \<Rightarrow> (bool \<times> string) list" where
  "handoff_profile_guards values =
     [(values ''flags'' AND REQUIRED_FLAGS \<noteq> REQUIRED_FLAGS, ''required-flags''),
      (map values [''width'', ''height'', ''stride'', ''pixel_clock_hz'', ''lane_bit_rate_mbps'',
         ''data_lanes'', ''buffer_count'', ''ownership_state'', ''hsync_pulse_width'',
         ''hsync_back_porch'', ''hsync_front_porch'', ''vsync_pulse_width'', ''vsync_back_porch'',
         ''vsync_front_porch'']
       \<noteq> [800, 1280, 1600, 80000000, 1500, 2, 3, DISPLAY_OWNER_LINUX_PENDING] @ DISPLAY_TIMING,
       ''panel-profile''),
      (values ''height'' > 0xFFFFFFFF div values ''stride'', ''frame-size-overflow''),
      (values ''height'' * values ''stride'' \<noteq> FRAME_SIZE, ''frame-size''),
      (values ''framebuffer_size'' \<noteq> FRAME_SIZE, ''published-frame-size'')]"

definition handoff_addresses :: "(string \<Rightarrow> int) \<Rightarrow> int list" where
  "handoff_addresses values = map values [''framebuffer0'', ''framebuffer1'', ''framebuffer2'']"

definition handoff_frame_guards :: "(string \<Rightarrow> int) \<Rightarrow> (bool \<times> string) list" where
  "handoff_frame_guards values =
     (let addresses = handoff_addresses values; front_end = addresses ! 0 + FRAME_SIZE in
      [(addresses ! 0 < fst LOADER_PSRAM \<or> front_end > snd LOADER_PSRAM, ''loader-front-bounds''),
       (tl addresses \<noteq> tl FRAME_ADDRESSES, ''display-pool-layout'')] @
      frame_guards FRAMEBUFFER_ALIGNMENT addresses @
      overlap_guards (map frame_range addresses))"

definition handoff_descriptor_guards :: "(string \<Rightarrow> int) \<Rightarrow> (bool \<times> string) list" where
  "handoff_descriptor_guards values =
     (let descriptor_end = values ''descriptor_address'' + values ''descriptor_size'' in
      [(descriptor_end > 0xFFFFFFFF, ''descriptor-overflow''),
       (values ''descriptor_address'' < fst DESCRIPTOR_SRAM \<or> descriptor_end > snd DESCRIPTOR_SRAM
          \<or> values ''descriptor_address'' mod DESCRIPTOR_SIZE \<noteq> 0
          \<or> values ''descriptor_size'' \<noteq> DESCRIPTOR_SIZE * DESCRIPTOR_COUNT
          \<or> values ''descriptor_count'' \<noteq> DESCRIPTOR_COUNT, ''descriptor-bounds'')])"

definition descriptor_guards :: "int \<Rightarrow> descriptor \<Rightarrow> (bool \<times> string) list" where
  "descriptor_guards front d =
     [(sar d \<noteq> front \<or> sar_hi d \<noteq> 0, ''descriptor-source''),
      (dar d \<noteq> DSI_FIFO \<or> dar_hi d \<noteq> 0, ''descriptor-destination''),
      (llp d AND NOT 0x3F \<noteq> 0 \<or> llp_hi d \<noteq> 0, ''descriptor-link''),
      (block_size d \<noteq> DESCRIPTOR_BLOCK_SIZE, ''descriptor-block-size''),
      (control_low d \<noteq> DESCRIPTOR_CTRL_LO, ''descriptor-control-low''),
      (control d \<noteq> DESCRIPTOR_CTRL_HI, ''descriptor-control-high'')]"

definition handoff_dma_guards ::
  "(string \<Rightarrow> int) \<Rightarrow> descriptor list \<Rightarrow> int \<times> int \<Rightarrow> (bool \<times> string) list" where
  "handoff_dma_guards values descriptors channel_cfg =
     [(int (length descriptors) \<noteq> DESCRIPTOR_COUNT, ''descriptor-count'')] @
     concat (map (descriptor_guards (values ''framebuffer0'')) descriptors) @
     [(channel_cfg \<noteq> CHANNEL_CFG, ''dma-channel-config''),
      (values ''dma_channel'' \<ge> 4, ''dma-channel''),
      (values ''dsi_fifo_address'' \<noteq> DSI_FIFO \<or> values ''i2c_address'' \<noteq> 0x45
         \<or> values ''display_control_register'' \<noteq> 0x95 \<or> values ''backlight_register'' \<noteq> 0x96
         \<or> values ''backlight_brightness'' > 255, ''peripheral-contract'')]"

definition handoff_value_guards ::
  "(string \<Rightarrow> int) \<Rightarrow> descriptor list \<Rightarrow> int \<times> int \<Rightarrow> (bool \<times> string) list" where
  "handoff_value_guards values descriptors channel_cfg =
     handoff_profile_guards values @ handoff_frame_guards values @
     handoff_descriptor_guards values @ handoff_dma_guards values descriptors channel_cfg"

definition validate_handoff :: "bytes \<Rightarrow> descriptor list \<Rightarrow> int \<times> int \<Rightarrow> unit result" where
  "validate_handoff blob descriptors channel_cfg = raise_on ContractError
     (first_reject (handoff_header_guards blob @
        handoff_value_guards (handoff_values blob) descriptors channel_cfg))"

section \<open>The format is a sealed record\<close>

lemma HANDOFF_SIZE [simp]: "HANDOFF_SIZE = 124"
  by (simp add: HANDOFF_SIZE_def HANDOFF_FORMAT_def calcsize_def sum_list_replicate)

lemma calcsize_HANDOFF [simp]: "calcsize HANDOFF_FORMAT = 124"
  by (simp add: HANDOFF_FORMAT_def calcsize_def sum_list_replicate)

lemma distinct_HANDOFF_FIELDS: "distinct HANDOFF_FIELDS"
  by code_simp

lemma length_HANDOFF_FIELDS_32: "length HANDOFF_FIELDS = 32"
  by (simp only: HANDOFF_FIELDS_def list.size)

lemma length_HANDOFF_FIELDS: "length HANDOFF_FIELDS = length HANDOFF_FORMAT"
  by (simp add: length_HANDOFF_FIELDS_32 HANDOFF_FORMAT_def)

lemma HANDOFF_FIELDS_snoc: "HANDOFF_FIELDS = butlast HANDOFF_FIELDS @ [''crc32'']"
  by (simp only: HANDOFF_FIELDS_def butlast.simps list.distinct simp_thms if_True if_False append.simps)

lemma HANDOFF_FORMAT_snoc: "HANDOFF_FORMAT = butlast HANDOFF_FORMAT @ [4]"
proof -
  have "replicate 29 (4 :: nat) = replicate 28 4 @ [4]"
    using replicate_append_same [of 28 "4 :: nat"] replicate_Suc [of 28 "4 :: nat"] by simp
  then have "HANDOFF_FORMAT = ([4, 2, 2] @ replicate 28 4) @ [4]"
    by (simp only: HANDOFF_FORMAT_def append.assoc)
  then show ?thesis by (metis butlast_snoc)
qed

lemma HANDOFF_FIELDS_header:
  "HANDOFF_FIELDS = ''magic'' # ''abi_version'' # ''struct_size'' # drop 3 HANDOFF_FIELDS"
  by (simp add: HANDOFF_FIELDS_def)

interpretation handoff: abi_record HANDOFF_FORMAT HANDOFF_FIELDS 29
  by unfold_locales
    (rule distinct_HANDOFF_FIELDS length_HANDOFF_FIELDS HANDOFF_FIELDS_snoc HANDOFF_FORMAT_snoc
      HANDOFF_FORMAT_def HANDOFF_FIELDS_header)+

section \<open>What is accepted\<close>

lemma handoff_default_list:
  "map handoff_default_values HANDOFF_FIELDS =
     [0x4D4E5844, 2, 124, 0xFF, 800, 1280, 1600, 80000000, 1500, 2, 3, 1, 20, 20, 40, 4, 10, 30,
      0x48040A80, 0x49300000, 0x49500000, 2048000, 0x4FF3BA80, 192, 3, 0, 0x50105000, 0x45, 0x95,
      0x96, 63, 0]"
proof -
  let ?vs = "[HANDOFF_MAGIC, ABI_VERSION, HANDOFF_SIZE, REQUIRED_FLAGS, 800, 1280, 1600, 80000000,
      1500, 2, 3, DISPLAY_OWNER_LINUX_PENDING, DISPLAY_TIMING ! 0, DISPLAY_TIMING ! 1,
      DISPLAY_TIMING ! 2, DISPLAY_TIMING ! 3, DISPLAY_TIMING ! 4, DISPLAY_TIMING ! 5,
      FRAME_ADDRESSES ! 0, FRAME_ADDRESSES ! 1, FRAME_ADDRESSES ! 2, FRAME_SIZE, 0x4FF3BA80,
      DESCRIPTOR_SIZE * DESCRIPTOR_COUNT, DESCRIPTOR_COUNT, 0, DSI_FIFO, 0x45, 0x95, 0x96, 63, 0]"
  have dict: "handoff_default_values = dict_get (zip HANDOFF_FIELDS ?vs)"
    by (simp only: handoff_default_values_def HANDOFF_FIELDS_def zip_Cons_Cons zip.simps(1))
  have "length ?vs = length HANDOFF_FIELDS" by (simp add: length_HANDOFF_FIELDS_32)
  then have "map handoff_default_values HANDOFF_FIELDS = ?vs"
    unfolding dict by (rule map_dict_get_zip [OF distinct_HANDOFF_FIELDS])
  then show ?thesis by simp
qed

lemmas handoff_defaults =
  handoff_default_list [unfolded HANDOFF_FIELDS_def list.map list.inject simp_thms]

text \<open>A DMA descriptor of the handoff: the default but for the front buffer and the link bits.\<close>

definition descriptor_ok :: "int \<Rightarrow> descriptor \<Rightarrow> bool" where
  "descriptor_ok front d = (d = Descriptor \<lparr>sar := front, llp := llp d\<rparr> \<and> llp d AND NOT 0x3F = 0)"

lemma descriptor_pass: "first_reject (descriptor_guards front d) = None \<longleftrightarrow> descriptor_ok front d"
  unfolding descriptor_guards_def first_reject_None_simps descriptor_ok_def
  by (cases d) (auto simp: Descriptor_def)

lemma first_reject_concat_None:
  "first_reject (concat (map f xs)) = None \<longleftrightarrow> (\<forall>x \<in> set xs. first_reject (f x) = None)"
  by (induction xs) (simp_all add: first_reject_None_simps del: first_reject_append)

definition handoff_placement_ok :: "int \<Rightarrow> int \<Rightarrow> bool" where
  "handoff_placement_ok front descriptors =
     (fst LOADER_PSRAM \<le> front \<and> front + FRAME_SIZE \<le> snd LOADER_PSRAM \<and> front mod 8 = 0 \<and>
      fst DESCRIPTOR_SRAM \<le> descriptors \<and>
      descriptors + DESCRIPTOR_SIZE * DESCRIPTOR_COUNT \<le> snd DESCRIPTOR_SRAM \<and>
      descriptors mod DESCRIPTOR_SIZE = 0)"

lemma handoff_profile_pass:
  "first_reject (handoff_profile_guards v) = None \<longleftrightarrow>
     v ''flags'' AND 0xFF = 0xFF \<and> v ''width'' = 800 \<and> v ''height'' = 1280 \<and> v ''stride'' = 1600 \<and>
     v ''pixel_clock_hz'' = 80000000 \<and> v ''lane_bit_rate_mbps'' = 1500 \<and> v ''data_lanes'' = 2 \<and>
     v ''buffer_count'' = 3 \<and> v ''ownership_state'' = 1 \<and> v ''hsync_pulse_width'' = 20 \<and>
     v ''hsync_back_porch'' = 20 \<and> v ''hsync_front_porch'' = 40 \<and> v ''vsync_pulse_width'' = 4 \<and>
     v ''vsync_back_porch'' = 10 \<and> v ''vsync_front_porch'' = 30 \<and> v ''framebuffer_size'' = 2048000"
  unfolding handoff_profile_guards_def first_reject_None_simps not_not list.map
    DISPLAY_OWNER_LINUX_PENDING_def DISPLAY_TIMING_def append.simps list.inject handoff_const_defs layout_defs
  by auto

lemma handoff_frame_pass:
  "first_reject (handoff_frame_guards v) = None \<longleftrightarrow>
     0x48000000 \<le> v ''framebuffer0'' \<and> v ''framebuffer0'' + 2048000 \<le> 0x48400000 \<and>
     v ''framebuffer0'' mod 8 = 0 \<and> v ''framebuffer1'' = 0x49300000 \<and> v ''framebuffer2'' = 0x49500000"
  unfolding handoff_frame_guards_def handoff_addresses_def frame_guards_def overlap_guards_def
    frame_range_def overlaps_def
  by (auto simp: Let_def split: if_splits)

lemma handoff_descriptor_pass:
  "first_reject (handoff_descriptor_guards v) = None \<longleftrightarrow>
     0x4FF00000 \<le> v ''descriptor_address'' \<and> v ''descriptor_address'' + 192 \<le> 0x4FFC0000 \<and>
     v ''descriptor_address'' mod 64 = 0 \<and> v ''descriptor_size'' = 192 \<and> v ''descriptor_count'' = 3"
  unfolding handoff_descriptor_guards_def by (auto simp: Let_def split: if_splits)

lemma handoff_dma_pass:
  "first_reject (handoff_dma_guards v ds cfg) = None \<longleftrightarrow>
     length ds = 3 \<and> (\<forall>d \<in> set ds. descriptor_ok (v ''framebuffer0'') d) \<and> cfg = CHANNEL_CFG \<and>
     v ''dma_channel'' < 4 \<and> v ''dsi_fifo_address'' = 0x50105000 \<and> v ''i2c_address'' = 0x45 \<and>
     v ''display_control_register'' = 0x95 \<and> v ''backlight_register'' = 0x96 \<and>
     v ''backlight_brightness'' \<le> 255"
  unfolding handoff_dma_guards_def first_reject_None_simps first_reject_concat_None descriptor_pass
  by (auto simp: not_le)

definition handoff_dict_guards ::
  "(string \<Rightarrow> int) \<Rightarrow> descriptor list \<Rightarrow> int \<times> int \<Rightarrow> (bool \<times> string) list" where
  "handoff_dict_guards v descriptors channel_cfg =
     [(v ''magic'' \<noteq> HANDOFF_MAGIC, ''magic''), (v ''abi_version'' \<noteq> ABI_VERSION, ''abi-version''),
      (v ''struct_size'' \<noteq> HANDOFF_SIZE, ''declared-size'')] @
     handoff_value_guards v descriptors channel_cfg"

lemmas handoff_guard_defs =
  handoff_value_guards_def handoff_profile_guards_def handoff_frame_guards_def
  handoff_descriptor_guards_def handoff_dma_guards_def handoff_addresses_def

lemma handoff_value_guards_cong:
  assumes "\<And>k. k \<in> set HANDOFF_FIELDS \<Longrightarrow> k \<noteq> ''crc32'' \<Longrightarrow> v k = w k"
  shows "handoff_value_guards v ds cfg = handoff_value_guards w ds cfg"
proof -
  have "\<forall>k \<in> set HANDOFF_FIELDS. k = ''crc32'' \<or> v k = w k" using assms by blast
  note eqs = this [unfolded HANDOFF_FIELDS_def list.set ball_simps insert_iff, simplified]
  show ?thesis unfolding handoff_guard_defs list.map Let_def by (simp only: eqs)
qed

lemma validate_make_handoff:
  assumes "make_handoff ov = Inr b"
  shows "validate_handoff b ds cfg = raise_on ContractError
     (first_reject (handoff_dict_guards (dict_update handoff_default_values ov) ds cfg))"
proof -
  let ?v = "dict_update handoff_default_values ov"
  from assms have len: "length b = 124"
    and vals: "\<And>k. k \<in> set HANDOFF_FIELDS \<Longrightarrow> k \<noteq> ''crc32'' \<Longrightarrow> handoff_values b k = ?v k"
    and crc: "handoff_values b ''crc32'' = crc32 (take 120 b)"
    unfolding make_handoff_def handoff.seal_iff handoff_values_def using handoff.crc32_mem by simp_all
  have "first_reject (handoff_header_guards b @ gs) =
      first_reject ([(?v ''magic'' \<noteq> HANDOFF_MAGIC, ''magic''),
        (?v ''abi_version'' \<noteq> ABI_VERSION, ''abi-version''),
        (?v ''struct_size'' \<noteq> HANDOFF_SIZE, ''declared-size'')] @ gs)" for gs
    unfolding handoff_header_guards_def Let_def
    using len crc vals [OF handoff.header_mem(1)] vals [OF handoff.header_mem(2)]
      vals [OF handoff.header_mem(3)] by simp
  moreover have "handoff_value_guards (handoff_values b) ds cfg = handoff_value_guards ?v ds cfg"
    by (rule handoff_value_guards_cong) (rule vals)
  ultimately show ?thesis
    unfolding validate_handoff_def handoff_dict_guards_def by (simp only:)
qed

text \<open>The five fields a v2 record may choose.\<close>

abbreviation (input) handoff_choices :: "int \<Rightarrow> int \<Rightarrow> int \<Rightarrow> int \<Rightarrow> int \<Rightarrow> (string \<times> int) list" where
  "handoff_choices flags front descriptors channel brightness \<equiv>
     [(''flags'', flags), (''framebuffer0'', front), (''descriptor_address'', descriptors),
      (''dma_channel'', channel), (''backlight_brightness'', brightness)]"

lemma handoff_accept_parts:
  assumes "validate_handoff b ds cfg = Inr ()"
  defines "v \<equiv> handoff_values b"
  shows "length b = 124" and "v ''magic'' = 0x4D4E5844" and "v ''abi_version'' = 2"
    and "v ''struct_size'' = 124" and "v ''crc32'' = crc32 (take 120 b)"
    and "first_reject (handoff_profile_guards v) = None" and "first_reject (handoff_frame_guards v) = None"
    and "first_reject (handoff_descriptor_guards v) = None"
    and "first_reject (handoff_dma_guards v ds cfg) = None"
proof -
  from assms(1) have hdr: "first_reject (handoff_header_guards b) = None"
    and pass: "first_reject (handoff_profile_guards v) = None" "first_reject (handoff_frame_guards v) = None"
      "first_reject (handoff_descriptor_guards v) = None" "first_reject (handoff_dma_guards v ds cfg) = None"
    unfolding validate_handoff_def handoff_value_guards_def raise_on_simps first_reject_None_simps v_def
    by blast+
  show "length b = 124" "v ''magic'' = 0x4D4E5844" "v ''abi_version'' = 2" "v ''struct_size'' = 124"
    "v ''crc32'' = crc32 (take 120 b)"
    using hdr unfolding handoff_header_guards_def Let_def first_reject_None_simps v_def [symmetric] by auto
  show "first_reject (handoff_profile_guards v) = None" "first_reject (handoff_frame_guards v) = None"
    "first_reject (handoff_descriptor_guards v) = None" "first_reject (handoff_dma_guards v ds cfg) = None"
    by (fact pass)+
qed

lemma handoff_values_accepted:
  assumes "validate_handoff b ds cfg = Inr ()" and "k \<in> set HANDOFF_FIELDS"
  defines "v \<equiv> handoff_values b"
  shows "v k = (if k = ''crc32'' then crc32 (take 120 b)
     else dict_update handoff_default_values (handoff_choices (v ''flags'') (v ''framebuffer0'')
       (v ''descriptor_address'') (v ''dma_channel'') (v ''backlight_brightness'')) k)"
proof -
  let ?w = "dict_update handoff_default_values (handoff_choices (v ''flags'') (v ''framebuffer0'')
       (v ''descriptor_address'') (v ''dma_channel'') (v ''backlight_brightness''))"
  note acc = handoff_accept_parts [OF assms(1), folded v_def]
  note eqs = acc(2-5) acc(6) [unfolded handoff_profile_pass] acc(7) [unfolded handoff_frame_pass]
    acc(8) [unfolded handoff_descriptor_pass] acc(9) [unfolded handoff_dma_pass]
  have "map v HANDOFF_FIELDS = map (?w(''crc32'' := crc32 (take 120 b))) HANDOFF_FIELDS"
    unfolding HANDOFF_FIELDS_def list.map dict_update_simps
    by (simp only: eqs handoff_defaults fun_upd_apply if_True if_False refl) simp
  then have "\<forall>k \<in> set HANDOFF_FIELDS. v k = (?w(''crc32'' := crc32 (take 120 b))) k"
    by (simp only: map_eq_conv)
  with assms(2) show ?thesis by (simp only: fun_upd_apply)
qed

lemma choice_mem_HANDOFF_FIELDS:
  "''dma_channel'' \<in> set HANDOFF_FIELDS" "''backlight_brightness'' \<in> set HANDOFF_FIELDS"
  by (simp_all add: HANDOFF_FIELDS_def)

lemma handoff_pass_make:
  assumes fl: "flags AND REQUIRED_FLAGS = REQUIRED_FLAGS" and p: "handoff_placement_ok front descriptors"
    and c: "channel < 4" "brightness \<le> 255"
    and m: "make_handoff (handoff_choices flags front descriptors channel brightness) = Inr b"
    and d: "length ds = 3" "\<forall>d \<in> set ds. descriptor_ok front d" "cfg = CHANNEL_CFG"
  shows "validate_handoff b ds cfg = Inr ()"
proof -
  let ?v = "dict_update handoff_default_values (handoff_choices flags front descriptors channel brightness)"
  have "first_reject (handoff_profile_guards ?v) = None" "first_reject (handoff_frame_guards ?v) = None"
    "first_reject (handoff_descriptor_guards ?v) = None" "first_reject (handoff_dma_guards ?v ds cfg) = None"
    unfolding handoff_profile_pass handoff_frame_pass handoff_descriptor_pass handoff_dma_pass
    using fl p c d by (simp_all add: handoff_defaults handoff_placement_ok_def)
  then have "first_reject (handoff_dict_guards ?v ds cfg) = None"
    unfolding handoff_dict_guards_def handoff_value_guards_def first_reject_None_simps
    by (simp add: handoff_defaults)
  then show ?thesis unfolding validate_make_handoff [OF m] by simp
qed

text \<open>
  C7. Exactly what is accepted as a v2 handoff: a record \<^verbatim>\<open>make_handoff\<close> builds from a choice of
  flags (the required ones set), front buffer, descriptor block, DMA channel below four and
  brightness of one byte, with three descriptors that scan out that very front buffer and
  the list-mode channel configuration.
\<close>

theorem handoff_accept_iff:
  "validate_handoff b ds cfg = Inr () \<longleftrightarrow>
     (\<exists>flags front descriptors channel brightness.
        flags AND REQUIRED_FLAGS = REQUIRED_FLAGS \<and> handoff_placement_ok front descriptors \<and>
        0 \<le> channel \<and> channel < 4 \<and> 0 \<le> brightness \<and> brightness \<le> 255 \<and>
        make_handoff (handoff_choices flags front descriptors channel brightness) = Inr b \<and>
        length ds = 3 \<and> list_all (descriptor_ok front) ds \<and> cfg = CHANNEL_CFG)"
  (is "?L \<longleftrightarrow> ?R")
proof
  assume L: ?L
  let ?v = "handoff_values b"
  note acc = handoff_accept_parts [OF L]
  have "make_handoff (handoff_choices (?v ''flags'') (?v ''framebuffer0'') (?v ''descriptor_address'')
      (?v ''dma_channel'') (?v ''backlight_brightness'')) = Inr b"
    unfolding make_handoff_def
    by (rule handoff.seal_values)
      (use acc(1) handoff_values_accepted [OF L] in \<open>simp_all add: handoff_values_def\<close>)
  moreover have "0 \<le> ?v ''dma_channel''" "0 \<le> ?v ''backlight_brightness''"
    unfolding handoff_values_def
    by (rule handoff.values_nonneg; simp add: acc(1) choice_mem_HANDOFF_FIELDS)+
  moreover have "handoff_placement_ok (?v ''framebuffer0'') (?v ''descriptor_address'')"
    using acc(7) [unfolded handoff_frame_pass] acc(8) [unfolded handoff_descriptor_pass]
    by (simp add: handoff_placement_ok_def)
  ultimately show ?R
    using acc(6) [unfolded handoff_profile_pass] acc(9) [unfolded handoff_dma_pass]
    unfolding REQUIRED_FLAGS_def list_all_iff by blast
next
  assume ?R
  then show ?L unfolding list_all_iff using handoff_pass_make by blast
qed

lemma make_handoff_total:
  assumes "\<forall>p \<in> set ov. override_ok p"
  shows "\<exists>b. make_handoff ov = Inr b"
  unfolding make_handoff_def
proof (rule handoff.seal_total, rule override_ok_update [OF assms])
  fix k
  have "\<forall>x \<in> set (map handoff_default_values HANDOFF_FIELDS). 0 \<le> x \<and> x < 2 ^ 32"
    unfolding handoff_default_list by simp
  moreover assume "k \<in> set HANDOFF_FIELDS"
  ultimately show "override_ok (k, handoff_default_values k)"
    by (auto simp: override_ok_def handoff_defaults)
qed

end
