(* ===== verification/Display_Contract.thy ===== *)
theory Display_Contract
  imports Display_Cold Display_Handoff
begin

text \<open>
  The two display contracts beside each other.  The source's comment asks that the cold mode
  never accept a v2 record; \<open>abi_versions_exclusive\<close> proves it, in both directions and with
  the reason given.  \<open>expect_reject\<close> and \<open>expect_cold_reject\<close> are the harness of the script's own
  regression cases.
\<close>

definition expect_reject ::
  "string \<Rightarrow> bytes \<Rightarrow> descriptor list \<Rightarrow> string \<Rightarrow> int \<times> int \<Rightarrow> unit result" where
  "expect_reject name blob descriptors expected_reason channel_cfg =
     (case validate_handoff blob descriptors channel_cfg of
        Inl (ContractError r) \<Rightarrow>
          if r \<noteq> expected_reason
          then Inl (AssertionError (name @ '': '' @ r @ '' != '' @ expected_reason)) else Inr ()
      | Inl e \<Rightarrow> Inl e
      | Inr _ \<Rightarrow> Inl (AssertionError (name @ '': contract unexpectedly accepted'')))"

definition expect_cold_reject ::
  "string \<Rightarrow> bytes \<Rightarrow> cold_hardware_state \<Rightarrow> string \<Rightarrow> unit result" where
  "expect_cold_reject name blob hardware expected_reason =
     (case validate_cold_relinquish blob hardware of
        Inl (ContractError r) \<Rightarrow>
          if r \<noteq> expected_reason
          then Inl (AssertionError (name @ '': '' @ r @ '' != '' @ expected_reason)) else Inr ()
      | Inl e \<Rightarrow> Inl e
      | Inr _ \<Rightarrow> Inl (AssertionError (name @ '': cold contract unexpectedly accepted'')))"

lemma handoff_values_header:
  "fields_le [4, 2, 2] b ! 0 = handoff_values b ''magic''"
  "fields_le [4, 2, 2] b ! 1 = handoff_values b ''abi_version''"
  unfolding handoff_values_def struct_values_def HANDOFF_FORMAT_def fields_le_append_fmt HANDOFF_FIELDS_def
  by (simp_all add: dict_get_def)

text \<open>
  C23. The two ABI versions exclude each other: whatever the live contract accepts, the cold
  validator refuses for its version, and whatever the cold contract accepts, the live
  validator refuses for its size, with any hardware state, descriptors and channel.
\<close>

theorem abi_versions_exclusive:
  "(validate_handoff b ds cfg = Inr () \<longrightarrow>
      expect_cold_reject name b hw ''abi-version'' = Inr ()) \<and>
   (validate_cold_relinquish b hw = Inr () \<longrightarrow>
      expect_reject name b ds ''structure-size'' cfg = Inr ())"
proof (intro conjI impI)
  assume "validate_handoff b ds cfg = Inr ()"
  note acc = handoff_accept_parts [OF this]
  have "first_reject (cold_header_guards b @ gs) = Some ''abi-version''" for gs
    unfolding cold_header_guards_def Let_def handoff_values_header using acc(1-3) by simp
  then show "expect_cold_reject name b hw ''abi-version'' = Inr ()"
    by (simp add: expect_cold_reject_def validate_cold_relinquish_def del: first_reject_append)
next
  assume "validate_cold_relinquish b hw = Inr ()"
  then have "length b = 192" using cold_accept_residue by blast
  then have "first_reject (handoff_header_guards b @ gs) = Some ''structure-size''" for gs
    unfolding handoff_header_guards_def Let_def by simp
  then show "expect_reject name b ds ''structure-size'' cfg = Inr ()"
    by (simp add: expect_reject_def validate_handoff_def del: first_reject_append)
qed

theorem abi_versions_exclusive_witness:
  "\<exists>b. validate_cold_relinquish b ColdHardwareState = Inr () \<and>
     expect_reject ''cold'' b [Descriptor, Descriptor, Descriptor] ''structure-size'' CHANNEL_CFG = Inr ()"
proof -
  obtain b where "validate_cold_relinquish b ColdHardwareState = Inr ()"
    using cold_default_accepted by blast
  with abi_versions_exclusive show ?thesis by blast
qed


lemma handoff_default_accepted:
  "\<exists>b. make_handoff [] = Inr b \<and>
     validate_handoff b [Descriptor, Descriptor, Descriptor] CHANNEL_CFG = Inr ()"
proof -
  obtain b where b: "make_handoff [] = Inr b" using make_handoff_total [of "[]"] by auto
  have same: "dict_update handoff_default_values
      (handoff_choices 0xFF 0x48040A80 0x4FF3BA80 0 63) = handoff_default_values"
    by (simp add: fun_upd_idem handoff_defaults)
  have mk: "make_handoff (handoff_choices 0xFF 0x48040A80 0x4FF3BA80 0 63) = Inr b"
    using b unfolding make_handoff_def same by simp
  have ok: "handoff_placement_ok 0x48040A80 0x4FF3BA80" "descriptor_ok 0x48040A80 Descriptor"
    by (simp_all add: handoff_placement_ok_def descriptor_ok_def Descriptor_def)
  have "validate_handoff b [Descriptor, Descriptor, Descriptor] CHANNEL_CFG = Inr ()"
    by (rule handoff_pass_make [OF _ ok(1) _ _ mk]) (use ok(2) in simp_all)
  with b show ?thesis by blast
qed


end
