(* ===== verification/Display_Ownership.thy ===== *)
theory Display_Ownership
  imports Py_Base
begin

text \<open>
  The buffer ownership model of \<^verbatim>\<open>m9-2-display-contract-test.py\<close> (\<^verbatim>\<open>OwnershipModel\<close>): three frame
  buffers in the roles front (scanned out), render (written) and queued (to be shown at the
  next rearm).  The interface \<open>mailbox\<close> says what a client relies on: a submitted frame is
  pending until the next flip, the last submission wins, and frames appear in the order of
  submission.  The interpretation \<open>tb\<close> discharges it for the model, with the buffers'
  contents as explicit state, so that tearing is a statement about the model.
\<close>

record ownership_model =
  front :: int
  render :: int
  queued :: "int option"
  active :: bool
  requests :: int
  completions :: int
  rearm_attempts :: int
  rearm_failures :: int
  generation :: int
  faulted :: bool

definition OwnershipModel :: "bool \<Rightarrow> ownership_model" where
  "OwnershipModel is_active =
     \<lparr>front = 0, render = 1, queued = None, active = is_active, requests = 0, completions = 0,
      rearm_attempts = 0, rearm_failures = 0, generation = 0, faulted = False\<rparr>"

definition buffers :: "int list" where "buffers = [0, 1, 2]"

definition assert_valid :: "ownership_model \<Rightarrow> unit result" where
  "assert_valid s = raise_on AssertionError (first_reject
     ([(front s \<notin> set buffers \<or> render s \<notin> set buffers, ''role-out-of-range''),
       (active s \<and> front s = render s, ''front-render-alias'')] @
      (case queued s of None \<Rightarrow> [] | Some q \<Rightarrow>
        [(q \<notin> set buffers \<or> q = front s, ''queued-front-alias''),
         (active s \<and> q = render s, ''queued-render-alias'')])))"

text \<open>\<^verbatim>\<open>next(index for index in range(3) if ...)\<close>.\<close>

definition next_buffer :: "(int \<Rightarrow> bool) \<Rightarrow> int result" where
  "next_buffer P = (case find P buffers of Some i \<Rightarrow> Inr i | None \<Rightarrow> Inl StopIteration)"

definition queue_render :: "ownership_model \<Rightarrow> ownership_model result" where
  "queue_render s =
     (if faulted s then Inr s
      else
        (let rendered = render s in
         if \<not> active s then
           Inr (s\<lparr>requests := (if queued s \<noteq> Some rendered then requests s + 1 else requests s),
                  queued := Some rendered\<rparr>)
         else
           rbind (next_buffer (\<lambda>index. index \<noteq> front s \<and> index \<noteq> rendered)) (\<lambda>index.
           let s' = s\<lparr>queued := Some rendered, requests := requests s + 1, render := index\<rparr> in
           rbind (assert_valid s') (\<lambda>_. Inr s'))))"

definition start :: "ownership_model \<Rightarrow> ownership_model result" where
  "start s =
     (if active s then Inl (AssertionError ''already-active'')
      else
        (let s1 = s\<lparr>front := (case queued s of Some q \<Rightarrow> q | None \<Rightarrow> front s), queued := None\<rparr> in
         rbind (if render s1 = front s1 then next_buffer (\<lambda>index. index \<noteq> front s1) else Inr (render s1))
           (\<lambda>index.
           let s2 = s1\<lparr>render := index, active := True, generation := generation s1 + 1\<rparr> in
           rbind (assert_valid s2) (\<lambda>_. Inr s2))))"

definition roles :: "ownership_model \<Rightarrow> int \<times> int \<times> int option" where
  "roles s = (front s, render s, queued s)"

definition complete :: "bool \<Rightarrow> ownership_model \<Rightarrow> ownership_model result" where
  "complete rearm_success s =
     (let before = roles s; s1 = s\<lparr>rearm_attempts := rearm_attempts s + 1\<rparr> in
      if \<not> rearm_success then
        (let s2 = s1\<lparr>rearm_failures := rearm_failures s1 + 1\<rparr> in
         if roles s2 \<noteq> before then Inl (AssertionError ''failed-rearm-mutated-roles'')
         else rbind (assert_valid s2) (\<lambda>_. Inr s2))
      else if faulted s1 then
        (let s2 = s1\<lparr>generation := generation s1 + 1\<rparr> in
         if roles s2 \<noteq> before then Inl (AssertionError ''faulted-rearm-mutated-roles'')
         else rbind (assert_valid s2) (\<lambda>_. Inr s2))
      else
        (let s2 = (case queued s1 of None \<Rightarrow> s1
               | Some q \<Rightarrow> s1\<lparr>front := q, queued := None, completions := completions s1 + 1\<rparr>);
             s3 = s2\<lparr>generation := generation s2 + 1\<rparr> in
         rbind (assert_valid s3) (\<lambda>_. Inr s3)))"

section \<open>The invariant\<close>

text \<open>What \<open>assert_valid\<close> checks, as a predicate, and its strengthening while scanning out.\<close>

definition own_ok :: "ownership_model \<Rightarrow> bool" where
  "own_ok s = (assert_valid s = Inr ())"

lemma buffers_iff [simp]: "i \<in> set buffers \<longleftrightarrow> i = 0 \<or> i = 1 \<or> i = 2"
  by (simp add: buffers_def)

lemma own_ok_iff:
  "own_ok s \<longleftrightarrow> front s \<in> set buffers \<and> render s \<in> set buffers \<and> (active s \<longrightarrow> front s \<noteq> render s) \<and>
     (\<forall>q. queued s = Some q \<longrightarrow> q \<in> set buffers \<and> q \<noteq> front s \<and> (active s \<longrightarrow> q \<noteq> render s))"
  unfolding own_ok_def assert_valid_def raise_on_simps first_reject_None_simps
  by (cases "queued s") (simp_all only: option.case first_reject_None_simps, auto)

lemma assert_valid_ok [simp]: "own_ok s \<Longrightarrow> assert_valid s = Inr ()"
  by (simp add: own_ok_def)

lemma next_buffer_Inr:
  "next_buffer P = Inr i \<Longrightarrow> i \<in> set buffers \<and> P i"
  by (auto simp: next_buffer_def find_Some_iff buffers_def nth_Cons' split: option.splits if_splits)

lemma next_buffer_total: "i \<in> set buffers \<Longrightarrow> P i \<Longrightarrow> \<exists>j. next_buffer P = Inr j"
  by (auto simp: next_buffer_def find_None_iff split: option.split)

lemma two_of_three: "\<exists>i \<in> set buffers. i \<noteq> a \<and> i \<noteq> (b :: int)"
  unfolding buffers_def by simp arith

lemma next_buffer_two: "\<exists>i. next_buffer (\<lambda>index. index \<noteq> a \<and> index \<noteq> b) = Inr i"
proof -
  obtain i where "i \<in> set buffers" "i \<noteq> a \<and> i \<noteq> b" using two_of_three [of a b] by blast
  then show ?thesis by (rule next_buffer_total [where P = "\<lambda>index. index \<noteq> a \<and> index \<noteq> b"])
qed

lemma queue_render_ok:
  assumes "own_ok s" and "active s"
  shows "\<exists>s'. queue_render s = Inr s' \<and> own_ok s' \<and> active s' \<and> faulted s' = faulted s \<and>
     (if faulted s then s' = s
      else front s' = front s \<and> queued s' = Some (render s) \<and> requests s' = requests s + 1 \<and>
        completions s' = completions s)"
proof (cases "faulted s")
  case False
  obtain i where i: "next_buffer (\<lambda>index. index \<noteq> front s \<and> index \<noteq> render s) = Inr i"
    using next_buffer_two [of "front s" "render s"] ..
  let ?s = "s\<lparr>queued := Some (render s), requests := requests s + 1, render := i\<rparr>"
  have "own_ok ?s" using assms next_buffer_Inr [OF i] by (auto simp: own_ok_iff)
  with False assms(2) i show ?thesis by (simp add: queue_render_def)
qed (use assms in \<open>simp add: queue_render_def\<close>)

lemma complete_ok:
  assumes "own_ok s" and "active s"
  shows "\<exists>s'. complete ok s = Inr s' \<and> own_ok s' \<and> active s' \<and> faulted s' = faulted s \<and>
     render s' = render s \<and> rearm_attempts s' = rearm_attempts s + 1 \<and>
     (if \<not> ok \<or> faulted s then front s' = front s \<and> queued s' = queued s \<and> completions s' = completions s
      else front s' = (case queued s of Some q \<Rightarrow> q | None \<Rightarrow> front s) \<and> queued s' = None \<and>
        completions s' = completions s + (if queued s = None then 0 else 1))"
proof -
  let ?n = "rearm_attempts s + 1"
  consider "\<not> ok" | "ok" "faulted s" | "ok" "\<not> faulted s" by blast
  then show ?thesis
  proof cases
    case 1
    let ?s = "s\<lparr>rearm_attempts := ?n, rearm_failures := rearm_failures s + 1\<rparr>"
    have "own_ok ?s" using assms(1) by (simp add: own_ok_iff)
    with 1 assms(2) show ?thesis by (simp add: complete_def roles_def)
  next
    case 2
    let ?s = "s\<lparr>rearm_attempts := ?n, generation := generation s + 1\<rparr>"
    have "own_ok ?s" using assms(1) by (simp add: own_ok_iff)
    with 2 assms(2) show ?thesis by (simp add: complete_def roles_def)
  next
    case 3
    let ?s1 = "s\<lparr>rearm_attempts := ?n\<rparr>"
    let ?s = "(case queued s of None \<Rightarrow> ?s1
      | Some q \<Rightarrow> ?s1\<lparr>front := q, queued := None, completions := completions s + 1\<rparr>)
      \<lparr>generation := generation s + 1\<rparr>"
    have "own_ok ?s" using assms by (auto simp: own_ok_iff split: option.split)
    with 3 assms(2) show ?thesis by (cases "queued s") (simp_all add: complete_def)
  qed
qed

lemma start_ok:
  assumes "front s \<in> set buffers" and "render s \<in> set buffers" and "\<not> active s"
    and "\<And>q. queued s = Some q \<Longrightarrow> q \<in> set buffers"
  shows "\<exists>s'. start s = Inr s' \<and> own_ok s' \<and> active s' \<and> faulted s' = faulted s \<and>
     front s' = (case queued s of Some q \<Rightarrow> q | None \<Rightarrow> front s) \<and> queued s' = None"
proof -
  define f where "f = (case queued s of Some q \<Rightarrow> q | None \<Rightarrow> front s)"
  let ?s1 = "s\<lparr>front := f, queued := None\<rparr>"
  have f: "f \<in> set buffers" using assms(1,4) by (auto simp: f_def split: option.split)
  have "\<exists>j. next_buffer (\<lambda>index. index \<noteq> f) = Inr j"
    using next_buffer_two [of f f] by simp
  then obtain i where i: "(if render s = f then next_buffer (\<lambda>index. index \<noteq> f) else Inr (render s)) = Inr i"
    by (cases "render s = f") auto
  have "i \<in> set buffers \<and> i \<noteq> f"
    using i assms(2) next_buffer_Inr [of "\<lambda>index. index \<noteq> f" i] by (auto split: if_splits)
  then have ok: "own_ok (?s1\<lparr>render := i, active := True, generation := generation s + 1\<rparr>)"
    using f by (auto simp: own_ok_iff)
  have "start s = Inr (?s1\<lparr>render := i, active := True, generation := generation s + 1\<rparr>)"
  proof (cases "render s = f")
    case True
    with i ok assms(3) show ?thesis unfolding start_def Let_def f_def [symmetric] by simp
  next
    case False
    with i have "i = render s" by simp
    with False ok assms(3) show ?thesis unfolding start_def Let_def f_def [symmetric] by simp
  qed
  with ok show ?thesis by (simp add: f_def)
qed

section \<open>Runs\<close>

text \<open>
  The operations the display path and its tests perform, in any interleaving; \<open>Fault\<close> is the
  assignment \<^verbatim>\<open>model.faulted = True\<close>.
\<close>

datatype own_event = Queue_render | Start | Complete bool | Fault

fun own_step :: "own_event \<Rightarrow> ownership_model \<Rightarrow> ownership_model result" where
  "own_step Queue_render s = queue_render s"
| "own_step Start s = start s"
| "own_step (Complete ok) s = complete ok s"
| "own_step Fault s = Inr (s\<lparr>faulted := True\<rparr>)"

fun own_run :: "own_event list \<Rightarrow> ownership_model \<Rightarrow> ownership_model result" where
  "own_run [] s = Inr s"
| "own_run (e # es) s = rbind (own_step e s) (own_run es)"

inductive own_reachable :: "ownership_model \<Rightarrow> ownership_model \<Rightarrow> bool" for s0 where
  init: "own_reachable s0 s0"
| step: "own_reachable s0 s \<Longrightarrow> own_step e s = Inr s' \<Longrightarrow> own_reachable s0 s'"

lemma own_run_reachable:
  "own_run es s = Inr s' \<Longrightarrow> own_reachable s0 s \<Longrightarrow> own_reachable s0 s'"
  by (induction es arbitrary: s) (auto elim!: rbind_InrE intro: own_reachable.step)

lemma own_run_append: "own_run (es @ fs) s = rbind (own_run es s) (own_run fs)"
  by (induction es arbitrary: s) (simp_all add: rbind_def split: sum.split)

lemma own_step_active:
  assumes "own_ok s" and "active s"
  shows "own_step e s = Inl (AssertionError ''already-active'') \<and> e = Start \<or>
     (\<exists>s'. own_step e s = Inr s' \<and> own_ok s' \<and> active s')"
proof (cases e)
  case Fault
  then show ?thesis using assms by (simp add: own_ok_iff)
next
  case Start
  then show ?thesis using assms by (simp add: start_def)
qed (use queue_render_ok [OF assms] complete_ok [OF assms] in auto)

lemma own_ok_initial: "own_ok (OwnershipModel is_active)"
  by (simp add: OwnershipModel_def own_ok_iff)

lemma reachable_ok:
  assumes "own_reachable (OwnershipModel True) s"
  shows "own_ok s \<and> active s"
  using assms
proof (induction rule: own_reachable.induct)
  case init
  show ?case using own_ok_initial [of True] by (simp add: OwnershipModel_def)
next
  case (step s e s')
  then show ?case using own_step_active [of s e] by auto
qed

text \<open>
  C2. Scan-out safety: from the active initial model, no interleaving of rendering, rearms
  (successful or not) and faults ever fails an assertion, and in every state reached front,
  render and queued buffer are pairwise distinct buffers.
\<close>

theorem ownership_invariant:
  assumes "own_reachable (OwnershipModel True) s"
  shows "active s \<and> front s \<noteq> render s \<and>
     (\<forall>q. queued s = Some q \<longrightarrow> q \<noteq> front s \<and> q \<noteq> render s) \<and>
     {front s, render s} \<union> set_option (queued s) \<subseteq> {0, 1, 2} \<and>
     (\<forall>e. e \<noteq> Start \<longrightarrow> (\<exists>s'. own_step e s = Inr s'))"
proof -
  from reachable_ok [OF assms] have ok: "own_ok s" "active s" by auto
  from own_step_active [OF ok] have "\<forall>e. e \<noteq> Start \<longrightarrow> (\<exists>s'. own_step e s = Inr s')" by blast
  with ok show ?thesis by (auto simp: own_ok_iff)
qed

theorem ownership_invariant_witness:
  "\<exists>s. own_run [Queue_render, Queue_render, Complete False, Fault, Complete True] (OwnershipModel True)
       = Inr s \<and> front s \<noteq> render s \<and> (\<exists>s'. own_step Queue_render s = Inr s')"
proof -
  have "\<exists>s. own_run [Queue_render, Queue_render, Complete False, Fault, Complete True]
      (OwnershipModel True) = Inr s"
    by (simp add: OwnershipModel_def queue_render_def complete_def roles_def next_buffer_def
        buffers_def assert_valid_def)
  then obtain s where s: "own_run [Queue_render, Queue_render, Complete False, Fault, Complete True]
      (OwnershipModel True) = Inr s" ..
  then have "own_reachable (OwnershipModel True) s"
    using own_run_reachable own_reachable.init by blast
  with s show ?thesis using ownership_invariant [of s] by blast
qed

text \<open>
  The startup path: an inactive model may render any number of times (always the same
  buffer) and fault; \<open>start\<close> then shows the rendered frame and is active and valid.
\<close>

lemma inactive_queue:
  assumes "\<not> active s" and "\<forall>e \<in> set es. e = Queue_render \<or> e = Fault"
  shows "\<exists>s'. own_run es s = Inr s' \<and> \<not> active s' \<and> front s' = front s \<and> render s' = render s \<and>
     (queued s' = queued s \<or> queued s' = Some (render s)) \<and>
     (faulted s \<longrightarrow> faulted s' \<and> queued s' = queued s) \<and>
     (Fault \<notin> set es \<and> \<not> faulted s \<longrightarrow> \<not> faulted s' \<and> (es \<noteq> [] \<longrightarrow> queued s' = Some (render s)))"
  using assms
proof (induction es arbitrary: s)
  case (Cons e es)
  have es: "\<forall>e \<in> set es. e = Queue_render \<or> e = Fault" using Cons.prems(2) by simp
  consider "e = Fault" | "e = Queue_render" "faulted s" | "e = Queue_render" "\<not> faulted s"
    using Cons.prems(2) by auto
  then show ?case
  proof cases
    case 1
    with Cons.IH [of "s\<lparr>faulted := True\<rparr>", OF _ es] Cons.prems(1) show ?thesis by auto
  next
    case 2
    then have "own_step e s = Inr s" by (simp add: queue_render_def)
    with Cons.IH [OF Cons.prems(1) es] 2 show ?thesis by simp
  next
    case 3
    let ?s = "s\<lparr>requests := (if queued s \<noteq> Some (render s) then requests s + 1 else requests s),
      queued := Some (render s)\<rparr>"
    have "own_step e s = Inr ?s" using 3 Cons.prems(1) by (simp add: queue_render_def)
    moreover obtain s' where "own_run es ?s = Inr s'" "\<not> active s'" "front s' = front s"
      "render s' = render s" "queued s' = Some (render s)" "Fault \<notin> set es \<longrightarrow> \<not> faulted s'"
      using Cons.IH [of ?s, OF _ es] Cons.prems(1) 3 by auto
    ultimately show ?thesis using 3 by simp
  qed
qed simp



section \<open>The mailbox the triple buffer implements\<close>

text \<open>
  A client's events are submissions (\<open>Some x\<close>) and flips (\<open>None\<close>); \<open>mb_displayed\<close> lists the frames
  put on the screen, one for every flip that had a frame pending.
\<close>

primrec mb_exec :: "('f \<Rightarrow> 's \<Rightarrow> 's) \<Rightarrow> ('s \<Rightarrow> 's) \<Rightarrow> 'f option list \<Rightarrow> 's \<Rightarrow> 's" where
  "mb_exec submit flip [] s = s"
| "mb_exec submit flip (e # es) s =
     mb_exec submit flip es (case e of Some x \<Rightarrow> submit x s | None \<Rightarrow> flip s)"

primrec mb_displayed ::
  "('s \<Rightarrow> 'f option) \<Rightarrow> ('f \<Rightarrow> 's \<Rightarrow> 's) \<Rightarrow> ('s \<Rightarrow> 's) \<Rightarrow> 'f option list \<Rightarrow> 's \<Rightarrow> 'f list" where
  "mb_displayed pending submit flip [] s = []"
| "mb_displayed pending submit flip (e # es) s = (case e of
       Some x \<Rightarrow> mb_displayed pending submit flip es (submit x s)
     | None \<Rightarrow> (case pending s of Some x \<Rightarrow> [x] | None \<Rightarrow> []) @
         mb_displayed pending submit flip es (flip s))"

definition submitted :: "'f option list \<Rightarrow> 'f list" where
  "submitted es = List.map_filter (\<lambda>e. e) es"

text \<open>
  What a renderer relies on: a shown frame, at most one pending frame, submission replacing
  the pending frame without touching the shown one, and a flip that shows the pending frame.
\<close>

locale mailbox =
  fixes inv :: "'s \<Rightarrow> bool" and shown :: "'s \<Rightarrow> 'f" and pending :: "'s \<Rightarrow> 'f option"
    and submit :: "'f \<Rightarrow> 's \<Rightarrow> 's" and flip :: "'s \<Rightarrow> 's"
  assumes submit_inv: "inv s \<Longrightarrow> inv (submit x s)"
    and flip_inv: "inv s \<Longrightarrow> inv (flip s)"
    and shown_submit: "inv s \<Longrightarrow> shown (submit x s) = shown s"
    and pending_submit: "inv s \<Longrightarrow> pending (submit x s) = Some x"
    and shown_flip: "inv s \<Longrightarrow> shown (flip s) = (case pending s of Some x \<Rightarrow> x | None \<Rightarrow> shown s)"
    and pending_flip: "inv s \<Longrightarrow> pending (flip s) = None"
begin

lemma exec_inv: "inv s \<Longrightarrow> inv (mb_exec submit flip es s)"
  by (induction es arbitrary: s) (simp_all add: submit_inv flip_inv split: option.split)

lemma displayed_order:
  "inv s \<Longrightarrow> subseq (mb_displayed pending submit flip es s) (case_option [] (\<lambda>x. [x]) (pending s) @ submitted es)"
proof (induction es arbitrary: s)
  case (Cons e es)
  show ?case
  proof (cases e)
    case None
    with Cons.IH [of "flip s"] Cons.prems show ?thesis
      by (simp add: flip_inv pending_flip submitted_def map_filter_simps split: option.split)
  next
    case (Some x)
    with Cons.IH [of "submit x s"] Cons.prems show ?thesis
      by (auto simp: submit_inv pending_submit submitted_def map_filter_simps
          split: option.split intro: subseq_Cons')
  qed
qed simp

lemma flip_shows_last_submission:
  assumes "inv s" and "xs \<noteq> []"
  shows "shown (flip (mb_exec submit flip (map Some xs) s)) = last xs"
proof -
  have "pending (mb_exec submit flip (map Some xs) s) = Some (last xs)"
    using assms
  proof (induction xs arbitrary: s)
    case (Cons x xs)
    then show ?case by (cases xs) (simp_all add: submit_inv pending_submit)
  qed simp
  with exec_inv [OF assms(1)] show ?thesis by (simp add: shown_flip)
qed

end

text \<open>
  The triple buffer with contents: rendering a frame writes the render buffer and queues it;
  a flip is a successful rearm.  Both are total on the invariant, by \<open>queue_render_ok\<close> and
  \<open>complete_ok\<close>.
\<close>

type_synonym 'f screen = "ownership_model \<times> (int \<Rightarrow> 'f)"

definition tb_inv :: "'f screen \<Rightarrow> bool" where
  "tb_inv = (\<lambda>(s, bufs). own_ok s \<and> active s \<and> \<not> faulted s)"

definition tb_shown :: "'f screen \<Rightarrow> 'f" where
  "tb_shown = (\<lambda>(s, bufs). bufs (front s))"

definition tb_pending :: "'f screen \<Rightarrow> 'f option" where
  "tb_pending = (\<lambda>(s, bufs). map_option bufs (queued s))"

definition tb_submit :: "'f \<Rightarrow> 'f screen \<Rightarrow> 'f screen" where
  "tb_submit x = (\<lambda>(s, bufs).
     (case queue_render s of Inr s' \<Rightarrow> (s', bufs(render s := x)) | Inl _ \<Rightarrow> (s, bufs)))"

definition tb_flip :: "'f screen \<Rightarrow> 'f screen" where
  "tb_flip = (\<lambda>(s, bufs). (case complete True s of Inr s' \<Rightarrow> (s', bufs) | Inl _ \<Rightarrow> (s, bufs)))"

lemmas tb_defs = tb_inv_def tb_shown_def tb_pending_def tb_submit_def tb_flip_def

interpretation tb: mailbox tb_inv tb_shown tb_pending tb_submit tb_flip
proof
  fix t :: "'f screen" and x :: 'f
  obtain s bufs where t: "t = (s, bufs)" by (cases t)
  assume "tb_inv t"
  then have inv: "own_ok s" "active s" "\<not> faulted s" by (auto simp: t tb_inv_def)
  obtain q where q: "queue_render s = Inr q" "own_ok q" "active q" "\<not> faulted q" "front q = front s"
    "queued q = Some (render s)" using queue_render_ok [OF inv(1,2)] inv(3) by auto
  obtain c where c: "complete True s = Inr c" "own_ok c" "active c" "\<not> faulted c" "queued c = None"
    "front c = (case queued s of Some q \<Rightarrow> q | None \<Rightarrow> front s)"
    using complete_ok [OF inv(1,2), of True] inv(3) by auto
  have "front s \<noteq> render s" using inv(1,2) by (simp add: own_ok_iff)
  with q c show "tb_inv (tb_submit x t)" "tb_inv (tb_flip t)" "tb_shown (tb_submit x t) = tb_shown t"
    "tb_pending (tb_submit x t) = Some x" "tb_pending (tb_flip t) = None"
    "tb_shown (tb_flip t) = (case tb_pending t of Some x \<Rightarrow> x | None \<Rightarrow> tb_shown t)"
    by (simp_all add: t tb_defs split: option.split)
qed

text \<open>
  C11. The triple buffer refines a one-place mailbox whose last submission wins: the frames put
  on the screen appear in the order in which they were rendered, none twice, and a flip after
  any run of renders shows the last one, whatever the initial buffer contents.
\<close>

theorem ownership_refines_mailbox:
  "subseq (mb_displayed tb_pending tb_submit tb_flip es (OwnershipModel True, bufs)) (submitted es) \<and>
   tb_shown (tb_flip (mb_exec tb_submit tb_flip (es @ map Some (xs @ [x])) (OwnershipModel True, bufs))) = x"
proof
  let ?t = "(OwnershipModel True, bufs)"
  have inv: "tb_inv ?t" using own_ok_initial [of True] by (simp add: tb_inv_def OwnershipModel_def)
  moreover have "tb_pending ?t = None" by (simp add: tb_pending_def OwnershipModel_def)
  ultimately show "subseq (mb_displayed tb_pending tb_submit tb_flip es ?t) (submitted es)"
    using tb.displayed_order [of ?t es] by simp
  have split: "mb_exec tb_submit tb_flip (es @ fs) t =
      mb_exec tb_submit tb_flip fs (mb_exec tb_submit tb_flip es t)" for fs t
    by (induction es arbitrary: t) simp_all
  show "tb_shown (tb_flip (mb_exec tb_submit tb_flip (es @ map Some (xs @ [x])) ?t)) = x"
    unfolding split
    using tb.flip_shows_last_submission [OF tb.exec_inv [OF inv, of es], of "xs @ [x]"] by simp
qed

lemma failed_rearms:
  assumes "own_ok s" and "active s"
  shows "\<exists>s'. own_run (replicate n (Complete False)) s = Inr s' \<and> own_ok s' \<and> active s' \<and>
     faulted s' = faulted s \<and> roles s' = roles s \<and> completions s' = completions s"
  using assms
proof (induction n arbitrary: s)
  case (Suc n)
  from complete_ok [OF Suc.prems, of False] obtain s1 where "complete False s = Inr s1" "own_ok s1"
    "active s1" "faulted s1 = faulted s" "roles s1 = roles s" "completions s1 = completions s"
    by (auto simp: roles_def)
  with Suc.IH [of s1] show ?case by simp
qed simp

text \<open>
  C27. Liveness: in any reachable state without a fault, the frame just rendered is on the
  screen after the next successful rearm, however many rearms fail before it, and counts as
  exactly one completion.
\<close>

theorem rendered_frame_is_shown:
  assumes "own_reachable (OwnershipModel True) s" and "\<not> faulted s"
  shows "\<exists>s'. own_run ([Queue_render] @ replicate n (Complete False) @ [Complete True]) s = Inr s' \<and>
     front s' = render s \<and> queued s' = None \<and> completions s' = completions s + 1"
proof -
  from reachable_ok [OF assms(1)] have "own_ok s" "active s" by auto
  from queue_render_ok [OF this] assms(2) obtain q where q: "queue_render s = Inr q" "own_ok q"
    "active q" "\<not> faulted q" "queued q = Some (render s)" "completions q = completions s" by auto
  from failed_rearms [OF q(2,3)] obtain r where r: "own_run (replicate n (Complete False)) q = Inr r"
    "own_ok r" "active r" "\<not> faulted r" "queued r = Some (render s)" "completions r = completions s"
    using q by (auto simp: roles_def)
  from complete_ok [OF r(2,3), of True] r(4-6) obtain s' where "complete True r = Inr s'"
    "front s' = render s" "queued s' = None" "completions s' = completions s + 1" by auto
  with q(1) r(1) show ?thesis by (simp add: own_run_append)
qed

theorem rendered_frame_is_shown_witness:
  "\<exists>s'. own_run ([Queue_render] @ replicate 2 (Complete False) @ [Complete True]) (OwnershipModel True)
     = Inr s' \<and> front s' = 1"
  using rendered_frame_is_shown [OF own_reachable.init, of 2] by (auto simp: OwnershipModel_def)


end
