(* ===== verification/Display_Gdma.thy ===== *)
theory Display_Gdma
  imports Display_Cold
begin

text \<open>
  Readback semantics of the display DMA controller in \<^verbatim>\<open>m9-2-display-contract-test.py\<close>: registers
  are compared on their defined bits only, and the programmed video policy is compared
  without the optional active mirror.  The script's own regression of both
  (\<^verbatim>\<open>test_gdma_enable_semantics\<close>, \<^verbatim>\<open>test_native_active_mirror_semantics\<close>) is a guard list here, one
  guard per assertion, and is shown to pass.
\<close>

definition GDMA_STATUS0_DEFINED_MASK :: int where "GDMA_STATUS0_DEFINED_MASK = 0xFA3F7FFB"
definition GDMA_STATUS1_DEFINED_MASK :: int where "GDMA_STATUS1_DEFINED_MASK = 0x0000000F"
definition GDMA_COMMON_DEFINED_MASK :: int where "GDMA_COMMON_DEFINED_MASK = 0x001FFF8F"

definition GDMA_ACTIVE_ENABLE_VALUES :: "int list" where
  "GDMA_ACTIVE_ENABLE_VALUES =
     [0x023F7FE2, 0x0000000F, 0x023F7FE2, 0x0000000F, 0x001FFF8F, 0x001FFF8F]"

definition GDMA_TEARDOWN_ENABLE_VALUES :: "int list" where
  "GDMA_TEARDOWN_ENABLE_VALUES =
     [0x02000000, 0x0000000F, 0x02000000, 0x0000000F, 0x001FFE80, 0x001FFE80]"

definition GDMA_PATCH36_HARDWARE_VALUES :: "int list" where
  "GDMA_PATCH36_HARDWARE_VALUES =
     [0x07FFFFE6, 0xFFFFFFFF, 0x07FFFFE6, 0xFFFFFFFF, 0xFFFFFFFF, 0xFFFFFFFF]"

definition gdma_masks :: "int list" where
  "gdma_masks =
     [GDMA_STATUS0_DEFINED_MASK, GDMA_STATUS1_DEFINED_MASK, GDMA_STATUS0_DEFINED_MASK,
      GDMA_STATUS1_DEFINED_MASK, GDMA_COMMON_DEFINED_MASK, GDMA_COMMON_DEFINED_MASK]"

definition NATIVE_PROGRAMMED_VIDEO_POLICY :: int where
  "NATIVE_PROGRAMMED_VIDEO_POLICY =
     2 ^ 14 OR sum_list (map (\<lambda>b. 2 ^ b) [8..<14]) OR 2 ^ 15 OR 2"

definition LEGACY_ACTIVE_MIRROR_VIDEO_POLICY :: int where
  "LEGACY_ACTIVE_MIRROR_VIDEO_POLICY =
     2 ^ 8 OR sum_list (map (\<lambda>b. 2 ^ b) [2..<8]) OR 2 ^ 9 OR 2"

lemmas gdma_defs [simp] =
  GDMA_STATUS0_DEFINED_MASK_def GDMA_STATUS1_DEFINED_MASK_def GDMA_COMMON_DEFINED_MASK_def
  GDMA_ACTIVE_ENABLE_VALUES_def GDMA_TEARDOWN_ENABLE_VALUES_def GDMA_PATCH36_HARDWARE_VALUES_def
  gdma_masks_def

text \<open>
  \<^verbatim>\<open>zip(values, masks, expected, strict=True)\<close> under \<^verbatim>\<open>all\<close>: the triples are drawn one by one, a
  wrong register ends the loop with \<open>False\<close>, and only then does a missing or surplus register
  not matter; if the lists end at different times before that, \<^verbatim>\<open>zip\<close> raises.
\<close>

fun all_registers :: "int list \<Rightarrow> int list \<Rightarrow> int list \<Rightarrow> bool result" where
  "all_registers [] [] [] = Inr True"
| "all_registers (a # as) (m # ms) (e # es) =
     (if a AND m = e then all_registers as ms es else Inr False)"
| "all_registers _ _ _ = Inl (ValueError ''zip() arguments have different lengths'')"

definition gdma_enable_semantics_valid :: "int list \<Rightarrow> int list \<Rightarrow> bool result" where
  "gdma_enable_semantics_valid values expected = all_registers values gdma_masks expected"

lemma all_registers_True_iff:
  "all_registers as ms es = Inr True \<longleftrightarrow>
     length as = length ms \<and> length es = length ms \<and>
     (\<forall>i < length ms. as ! i AND ms ! i = es ! i)"
proof (induction as ms es rule: all_registers.induct)
  case (2 a as m ms e es)
  then show ?case by (auto simp: All_less_Suc2)
qed auto

text \<open>
  C29. The readback check compares exactly the defined bits: six registers are accepted if and
  only if each agrees with the expected value on every bit its mask defines and the expected
  value sets no undefined bit; the undefined bits read back are irrelevant.
\<close>

theorem gdma_semantics_defined_bits:
  assumes "length values = 6" and "length expected = 6"
  shows "gdma_enable_semantics_valid values expected = Inr True \<longleftrightarrow>
     (\<forall>i < 6. \<forall>n. bit (expected ! i) n = (bit (values ! i) n \<and> bit (gdma_masks ! i) n))"
proof -
  have "gdma_enable_semantics_valid values expected = Inr True \<longleftrightarrow>
      (\<forall>i < length gdma_masks. values ! i AND gdma_masks ! i = expected ! i)"
    unfolding gdma_enable_semantics_valid_def all_registers_True_iff using assms by simp
  also have "length gdma_masks = 6" by simp
  finally show ?thesis by (simp add: bit_eq_iff bit_and_iff del: gdma_masks_def) blast
qed

theorem gdma_semantics_defined_bits_witness:
  "gdma_enable_semantics_valid GDMA_PATCH36_HARDWARE_VALUES GDMA_ACTIVE_ENABLE_VALUES = Inr True \<and>
   (\<forall>n. bit (GDMA_ACTIVE_ENABLE_VALUES ! 5) n =
      (bit (GDMA_PATCH36_HARDWARE_VALUES ! 5) n \<and> bit (gdma_masks ! 5) n))"
proof -
  have ok: "gdma_enable_semantics_valid GDMA_PATCH36_HARDWARE_VALUES GDMA_ACTIVE_ENABLE_VALUES = Inr True"
    by (simp add: gdma_enable_semantics_valid_def)
  have len: "length GDMA_PATCH36_HARDWARE_VALUES = 6" "length GDMA_ACTIVE_ENABLE_VALUES = 6" by simp_all
  have "(5::nat) < 6" by simp
  with ok gdma_semantics_defined_bits [OF len] show ?thesis by blast
qed

section \<open>The regression of the readback semantics\<close>

definition patch36_delta :: "int list" where
  "patch36_delta = map2 (XOR) GDMA_PATCH36_HARDWARE_VALUES GDMA_ACTIVE_ENABLE_VALUES"

definition teardown_raw :: "int list" where
  "teardown_raw = map2 (\<lambda>expected mask. expected OR (NOT mask AND 0xFFFFFFFF))
     GDMA_TEARDOWN_ENABLE_VALUES gdma_masks"

definition patch38_arm_snapshot :: "string \<Rightarrow> int" where
  "patch38_arm_snapshot = dict_get
     [(''top'', 0), (''status0'', 0), (''status1'', 0), (''common'', 0), (''cfg'', 3), (''chen'', 1),
      (''cfg_lo'', 0xF), (''cfg_hi'', 0x0A020001), (''llp'', 1), (''sar'', 0x48031500),
      (''ctrl_hi'', 0xC0108840)]"

definition gdma_test_guards :: "(bool \<times> string) list" where
  "gdma_test_guards =
     [(gdma_masks \<noteq> [0xFA3F7FFB, 0x0000000F, 0xFA3F7FFB, 0x0000000F, 0x001FFF8F, 0x001FFF8F],
       ''gdma-defined-masks''),
      (GDMA_ACTIVE_ENABLE_VALUES \<noteq>
         [0x023F7FE2, 0x0000000F, 0x023F7FE2, 0x0000000F, 0x001FFF8F, 0x001FFF8F],
       ''gdma-active-enable-values''),
      (GDMA_TEARDOWN_ENABLE_VALUES \<noteq>
         [0x02000000, 0x0000000F, 0x02000000, 0x0000000F, 0x001FFE80, 0x001FFE80],
       ''gdma-teardown-enable-values''),
      (GDMA_PATCH36_HARDWARE_VALUES \<noteq>
         [0x07FFFFE6, 0xFFFFFFFF, 0x07FFFFE6, 0xFFFFFFFF, 0xFFFFFFFF, 0xFFFFFFFF],
       ''gdma-patch36-hardware-values''),
      (patch36_delta \<noteq>
         [0x05C08004, 0xFFFFFFF0, 0x05C08004, 0xFFFFFFF0, 0xFFE00070, 0xFFE00070],
       ''gdma-patch36-hardware-delta''),
      (list_ex (\<lambda>d. d \<noteq> 0) (map2 (AND) patch36_delta gdma_masks), ''gdma-patch36-defined-bit-delta''),
      (GDMA_PATCH36_HARDWARE_VALUES = GDMA_ACTIVE_ENABLE_VALUES,
       ''gdma-patch36-exact-equality-would-pass''),
      (gdma_enable_semantics_valid GDMA_PATCH36_HARDWARE_VALUES GDMA_ACTIVE_ENABLE_VALUES \<noteq> Inr True,
       ''gdma-patch36-semantic-readback''),
      (gdma_enable_semantics_valid GDMA_ACTIVE_ENABLE_VALUES GDMA_ACTIVE_ENABLE_VALUES \<noteq> Inr True,
       ''gdma-active-clean-readback''),
      (teardown_raw \<noteq> [0x07C08004, 0xFFFFFFFF, 0x07C08004, 0xFFFFFFFF, 0xFFFFFEF0, 0xFFFFFEF0],
       ''gdma-teardown-reserved-one-readback''),
      (gdma_enable_semantics_valid teardown_raw GDMA_TEARDOWN_ENABLE_VALUES \<noteq> Inr True,
       ''gdma-teardown-semantic-readback'')] @
     map (\<lambda>(index, b).
       (gdma_enable_semantics_valid
          (GDMA_PATCH36_HARDWARE_VALUES[index := GDMA_PATCH36_HARDWARE_VALUES ! index XOR 2 ^ b])
          GDMA_ACTIVE_ENABLE_VALUES = Inr True,
        ''gdma-active-defined-bit-'' @ str_nat index))
       (List.enumerate 0 [1, 0, 1, 0, 0, 0]) @
     [(gdma_enable_semantics_valid
         (GDMA_PATCH36_HARDWARE_VALUES[0 := GDMA_PATCH36_HARDWARE_VALUES ! 0 OR 1])
         GDMA_ACTIVE_ENABLE_VALUES = Inr True, ''gdma-active-defined-zero'')] @
     map (\<lambda>(index, b).
       (gdma_enable_semantics_valid (teardown_raw[index := teardown_raw ! index OR 2 ^ b])
          GDMA_TEARDOWN_ENABLE_VALUES = Inr True,
        ''gdma-teardown-writable-bit-'' @ str_nat index))
       [(0, 1), (2, 1), (4, 0), (5, 0)] @
     [(patch38_arm_snapshot ''llp'' \<noteq> 0x00000001, ''patch38-arm-fixture-terminal-llp''),
      (patch38_arm_snapshot ''sar'' - 0x500 \<noteq> 0x48031000, ''patch38-arm-fixture-sar-progress''),
      (map patch38_arm_snapshot [''cfg'', ''chen'', ''cfg_lo'', ''cfg_hi'', ''ctrl_hi''] \<noteq>
         [0x3, 0x1, 0x0000000F, 0x0A020001, 0xC0108840], ''patch38-arm-fixture-programming''),
      (patch38_arm_snapshot ''llp'' = (COLD_DESCRIPTOR_ADDRESS OR 0x1),
       ''patch38-arm-fixture-old-llp-check-would-pass''),
      (\<not> (patch38_arm_snapshot ''chen'' AND 0x1 \<noteq> 0 \<and> patch38_arm_snapshot ''status0'' = 0
           \<and> patch38_arm_snapshot ''status1'' = 0 \<and> patch38_arm_snapshot ''common'' = 0
           \<and> patch38_arm_snapshot ''top'' = 0), ''patch39-arm-fixture-stable-post-enable'')]"

definition test_gdma_enable_semantics :: "nat result" where
  "test_gdma_enable_semantics =
     rbind (raise_on AssertionError (first_reject gdma_test_guards)) (\<lambda>_. Inr (length gdma_test_guards))"

section \<open>The regression of the video policy\<close>

definition patch39_qualification_snapshot :: "(string \<times> int) list" where
  "patch39_qualification_snapshot =
     [(''generation'', 4), (''frames'', 4), (''faults'', 0), (''dma_error'', 0), (''rearm_attempts'', 5),
      (''rearm_failures'', 0), (''guards_valid'', 1), (''host_raw0'', 0), (''host_raw1'', 0),
      (''host_sticky0'', 0), (''host_sticky1'', 0), (''host_mode'', 0), (''host_vid'', 0xFF02),
      (''host_active'', 0), (''host_lpclk'', 3), (''bridge_raw'', 0), (''bridge_underruns'', 0),
      (''gdma_top'', 0), (''gdma_status0'', 0), (''gdma_status1'', 0), (''gdma_common'', 0),
      (''gdma_cfg'', 3), (''gdma_chen'', 1), (''gdma_cfg_lo'', 0xF), (''gdma_cfg_hi'', 0x0A020001),
      (''gdma_llp'', 1), (''gdma_sar'', 0x480C4A00), (''descriptor_ctrl_hi'', 0xC0108840)]"

definition video_policy_valid :: "bool \<Rightarrow> int \<Rightarrow> bool" where
  "video_policy_valid require_active_mirror host_vid =
     (host_vid = NATIVE_PROGRAMMED_VIDEO_POLICY \<and>
      (\<not> require_active_mirror \<or>
       dict_get patch39_qualification_snapshot ''host_active'' = LEGACY_ACTIVE_MIRROR_VIDEO_POLICY))"

definition mirror_test_guards :: "(bool \<times> string) list" where
  "mirror_test_guards = (let snap = dict_get patch39_qualification_snapshot in
     [(NATIVE_PROGRAMMED_VIDEO_POLICY \<noteq> 0x0000FF02, ''native-programmed-video-policy''),
      (LEGACY_ACTIVE_MIRROR_VIDEO_POLICY \<noteq> 0x000003FE, ''legacy-active-mirror-video-policy''),
      (map snd patch39_qualification_snapshot \<noteq>
         [4, 4, 0, 0, 5, 0, 1, 0, 0, 0, 0, 0, 0xFF02, 0, 3, 0, 0, 0, 0, 0, 0, 3, 1, 0xF,
          0x0A020001, 1, 0x480C4A00, 0xC0108840], ''patch39-active-zero-hardware-fixture''),
      (\<not> (snap ''generation'' = 4 \<and> snap ''frames'' = 4 \<and> snap ''rearm_attempts'' = 5 \<and>
          snap ''rearm_failures'' = 0 \<and> snap ''guards_valid'' \<noteq> 0 \<and>
          list_all (\<lambda>k. snap k = 0) [''faults'', ''dma_error'', ''host_raw0'', ''host_raw1'',
            ''host_sticky0'', ''host_sticky1'', ''bridge_raw'', ''bridge_underruns'', ''gdma_top'',
            ''gdma_status0'', ''gdma_status1'', ''gdma_common'']),
       ''patch39-active-zero-health-evidence''),
      (video_policy_valid True (snap ''host_vid''), ''patch39-active-zero-old-policy-would-pass''),
      (\<not> video_policy_valid False (snap ''host_vid''), ''patch40-active-zero-programmed-policy''),
      (video_policy_valid False (NATIVE_PROGRAMMED_VIDEO_POLICY XOR 1),
       ''patch40-programmed-policy-weakened'')])"

definition test_native_active_mirror_semantics :: "nat result" where
  "test_native_active_mirror_semantics =
     rbind (raise_on AssertionError (first_reject mirror_test_guards))
       (\<lambda>_. Inr (length mirror_test_guards))"


end
