(* ===== verification/Py_Regex.thy ===== *)
theory Py_Regex
  imports Py_Base
begin

text \<open>
  The patterns of the module \<^verbatim>\<open>re\<close> that the scripts use, with the semantics of its backtracking
  matcher: \<open>mt r st\<close> lists the ways \<open>r\<close> can match at a position in the order in which they are
  tried (greedy repetition first, left alternative first), and the match Python reports is the
  first of the whole pattern.  A position is the character before it, the text after it and
  the groups captured so far.  \<open>Bol\<close> and \<open>Eol\<close> are \<^verbatim>\<open>^\<close> and \<^verbatim>\<open>$\<close> under \<^verbatim>\<open>re.MULTILINE\<close>, \<open>Bos\<close> and
  \<open>Eos\<close> the same without it, \<open>Look\<close> is \<^verbatim>\<open>(?=...)\<close>.  The lemmas give the two facts the clients need: a pattern
  anchored to a line is matched line by line, and a template of literals and fields reads
  back exactly the fields that were printed.
\<close>

section \<open>Patterns and their matches\<close>

datatype regex =
    Cls "char \<Rightarrow> bool"
  | Lit string
  | Cat regex regex
  | Alt regex regex
  | Opt regex
  | Star regex
  | Rep nat regex
  | Grp string regex
  | Look regex
  | Bos
  | Bol
  | Eol
  | Eos

type_synonym groups = "(string \<times> string) list"
type_synonym mstate = "char option \<times> string \<times> groups"

fun last_char :: "char option \<Rightarrow> string \<Rightarrow> char option" where
  "last_char p [] = p"
| "last_char p (c # cs) = last_char (Some c) cs"

primrec star_match :: "(mstate \<Rightarrow> mstate list) \<Rightarrow> nat \<Rightarrow> mstate \<Rightarrow> mstate list" where
  "star_match f 0 st = [st]"
| "star_match f (Suc n) st =
     concat (map (star_match f n) (filter (\<lambda>t. length (fst (snd t)) < length (fst (snd st))) (f st))) @ [st]"

primrec rep_match :: "(mstate \<Rightarrow> mstate list) \<Rightarrow> nat \<Rightarrow> mstate \<Rightarrow> mstate list" where
  "rep_match f 0 st = [st]"
| "rep_match f (Suc n) st = concat (map (rep_match f n) (f st))"

definition group_match :: "string \<Rightarrow> (mstate \<Rightarrow> mstate list) \<Rightarrow> mstate \<Rightarrow> mstate list" where
  "group_match g f st =
     map (\<lambda>(p, rest, gs). (p, rest, gs @ [(g, take (length (fst (snd st)) - length rest) (fst (snd st)))])) (f st)"

primrec mt :: "regex \<Rightarrow> mstate \<Rightarrow> mstate list" where
  "mt (Cls P) = (\<lambda>(p, s, gs). case s of [] \<Rightarrow> [] | c # cs \<Rightarrow> if P c then [(Some c, cs, gs)] else [])"
| "mt (Lit w) = (\<lambda>(p, s, gs). if prefix w s then [(last_char p w, drop (length w) s, gs)] else [])"
| "mt (Cat q r) = (\<lambda>st. concat (map (mt r) (mt q st)))"
| "mt (Alt q r) = (\<lambda>st. mt q st @ mt r st)"
| "mt (Opt r) = (\<lambda>st. mt r st @ [st])"
| "mt (Star r) = (\<lambda>st. star_match (mt r) (length (fst (snd st))) st)"
| "mt (Rep n r) = rep_match (mt r) n"
| "mt (Grp g r) = group_match g (mt r)"
| "mt (Look r) = (\<lambda>st. if mt r st = [] then [] else [st])"
| "mt Bos = (\<lambda>(p, s, gs). if p = None then [(p, s, gs)] else [])"
| "mt Bol = (\<lambda>(p, s, gs). if p = None \<or> p = Some newline then [(p, s, gs)] else [])"
| "mt Eol = (\<lambda>(p, s, gs). if s = [] \<or> hd s = newline then [(p, s, gs)] else [])"
| "mt Eos = (\<lambda>(p, s, gs). if s = [] \<or> s = [newline] then [(p, s, gs)] else [])"

definition Plus :: "regex \<Rightarrow> regex" where "Plus r = Cat r (Star r)"
definition Cats :: "regex list \<Rightarrow> regex" where "Cats rs = foldr Cat rs (Lit [])"
text \<open>
  A match consumes a prefix of the text: what is left is a suffix, and the character before
  it is the last one consumed.
\<close>

definition consumes :: "(mstate \<Rightarrow> mstate list) \<Rightarrow> bool" where
  "consumes f \<longleftrightarrow> (\<forall>p s gs q t hs. (q, t, hs) \<in> set (f (p, s, gs)) \<longrightarrow>
     (\<exists>w. s = w @ t \<and> q = last_char p w))"

lemma consumesD:
  assumes "consumes f" and "(q, t, hs) \<in> set (f (p, s, gs))"
  obtains w where "s = w @ t" and "q = last_char p w"
  using assms unfolding consumes_def by blast

lemma last_char_append [simp]: "last_char p (v @ w) = last_char (last_char p v) w"
  by (induction v arbitrary: p) simp_all

lemma last_char_nonempty: "w \<noteq> [] \<Longrightarrow> last_char p w = Some (last w)"
  by (induction w arbitrary: p) (case_tac w; simp)+

lemma consumes_comp:
  assumes "consumes f" and "consumes g" and "(q, t, hs) \<in> set (f (p, s, gs))"
    and "(q', t', hs') \<in> set (g (q, t, hs))"
  shows "\<exists>w. s = w @ t' \<and> q' = last_char p w"
proof -
  obtain v where "s = v @ t" "q = last_char p v" using consumesD [OF assms(1,3)] .
  moreover obtain w where "t = w @ t'" "q' = last_char q w" using consumesD [OF assms(2,4)] .
  ultimately have "s = (v @ w) @ t' \<and> q' = last_char p (v @ w)" by simp
  then show ?thesis by blast
qed

lemma consumes_none: "\<exists>w. s = w @ s \<and> p = last_char p w"
  by (rule exI [of _ "[]"]) simp

lemma star_match_consumes: "consumes f \<Longrightarrow> consumes (star_match f n)"
proof (induction n)
  case 0
  show ?case using consumes_none by (auto simp: consumes_def)
next
  case (Suc n)
  show ?case unfolding consumes_def
  proof (intro allI impI)
    fix p s gs q t hs
    assume "(q, t, hs) \<in> set (star_match f (Suc n) (p, s, gs))"
    then consider "(q, t, hs) = (p, s, gs)"
      | q' t' hs' where "(q', t', hs') \<in> set (f (p, s, gs))" "(q, t, hs) \<in> set (star_match f n (q', t', hs'))"
      by auto
    then show "\<exists>w. s = w @ t \<and> q = last_char p w"
    proof cases
      case 1
      then show ?thesis using consumes_none by auto
    next
      case 2
      then show ?thesis using consumes_comp [OF Suc.prems Suc.IH [OF Suc.prems]] by blast
    qed
  qed
qed

lemma rep_match_consumes: "consumes f \<Longrightarrow> consumes (rep_match f n)"
proof (induction n)
  case 0
  show ?case using consumes_none by (auto simp: consumes_def)
next
  case (Suc n)
  show ?case unfolding consumes_def
  proof (intro allI impI)
    fix p s gs q t hs
    assume "(q, t, hs) \<in> set (rep_match f (Suc n) (p, s, gs))"
    then obtain q' t' hs' where "(q', t', hs') \<in> set (f (p, s, gs))"
      "(q, t, hs) \<in> set (rep_match f n (q', t', hs'))" by auto
    then show "\<exists>w. s = w @ t \<and> q = last_char p w"
      using consumes_comp [OF Suc.prems Suc.IH [OF Suc.prems]] by blast
  qed
qed

lemma mt_consumes: "consumes (mt r)"
proof (induction r)
  case (Cls P)
  have "\<exists>w. s = w @ t \<and> q = last_char p w" if "(q, t, hs) \<in> set (mt (Cls P) (p, s, gs))" for p s gs q t hs
    using that by (intro exI [of _ "[hd s]"]) (auto split: list.splits if_splits)
  then show ?case unfolding consumes_def by blast
next
  case (Lit w)
  show ?case by (auto simp: consumes_def prefix_def split: if_splits)
next
  case (Cat q r)
  show ?case unfolding consumes_def
  proof (intro allI impI)
    fix p s gs p' t hs
    assume "(p', t, hs) \<in> set (mt (Cat q r) (p, s, gs))"
    then obtain q' t' hs' where "(q', t', hs') \<in> set (mt q (p, s, gs))"
      "(p', t, hs) \<in> set (mt r (q', t', hs'))" by auto
    then show "\<exists>w. s = w @ t \<and> p' = last_char p w"
      using consumes_comp [OF Cat] by blast
  qed
next
  case (Star r)
  show ?case using star_match_consumes [OF Star] by (simp add: consumes_def)
next
  case (Rep n r)
  show ?case using rep_match_consumes [OF Rep] by simp
next
  case (Grp g r)
  then show ?case by (fastforce simp: consumes_def group_match_def)
next
  case (Alt q r)
  then show ?case unfolding consumes_def mt.simps set_append by blast
next
  case (Opt r)
  then show ?case using consumes_none unfolding consumes_def mt.simps set_append by auto
next
  case (Look r)
  then show ?case using consumes_none unfolding consumes_def by simp
qed (use consumes_none in \<open>auto simp: consumes_def\<close>)

lemma mt_suffix: "(q, t, hs) \<in> set (mt r (p, s, gs)) \<Longrightarrow> suffix t s"
  using mt_consumes unfolding consumes_def suffix_def by blast

fun py_search_at :: "regex \<Rightarrow> char option \<Rightarrow> string \<Rightarrow> (string \<times> mstate) option" where
  "py_search_at r p [] = (case mt r (p, [], []) of [] \<Rightarrow> None | m # _ \<Rightarrow> Some ([], m))"
| "py_search_at r p (c # cs) = (case mt r (p, c # cs, []) of
     [] \<Rightarrow> py_search_at r (Some c) cs | m # _ \<Rightarrow> Some (c # cs, m))"

lemma py_search_at_suffix:
  assumes "py_search_at r p s = Some (start, q, rest, gs)"
  shows "suffix start s \<and> suffix rest start"
  using assms
proof (induction r p s rule: py_search_at.induct)
  case (1 r p)
  then show ?case using mt_suffix [of q rest gs r p "[]" "[]"] by (auto split: list.splits)
next
  case (2 r p c cs)
  show ?case
  proof (cases "mt r (p, c # cs, [])")
    case Nil
    with 2 show ?thesis by (auto intro: suffix_order.trans suffix_ConsI)
  next
    case (Cons m ms)
    with 2 have "start = c # cs" "(q, rest, gs) \<in> set (mt r (p, c # cs, []))" by auto
    then show ?thesis using mt_suffix by blast
  qed
qed

text \<open>
  \<^verbatim>\<open>finditer\<close>: for each match the text from its start, the text after its end, its groups.
  No pattern of the scripts matches the empty string; on one that does the search goes on
  one character later.
\<close>

function py_finditer_at :: "regex \<Rightarrow> char option \<Rightarrow> string \<Rightarrow> (string \<times> string \<times> groups) list" where
  "py_finditer_at r p s = (case py_search_at r p s of
     None \<Rightarrow> []
   | Some (start, q, rest, gs) \<Rightarrow> (start, rest, gs) #
       (if length rest < length start then py_finditer_at r q rest
        else (case rest of [] \<Rightarrow> [] | c # cs \<Rightarrow> py_finditer_at r (Some c) cs)))"
  by pat_completeness auto
termination
proof (relation "measure (\<lambda>(r, p, s). length s)", goal_cases)
  case (2 r p s x start y q z rest gs)
  then have "suffix start s" using py_search_at_suffix by auto
  with 2 show ?case by (auto dest: suffix_length_le)
next
  case (3 r p s x start y q z rest gs c cs)
  then have "suffix start s" "suffix rest start" using py_search_at_suffix [of r p s start q rest gs] by auto
  with 3 show ?case by (auto dest!: suffix_length_le)
qed simp

declare py_finditer_at.simps [simp del]

definition py_search :: "regex \<Rightarrow> string \<Rightarrow> mstate option" where
  "py_search r s = map_option snd (py_search_at r None s)"

definition py_finditer :: "regex \<Rightarrow> string \<Rightarrow> (string \<times> string \<times> groups) list" where
  "py_finditer r s = py_finditer_at r None s"

definition groups_of :: "regex \<Rightarrow> string \<Rightarrow> groups list" where
  "groups_of r s = map (snd \<circ> snd) (py_finditer r s)"

section \<open>Matching line by line\<close>

text \<open>Patterns that cannot look at or across a line break.\<close>

primrec nl_free :: "regex \<Rightarrow> bool" where
  "nl_free (Cls P) = (\<not> P newline)"
| "nl_free (Lit w) = (newline \<notin> set w)"
| "nl_free (Cat q r) = (nl_free q \<and> nl_free r)"
| "nl_free (Alt q r) = (nl_free q \<and> nl_free r)"
| "nl_free (Opt r) = nl_free r"
| "nl_free (Star r) = nl_free r"
| "nl_free (Rep n r) = nl_free r"
| "nl_free (Grp g r) = nl_free r"
| "nl_free (Look r) = False"
| "nl_free Bos = False"
| "nl_free Bol = False"
| "nl_free Eol = True"
| "nl_free Eos = False"

definition ext :: "string \<Rightarrow> mstate \<Rightarrow> mstate" where
  "ext t = (\<lambda>(q, s, gs). (q, s @ newline # t, gs))"

definition local_to_line :: "(mstate \<Rightarrow> mstate list) \<Rightarrow> bool" where
  "local_to_line f \<longleftrightarrow> consumes f \<and>
     (\<forall>p s gs t. newline \<notin> set s \<longrightarrow> f (ext t (p, s, gs)) = map (ext t) (f (p, s, gs)))"

lemma local_to_lineD:
  "local_to_line f \<Longrightarrow> newline \<notin> set (fst (snd st)) \<Longrightarrow> f (ext t st) = map (ext t) (f st)"
  by (cases st) (simp add: local_to_line_def)

lemma consumes_newline_free:
  assumes "consumes f" and "u \<in> set (f st)" and "newline \<notin> set (fst (snd st))"
  shows "newline \<notin> set (fst (snd u))"
proof -
  obtain p s gs q t hs where "st = (p, s, gs)" "u = (q, t, hs)" by (metis prod.exhaust)
  with assms show ?thesis using consumesD [of f q t hs p s gs] by (metis Un_iff fst_conv set_append snd_conv)
qed

lemma length_ext [simp]: "length (fst (snd (ext t st))) = length (fst (snd st)) + Suc (length t)"
  by (cases st) (simp add: ext_def)

lemma local_concat:
  assumes "local_to_line f" and "\<forall>u \<in> set us. newline \<notin> set (fst (snd u))"
  shows "concat (map f (map (ext t) us)) = map (ext t) (concat (map f us))"
  using assms(2) by (induction us) (simp_all add: local_to_lineD [OF assms(1)])

lemma star_match_local:
  assumes "local_to_line f"
  shows "local_to_line (star_match f n)"
proof (induction n)
  case 0
  show ?case using consumes_none by (auto simp: local_to_line_def consumes_def)
next
  case (Suc n)
  have c: "consumes f" using assms by (simp add: local_to_line_def)
  show ?case unfolding local_to_line_def
  proof (intro conjI allI impI)
    show "consumes (star_match f (Suc n))" by (rule star_match_consumes [OF c])
    fix p :: "char option" and s t :: string and gs :: groups
    assume s: "newline \<notin> set s"
    let ?st = "(p, s, gs) :: mstate"
    let ?us = "filter (\<lambda>u. length (fst (snd u)) < length s) (f ?st)"
    have "\<forall>u \<in> set ?us. newline \<notin> set (fst (snd u))"
      using consumes_newline_free [OF c, of _ ?st] s by auto
    from local_concat [OF Suc this, of t]
    show "star_match f (Suc n) (ext t ?st) = map (ext t) (star_match f (Suc n) ?st)"
      using local_to_lineD [OF assms, of ?st t] s
      by (simp add: filter_map comp_def)
  qed
qed

lemma rep_match_local:
  assumes "local_to_line f"
  shows "local_to_line (rep_match f n)"
proof (induction n)
  case 0
  show ?case using consumes_none by (auto simp: local_to_line_def consumes_def)
next
  case (Suc n)
  have c: "consumes f" using assms by (simp add: local_to_line_def)
  show ?case unfolding local_to_line_def
  proof (intro conjI allI impI)
    show "consumes (rep_match f (Suc n))" by (rule rep_match_consumes [OF c])
    fix p :: "char option" and s t :: string and gs :: groups
    assume s: "newline \<notin> set s"
    let ?st = "(p, s, gs) :: mstate"
    have "\<forall>u \<in> set (f ?st). newline \<notin> set (fst (snd u))"
      using consumes_newline_free [OF c, of _ ?st] s by auto
    from local_concat [OF Suc this, of t]
    show "rep_match f (Suc n) (ext t ?st) = map (ext t) (rep_match f (Suc n) ?st)"
      using local_to_lineD [OF assms, of ?st t] s by simp
  qed
qed

lemma star_match_fuel:
  "length (fst (snd st)) \<le> n \<Longrightarrow> star_match f n st = star_match f (length (fst (snd st))) st"
proof (induction "length (fst (snd st))" arbitrary: st n rule: less_induct)
  case less
  show ?case
  proof (cases "length (fst (snd st))")
    case 0
    then show ?thesis by (cases n) (simp_all add: filter_empty_conv)
  next
    case (Suc k)
    with less.prems obtain m where m: "n = Suc m" by (cases n) simp_all
    have "star_match f m u = star_match f k u" if "length (fst (snd u)) < Suc k" for u
      using less.hyps [of u m] less.hyps [of u k] that Suc m less.prems by simp
    then have "map (star_match f m) (filter (\<lambda>t. length (fst (snd t)) < Suc k) (f st)) =
        map (star_match f k) (filter (\<lambda>t. length (fst (snd t)) < Suc k) (f st))" by simp
    then show ?thesis by (simp add: m Suc del: map_eq_conv)
  qed
qed

lemma mt_local: "nl_free r \<Longrightarrow> local_to_line (mt r)"
proof (induction r)
  case (Cls P)
  then show ?case using mt_consumes [of "Cls P"]
    by (auto simp: local_to_line_def ext_def split: list.split)
next
  case (Lit w)
  have "prefix w (s @ newline # t) = prefix w s" if "newline \<notin> set s" for s t
    using Lit that by (auto simp: prefix_def append_eq_append_conv2 Cons_eq_append_conv)
  then show ?case using mt_consumes [of "Lit w"]
    by (auto simp: local_to_line_def ext_def prefix_length_le)
next
  case (Cat q r)
  then have q: "local_to_line (mt q)" and r: "local_to_line (mt r)" by auto
  show ?case unfolding local_to_line_def
  proof (intro conjI allI impI mt_consumes)
    fix p :: "char option" and s t :: string and gs :: groups
    assume s: "newline \<notin> set s"
    let ?st = "(p, s, gs) :: mstate"
    have "\<forall>u \<in> set (mt q ?st). newline \<notin> set (fst (snd u))"
      using consumes_newline_free [OF mt_consumes, of _ q ?st] s by auto
    from local_concat [OF r this, of t]
    show "mt (Cat q r) (ext t ?st) = map (ext t) (mt (Cat q r) ?st)"
      using local_to_lineD [OF q, of ?st t] s by simp
  qed
next
  case (Star r)
  then have r: "local_to_line (mt r)" by simp
  show ?case unfolding local_to_line_def
  proof (intro conjI allI impI mt_consumes)
    fix p :: "char option" and s t :: string and gs :: groups
    assume s: "newline \<notin> set s"
    let ?n = "length s + Suc (length t)"
    have "star_match (mt r) ?n (ext t (p, s, gs)) = map (ext t) (star_match (mt r) ?n (p, s, gs))"
      by (rule local_to_lineD [OF star_match_local [OF r]]) (simp add: s)
    also have "star_match (mt r) ?n (p, s, gs) = star_match (mt r) (length s) (p, s, gs)"
      using star_match_fuel [of "(p, s, gs)" ?n] by simp
    finally show "mt (Star r) (ext t (p, s, gs)) = map (ext t) (mt (Star r) (p, s, gs))" by simp
  qed
next
  case (Rep n r)
  then show ?case using rep_match_local by simp
next
  case (Grp g r)
  then have r: "local_to_line (mt r)" by simp
  show ?case unfolding local_to_line_def
  proof (intro conjI allI impI mt_consumes)
    fix p :: "char option" and s t :: string and gs :: groups
    assume s: "newline \<notin> set s"
    have "length v \<le> length s" if "(q, v, hs) \<in> set (mt r (p, s, gs))" for q v hs
      using mt_suffix [OF that] by (rule suffix_length_le)
    then show "mt (Grp g r) (ext t (p, s, gs)) = map (ext t) (mt (Grp g r) (p, s, gs))"
      using local_to_lineD [OF r, of "(p, s, gs)" t] s
      by (auto simp: group_match_def ext_def)
  qed
next
  case (Alt q r)
  then show ?case using mt_consumes [of "Alt q r"] by (simp add: local_to_line_def)
next
  case (Opt r)
  then show ?case using mt_consumes [of "Opt r"] by (simp add: local_to_line_def)
next
  case Eol
  show ?case using mt_consumes [of Eol]
    by (auto simp: local_to_line_def ext_def hd_append dest: hd_in_set)
qed simp_all


definition indep :: "(mstate \<Rightarrow> mstate list) \<Rightarrow> bool" where
  "indep f \<longleftrightarrow> (\<forall>p q x. map snd (f (p, x)) = map snd (f (q, x)))"

lemma indepD: "indep f \<Longrightarrow> map snd (f (p, x)) = map snd (f (q, x))"
  unfolding indep_def by blast

lemma indep_concat:
  "indep f \<Longrightarrow> map snd us = map snd vs \<Longrightarrow> map snd (concat (map f us)) = map snd (concat (map f vs))"
proof (induction us arbitrary: vs)
  case (Cons u us)
  obtain v vs' where vs: "vs = v # vs'" using Cons.prems(2) by (cases vs) simp_all
  then have v: "snd v = snd u" "map snd us = map snd vs'" using Cons.prems(2) by simp_all
  have "map snd (f (fst u, snd u)) = map snd (f (fst v, snd v))"
    unfolding v(1) by (rule indepD [OF Cons.prems(1)])
  then have "map snd (f u) = map snd (f v)" by (simp only: prod.collapse)
  then show ?case unfolding vs list.map concat.simps map_append
    using Cons.IH [OF Cons.prems(1) v(2)] by (rule arg_cong2)
qed simp

lemma star_match_indep:
  assumes "indep f"
  shows "indep (star_match f n)"
proof (induction n)
  case (Suc n)
  have "map snd (star_match f (Suc n) (p, x)) = map snd (star_match f (Suc n) (q, x))" for p q x
  proof -
    let ?short = "\<lambda>y. length (fst y) < length (fst x)"
    have "map snd (filter (?short \<circ> snd) (f (p, x))) = map snd (filter (?short \<circ> snd) (f (q, x)))"
      unfolding filter_map [symmetric] by (rule arg_cong [OF indepD [OF assms]])
    from indep_concat [OF Suc this] show ?thesis
      unfolding star_match.simps map_append comp_def snd_conv list.map by (rule arg_cong2) (rule refl)
  qed
  then show ?case unfolding indep_def by blast
qed (simp add: indep_def)

lemma rep_match_indep:
  assumes "indep f"
  shows "indep (rep_match f n)"
proof (induction n)
  case (Suc n)
  have "map snd (rep_match f (Suc n) (p, x)) = map snd (rep_match f (Suc n) (q, x))" for p q x
    unfolding rep_match.simps by (rule indep_concat [OF Suc indepD [OF assms]])
  then show ?case unfolding indep_def by blast
qed (simp add: indep_def)

text \<open>Such a pattern does not look at the character before it either.\<close>

lemma indepI: "(\<And>p q x. map snd (f (p, x)) = map snd (f (q, x))) \<Longrightarrow> indep f"
  unfolding indep_def by blast

lemma mt_indep: "nl_free r \<Longrightarrow> indep (mt r)"
proof (induction r)
  case (Cat q r)
  then have q: "indep (mt q)" and r: "indep (mt r)" by simp_all
  show ?case unfolding mt.simps by (rule indepI, rule indep_concat [OF r indepD [OF q]])
next
  case (Star r)
  then have r: "indep (mt r)" by simp
  show ?case unfolding mt.simps by (rule indepI, unfold snd_conv, rule indepD [OF star_match_indep [OF r]])
next
  case (Rep n r)
  then have "indep (mt r)" by simp
  then show ?case unfolding mt.simps by (rule rep_match_indep)
next
  case (Grp g r)
  then have r: "indep (mt r)" by simp
  have g: "map snd (group_match g (mt r) (p, x)) = map (\<lambda>(rest, gs). (rest, gs @
      [(g, take (length (fst x) - length rest) (fst x))])) (map snd (mt r (p, x)))" for p x
    by (simp add: group_match_def comp_def case_prod_unfold)
  show ?case unfolding mt.simps by (rule indepI, unfold g, rule arg_cong [OF indepD [OF r]])
next
  case (Alt q r)
  then have q: "indep (mt q)" and r: "indep (mt r)" by simp_all
  show ?case unfolding mt.simps
    by (rule indepI, unfold map_append, rule arg_cong2 [OF indepD [OF q] indepD [OF r]])
next
  case (Opt r)
  then have r: "indep (mt r)" by simp
  show ?case unfolding mt.simps
    by (rule indepI, unfold map_append list.map snd_conv, rule arg_cong2 [OF indepD [OF r] refl])
next
  case (Cls P)
  show ?case by (rule indepI) (simp split: list.split prod.split)
next
  case (Lit w)
  show ?case by (rule indepI) (simp split: prod.split)
next
  case Eol
  show ?case by (rule indepI) (simp split: prod.split)
qed simp_all


lemma finditer_nil: "mt r (p, [], []) = [] \<Longrightarrow> py_finditer_at r p [] = []"
  by (subst py_finditer_at.simps) simp

lemma finditer_skip:
  "mt r (p, c # cs, []) = [] \<Longrightarrow> py_finditer_at r p (c # cs) = py_finditer_at r (Some c) cs"
  by (subst (1 2) py_finditer_at.simps) simp

lemma finditer_hit:
  assumes "mt r (p, s, []) = (q, rest, gs) # ms" and "length rest < length s"
  shows "py_finditer_at r p s = (s, rest, gs) # py_finditer_at r q rest"
  using assms by (subst py_finditer_at.simps, cases s) auto

definition advancing :: "regex \<Rightarrow> bool" where
  "advancing r \<longleftrightarrow> (\<forall>st. \<forall>t \<in> set (mt r st). length (fst (snd t)) < length (fst (snd st)))"

lemma Bol_inside_line:
  assumes "newline \<notin> set l" and "newline \<noteq> c"
  shows "py_finditer_at (Cat Bol b) (Some c) l = []"
  using assms
proof (induction l arbitrary: c)
  case (Cons d l)
  then have "py_finditer_at (Cat Bol b) (Some d) l = []" by simp
  then show ?case using not_sym [OF Cons.prems(2)] by (simp add: finditer_skip)
qed (simp add: finditer_nil not_sym)

lemma Bol_next_line:
  assumes "newline \<notin> set l" and "newline \<noteq> c"
  shows "py_finditer_at (Cat Bol b) (Some c) (l @ newline # t) = py_finditer_at (Cat Bol b) (Some newline) t"
  using assms
proof (induction l arbitrary: c)
  case (Cons d l)
  have "py_finditer_at (Cat Bol b) (Some d) (l @ newline # t) = py_finditer_at (Cat Bol b) (Some newline) t"
    by (rule Cons.IH) (use Cons.prems(1) in simp_all)
  then show ?case using not_sym [OF Cons.prems(2)] by (simp add: finditer_skip)
qed (simp add: finditer_skip not_sym)

definition line_match :: "regex \<Rightarrow> string \<Rightarrow> groups option" where
  "line_match b l = (case mt b (None, l, []) of [] \<Rightarrow> None | m # _ \<Rightarrow> Some (snd (snd m)))"

abbreviation (input) found :: "regex \<Rightarrow> char option \<Rightarrow> string \<Rightarrow> groups list" where
  "found r p s \<equiv> map (snd \<circ> snd) (py_finditer_at r p s)"

lemma line_match_prev:
  assumes "nl_free b"
  shows "line_match b l = (case mt b (p, l, []) of [] \<Rightarrow> None | m # _ \<Rightarrow> Some (snd (snd m)))"
  using indepD [OF mt_indep [OF assms], of p "(l, [])" None]
  by (auto simp: line_match_def split: list.split)

lemma line_hit:
  assumes "advancing b" and "newline \<notin> set l" and "mt b (p, l, []) = x # ms"
  obtains c rest gs where "x = (Some c, rest, gs)" and "newline \<noteq> c" and "newline \<notin> set rest"
    and "length rest < length l"
proof -
  obtain q rest gs where x: "x = (q, rest, gs)" by (cases x)
  with assms(3) have mem: "(q, rest, gs) \<in> set (mt b (p, l, []))" by simp
  then obtain w where w: "l = w @ rest" "q = last_char p w" by (rule consumesD [OF mt_consumes])
  have len: "length rest < length l" using assms(1) mem unfolding advancing_def by fastforce
  with w have "w \<noteq> []" by auto
  with w assms(2) have "q = Some (last w)" "newline \<noteq> last w" "newline \<notin> set rest"
    by (auto simp: last_char_nonempty)
  with x len show thesis using that by blast
qed

lemma found_line:
  assumes b: "nl_free b" "advancing b" and p: "p = None \<or> p = Some newline" and l: "newline \<notin> set l"
  shows "found (Cat Bol b) p l = (case line_match b l of None \<Rightarrow> [] | Some gs \<Rightarrow> [gs])" (is ?A)
    and "found (Cat Bol b) p (l @ newline # t) =
      (case line_match b l of None \<Rightarrow> [] | Some gs \<Rightarrow> [gs]) @ found (Cat Bol b) (Some newline) t" (is ?B)
proof -
  have m: "mt (Cat Bol b) (p, s, []) = mt b (p, s, [])" for s using p by auto
  have e: "mt b (p, l @ newline # t, []) = map (ext t) (mt b (p, l, []))"
    using local_to_lineD [OF mt_local [OF b(1)], of "(p, l, [])" t] l by (simp add: ext_def)
  note lm = line_match_prev [OF b(1), of l p]
  have "?A \<and> ?B"
  proof (cases "mt b (p, l, [])")
    case Nil
    then have "line_match b l = None" by (simp add: lm)
    then show ?thesis using l e Nil
      by (cases l) (simp_all add: m finditer_nil finditer_skip Bol_inside_line Bol_next_line)
  next
    case (Cons x ms)
    from line_hit [OF b(2) l this] obtain c rest gs where x: "x = (Some c, rest, gs)"
      and c: "newline \<noteq> c" "newline \<notin> set rest" and len: "length rest < length l" .
    have "py_finditer_at (Cat Bol b) p l = (l, rest, gs) # py_finditer_at (Cat Bol b) (Some c) rest"
      by (rule finditer_hit [where ms = ms]) (simp_all only: m Cons x len)
    moreover have "py_finditer_at (Cat Bol b) p (l @ newline # t) =
        (l @ newline # t, rest @ newline # t, gs) # py_finditer_at (Cat Bol b) (Some c) (rest @ newline # t)"
      by (rule finditer_hit [where ms = "map (ext t) ms"])
        (use len in \<open>simp_all only: m e Cons x list.map ext_def prod.case length_append add_less_mono1\<close>)
    moreover have "line_match b l = Some gs" using Cons x by (simp add: lm)
    ultimately show ?thesis using c by (simp add: Bol_inside_line Bol_next_line)
  qed
  then show ?A and ?B by blast+
qed

text \<open>\<^verbatim>\<open>text.split("\n")\<close>.\<close>

fun split_nl :: "string \<Rightarrow> string list" where
  "split_nl [] = [[]]"
| "split_nl (c # cs) = (if c = newline then [] # split_nl cs else (c # hd (split_nl cs)) # tl (split_nl cs))"

lemma split_nl_nonempty [simp]: "split_nl s \<noteq> []"
  by (cases s) auto

lemma split_nl_line: "newline \<notin> set l \<Longrightarrow> split_nl l = [l]"
  by (induction l) auto

lemma split_nl_append: "newline \<notin> set l \<Longrightarrow> split_nl (l @ newline # t) = l # split_nl t"
  by (induction l) auto

lemma lines_induct [case_names last line]:
  assumes "\<And>l. newline \<notin> set l \<Longrightarrow> P l"
    and "\<And>l t. newline \<notin> set l \<Longrightarrow> P t \<Longrightarrow> P (l @ newline # t)"
  shows "P s"
proof (induction s rule: length_induct)
  case (1 s)
  show ?case
  proof (cases "newline \<in> set s")
    case True
    then obtain l t where "s = l @ newline # t" "newline \<notin> set l" using split_list_first by metis
    with 1 assms(2) show ?thesis by auto
  qed (rule assms(1))
qed

theorem groups_of_Line:
  assumes "nl_free b" and "advancing b"
  shows "groups_of (Cat Bol b) s = List.map_filter (line_match b) (split_nl s)"
proof -
  have "found (Cat Bol b) p s = List.map_filter (line_match b) (split_nl s)"
    if "p = None \<or> p = Some newline" for p
    using that
  proof (induction s arbitrary: p rule: lines_induct)
    case (last l)
    show ?case unfolding found_line(1) [OF assms last(2,1)] split_nl_line [OF last(1)]
      by (simp add: List.map_filter_simps split: option.split)
  next
    case (line l t)
    have "found (Cat Bol b) (Some newline) t = List.map_filter (line_match b) (split_nl t)"
      by (rule line.IH) simp
    then show ?case unfolding found_line(2) [OF assms line.prems line.hyps(1)] split_nl_append [OF line.hyps(1)]
      by (simp add: List.map_filter_simps split: option.split)
  qed
  then show ?thesis by (simp add: groups_of_def py_finditer_def)
qed

lemma split_nl_join: "split_nl (s @ newline # t) = split_nl s @ split_nl t"
  by (induction s) auto

corollary groups_of_Line_append:
  assumes "nl_free b" and "advancing b"
  shows "groups_of (Cat Bol b) (s @ newline # t) = groups_of (Cat Bol b) s @ groups_of (Cat Bol b) t"
  by (simp add: groups_of_Line [OF assms] split_nl_join List.map_filter_def)

section \<open>Templates\<close>

text \<open>
  The telemetry patterns are templates: literal text and named fields, each field ended by a
  literal that cannot continue it.
\<close>

datatype field_kind = Run "char \<Rightarrow> bool" | Exact nat "char \<Rightarrow> bool" | SDec
datatype piece = L string | Fld string field_kind

definition is_hexdigit :: "char \<Rightarrow> bool" where
  "is_hexdigit c = (is_digit c \<or> (97 \<le> (of_char c :: nat) \<and> (of_char c :: nat) \<le> 102) \<or>
     (65 \<le> (of_char c :: nat) \<and> (of_char c :: nat) \<le> 70))"

definition digit :: regex where "digit = Cls is_digit"
definition hexdigit :: regex where "hexdigit = Cls is_hexdigit"

definition is_bit :: "char \<Rightarrow> bool" where
  "is_bit c = (c = CHR ''0'' \<or> c = CHR ''1'')"

abbreviation Dec :: field_kind where "Dec \<equiv> Run is_digit"
abbreviation Hex :: field_kind where "Hex \<equiv> Run is_hexdigit"
abbreviation Hex8 :: field_kind where "Hex8 \<equiv> Exact 8 is_hexdigit"
abbreviation Bit :: field_kind where "Bit \<equiv> Exact 1 is_bit"

fun field_re :: "field_kind \<Rightarrow> regex" where
  "field_re (Run P) = Plus (Cls P)"
| "field_re (Exact n P) = Rep n (Cls P)"
| "field_re SDec = Cat (Opt (Lit ''-'')) (Plus (Cls is_digit))"

fun piece_re :: "piece \<Rightarrow> regex" where
  "piece_re (L w) = Lit w"
| "piece_re (Fld g k) = Grp g (field_re k)"

definition line_end :: "regex list" where
  "line_end = [Opt (Lit [carriage_return]), Eol]"

definition line_re :: "piece list \<Rightarrow> regex" where
  "line_re ps = Cat Bol (Cats (map piece_re ps @ line_end))"

text \<open>The texts a field accepts, and the characters that could prolong it.\<close>

fun field_ok :: "field_kind \<Rightarrow> string \<Rightarrow> bool" where
  "field_ok (Run P) xs = (xs \<noteq> [] \<and> list_all P xs)"
| "field_ok (Exact n P) xs = (length xs = n \<and> list_all P xs)"
| "field_ok SDec xs = (xs \<noteq> [] \<and> list_all is_digit xs \<or>
     (\<exists>ys. xs = CHR ''-'' # ys \<and> ys \<noteq> [] \<and> list_all is_digit ys))"

fun field_more :: "field_kind \<Rightarrow> char \<Rightarrow> bool" where
  "field_more (Run P) = P"
| "field_more (Exact n P) = (\<lambda>c. False)"
| "field_more SDec = is_digit"

text \<open>A field that cannot contain or be prolonged by the end of its line.\<close>

fun field_clean :: "field_kind \<Rightarrow> bool" where
  "field_clean (Run P) = (\<not> P newline \<and> \<not> P carriage_return)"
| "field_clean (Exact n P) = (\<not> P newline)"
| "field_clean SDec = True"

fun piece_ok :: "piece \<Rightarrow> string \<Rightarrow> bool" where
  "piece_ok (L w) xs = (xs = w)"
| "piece_ok (Fld g k) xs = field_ok k xs"

fun captures :: "piece list \<Rightarrow> string list \<Rightarrow> groups" where
  "captures (L w # ps) (x # xs) = captures ps xs"
| "captures (Fld g k # ps) (x # xs) = (g, x) # captures ps xs"
| "captures _ _ = []"

fun template_ok :: "piece list \<Rightarrow> bool" where
  "template_ok [] = True"
| "template_ok [Fld g k] = field_clean k"
| "template_ok (L w # ps) = (newline \<notin> set w \<and> template_ok ps)"
| "template_ok (Fld g k # Fld h j # ps) = False"
| "template_ok (Fld g k # L w # ps) = (field_clean k \<and> w \<noteq> [] \<and> \<not> field_more k (hd w) \<and> template_ok (L w # ps))"

lemma mt_Cats_Cons [simp]: "mt (Cats (r # rs)) st = concat (map (mt (Cats rs)) (mt r st))"
  by (simp add: Cats_def)

lemma mt_Cats_Nil [simp]: "mt (Cats []) st = [st]"
  by (cases st) (simp add: Cats_def)

definition reads :: "regex \<Rightarrow> string \<Rightarrow> groups \<Rightarrow> (char \<Rightarrow> bool) \<Rightarrow> bool" where
  "reads r xs cs P \<longleftrightarrow> (\<forall>(k :: mstate \<Rightarrow> mstate list) p t gs.
     (t = [] \<or> \<not> P (hd t)) \<longrightarrow> (\<forall>q s hs. s \<noteq> [] \<and> P (hd s) \<longrightarrow> k (q, s, hs) = []) \<longrightarrow>
     concat (map k (mt r (p, xs @ t, gs))) = k (last_char p xs, t, gs @ cs))"

lemma readsD:
  assumes "reads r xs cs P" and "t = [] \<or> \<not> P (hd t)"
    and "\<And>q s hs. s \<noteq> [] \<Longrightarrow> P (hd s) \<Longrightarrow> (k :: mstate \<Rightarrow> mstate list) (q, s, hs) = []"
  shows "concat (map k (mt r (p, xs @ t, gs))) = k (last_char p xs, t, gs @ cs)"
  using assms(1) [unfolded reads_def, rule_format, of t k p gs] assms(2,3) by blast

lemma reads_Lit: "reads (Lit w) w [] P"
  by (simp add: reads_def)

lemma reads_Cls: "P c \<Longrightarrow> reads (Cls P) [c] [] Q"
  by (simp add: reads_def)

lemma star_Cls_Cons:
  "mt (Star (Cls P)) (p, c # s, gs) = (if P c then mt (Star (Cls P)) (Some c, s, gs) else []) @ [(p, c # s, gs)]"
  by simp

lemma reads_Star: "list_all P xs \<Longrightarrow> reads (Star (Cls P)) xs [] P"
proof (induction xs)
  case Nil
  show ?case unfolding reads_def
  proof (intro allI impI)
    fix k :: "mstate \<Rightarrow> mstate list" and p t gs
    assume "t = [] \<or> \<not> P (hd t)"
    then show "concat (map k (mt (Star (Cls P)) (p, [] @ t, gs))) = k (last_char p [], t, gs @ [])"
      by (cases t) simp_all
  qed
next
  case (Cons c xs)
  then have c: "P c" and r: "reads (Star (Cls P)) xs [] P" by simp_all
  show ?case unfolding reads_def
  proof (intro allI impI)
    fix k :: "mstate \<Rightarrow> mstate list" and p t gs
    assume t: "t = [] \<or> \<not> P (hd t)" and k: "\<forall>q s hs. s \<noteq> [] \<and> P (hd s) \<longrightarrow> k (q, s, hs) = []"
    have "k (p, c # xs @ t, gs) = []" using k c by simp
    with readsD [OF r t, of k "Some c" gs] k
    show "concat (map k (mt (Star (Cls P)) (p, (c # xs) @ t, gs))) = k (last_char p (c # xs), t, gs @ [])"
      unfolding append_Cons star_Cls_Cons using c by simp
  qed
qed

lemma concat_map_concat: "concat (map k (concat xss)) = concat (map (\<lambda>xs. concat (map k xs)) xss)"
  by (induction xss) simp_all

lemma reads_Cat:
  assumes "reads q xs cs (\<lambda>c. False)" and "reads r ys ds P"
  shows "reads (Cat q r) (xs @ ys) (cs @ ds) P"
  unfolding reads_def
proof (intro allI impI)
  fix k :: "mstate \<Rightarrow> mstate list" and p t gs
  assume t: "t = [] \<or> \<not> P (hd t)" and k: "\<forall>q s hs. s \<noteq> [] \<and> P (hd s) \<longrightarrow> k (q, s, hs) = []"
  have "concat (map k (mt (Cat q r) (p, (xs @ ys) @ t, gs))) =
      concat (map (\<lambda>st. concat (map k (mt r st))) (mt q (p, xs @ ys @ t, gs)))"
    by (simp add: concat_map_concat comp_def)
  also have "\<dots> = concat (map k (mt r (last_char p xs, ys @ t, gs @ cs)))"
    using readsD [OF assms(1), of "ys @ t" "\<lambda>st. concat (map k (mt r st))" p gs] by simp
  also have "\<dots> = k (last_char (last_char p xs) ys, t, (gs @ cs) @ ds)"
    by (rule readsD [OF assms(2) t]) (use k in blast)
  finally show "concat (map k (mt (Cat q r) (p, (xs @ ys) @ t, gs))) =
      k (last_char p (xs @ ys), t, gs @ cs @ ds)" by simp
qed

lemma reads_Plus:
  assumes "xs \<noteq> []" and "list_all P xs"
  shows "reads (Plus (Cls P)) xs [] P"
proof -
  obtain c ys where "xs = [c] @ ys" "P c" "list_all P ys" using assms by (cases xs) auto
  then show ?thesis unfolding Plus_def
    using reads_Cat [OF reads_Cls reads_Star, of P c P ys] by simp
qed

lemma reads_Rep: "list_all P xs \<Longrightarrow> reads (Rep (length xs) (Cls P)) xs [] Q"
proof (induction xs)
  case (Cons c xs)
  then have "P c" and r: "reads (Rep (length xs) (Cls P)) xs [] Q" by simp_all
  then show ?case by (simp add: reads_def)
qed (simp add: reads_def)


lemma reads_Grp:
  assumes "reads r xs cs P"
  shows "reads (Grp g r) xs (cs @ [(g, xs)]) P"
  unfolding reads_def
proof (intro allI impI)
  fix k :: "mstate \<Rightarrow> mstate list" and p t gs
  assume t: "t = [] \<or> \<not> P (hd t)" and k: "\<forall>q s hs. s \<noteq> [] \<and> P (hd s) \<longrightarrow> k (q, s, hs) = []"
  let ?k = "\<lambda>(q, s, hs). k (q, s, hs @ [(g, take (length (xs @ t) - length s) (xs @ t))])"
  have "concat (map k (mt (Grp g r) (p, xs @ t, gs))) = concat (map ?k (mt r (p, xs @ t, gs)))"
    by (simp add: group_match_def comp_def case_prod_unfold)
  also have "\<dots> = ?k (last_char p xs, t, gs @ cs)"
    by (rule readsD [OF assms t]) (use k in simp)
  finally show "concat (map k (mt (Grp g r) (p, xs @ t, gs))) =
      k (last_char p xs, t, gs @ cs @ [(g, xs)])" by simp
qed

lemma reads_field:
  assumes "field_ok k xs"
  shows "reads (field_re k) xs [] (field_more k)"
proof (cases k)
  case SDec
  have minus: "\<not> is_digit (CHR ''-'')" by (simp add: is_digit_def)
  show ?thesis unfolding SDec field_re.simps field_more.simps reads_def
  proof (intro allI impI)
    fix k' :: "mstate \<Rightarrow> mstate list" and p t gs
    assume t: "t = [] \<or> \<not> is_digit (hd t)"
      and k: "\<forall>q s hs. s \<noteq> [] \<and> is_digit (hd s) \<longrightarrow> k' (q, s, hs) = []"
    from assms SDec consider "xs \<noteq> []" "list_all is_digit xs"
      | ys where "xs = CHR ''-'' # ys" "ys \<noteq> []" "list_all is_digit ys" by auto
    then show "concat (map k' (mt (Cat (Opt (Lit ''-'')) (Plus (Cls is_digit))) (p, xs @ t, gs))) =
        k' (last_char p xs, t, gs @ [])"
    proof cases
      case 1
      then have "\<not> prefix ''-'' (xs @ t)" using minus by (cases xs) (auto simp: prefix_Cons)
      then show ?thesis using readsD [OF reads_Plus [OF 1] t, of k' p gs] k by simp
    next
      case 2
      have "mt (Plus (Cls is_digit)) (p, CHR ''-'' # ys @ t, gs) = []" using minus by (simp add: Plus_def)
      then show ?thesis using readsD [OF reads_Plus [OF 2(2,3)] t, of k' "Some CHR ''-''" gs] k
        by (simp add: 2(1))
    qed
  qed
next
  case (Exact n P)
  then show ?thesis using assms reads_Rep [of P xs "\<lambda>c. False"] by auto
qed (use assms in \<open>auto intro: reads_Plus\<close>)

lemma reads_piece:
  assumes "piece_ok pc xs"
  shows "reads (piece_re pc) xs (captures [pc] [xs]) (case pc of L w \<Rightarrow> (\<lambda>c. False) | Fld g k \<Rightarrow> field_more k)"
  using assms reads_Lit reads_Grp [OF reads_field] by (cases pc) auto

lemma line_end_none: "s \<noteq> [] \<Longrightarrow> hd s \<noteq> newline \<Longrightarrow> hd s \<noteq> carriage_return \<Longrightarrow> mt (Cats line_end) (q, s, hs) = []"
  by (cases s) (simp_all add: line_end_def)

lemma line_end_hit:
  "mt (Cats line_end) (q, [], hs) = [(q, [], hs)]"
  "mt (Cats line_end) (q, [carriage_return], hs) = [(Some carriage_return, [], hs)]"
  by (simp_all add: line_end_def)

lemma field_more_stop: "field_clean k \<Longrightarrow> \<not> field_more k newline \<and> \<not> field_more k carriage_return"
  by (cases k) (simp_all add: is_digit_def)

lemma template_reads:
  assumes "template_ok ps" and "list_all2 piece_ok ps xs" and "t = [] \<or> t = [carriage_return]"
  shows "\<exists>q. mt (Cats (map piece_re ps @ line_end)) (p, concat xs @ t, gs) = [(q, [], gs @ captures ps xs)]"
  using assms(1,2)
proof (induction ps arbitrary: xs p gs)
  case Nil
  then show ?case using line_end_hit assms(3) by auto
next
  case (Cons pc ps)
  then obtain x xs' where x: "xs = x # xs'" "piece_ok pc x" "list_all2 piece_ok ps xs'"
    by (auto simp: list_all2_Cons1)
  have ok: "template_ok ps" using Cons.prems(1) by (cases "pc # ps" rule: template_ok.cases) auto
  let ?P = "case pc of L w \<Rightarrow> (\<lambda>c. False) | Fld g k \<Rightarrow> field_more k"
  let ?k = "mt (Cats (map piece_re ps @ line_end))"
  have stop: "(concat xs' @ t = [] \<or> \<not> ?P (hd (concat xs' @ t))) \<and>
      (\<forall>q s hs. s \<noteq> [] \<and> ?P (hd s) \<longrightarrow> ?k (q, s, hs) = [])"
  proof (cases pc)
    case (Fld g k)
    have clean: "\<not> field_more k newline \<and> \<not> field_more k carriage_return"
      using Cons.prems(1) Fld by (intro field_more_stop) (cases "pc # ps" rule: template_ok.cases; simp)
    show ?thesis
    proof (cases ps)
      case Nil
      then have "xs' = []" using x(3) by simp
      have "?k (q, s, hs) = []" if "s \<noteq> []" "?P (hd s)" for q s hs
      proof -
        from that Fld have "hd s \<noteq> newline" "hd s \<noteq> carriage_return"
          using clean by auto
        with that(1) Nil show ?thesis by (simp add: line_end_none)
      qed
      with \<open>xs' = []\<close> show ?thesis using assms(3) clean Fld by auto
    next
      case (Cons pc' ps')
      then obtain w where w: "pc' = L w" "w \<noteq> []" "\<not> field_more k (hd w)"
        using Cons.prems(1) Fld by (cases pc') auto
      then obtain d w' where dw: "w = d # w'" by (cases w) auto
      from x(3) Cons w(1) obtain xs'' where "xs' = w # xs''" by (auto simp: list_all2_Cons1)
      with w dw Cons Fld show ?thesis by (auto simp: prefix_Cons neq_Nil_conv)
    qed
  qed simp
  have "mt (Cats (map piece_re (pc # ps) @ line_end)) (p, concat xs @ t, gs) =
      ?k (last_char p x, concat xs' @ t, gs @ captures [pc] [x])"
    using readsD [OF reads_piece [OF x(2)], of "concat xs' @ t" ?k p gs] stop x(1) by simp
  moreover have "captures (pc # ps) xs = captures [pc] [x] @ captures ps xs'"
    using x(1) by (cases pc) simp_all
  ultimately show ?case
    using Cons.IH [OF ok x(3), of "last_char p x" "gs @ captures [pc] [x]"] by (simp only: append_assoc)
qed


text \<open>Conversely, what a template matches is one of its lines.\<close>

lemma star_Cls_sound:
  "(q, t, hs) \<in> set (mt (Star (Cls P)) (p, s, gs)) \<Longrightarrow> \<exists>x. s = x @ t \<and> list_all P x \<and> hs = gs"
proof (induction s arbitrary: p)
  case (Cons c s)
  from Cons.prems consider "(q, t, hs) = (p, c # s, gs)"
    | "P c" "(q, t, hs) \<in> set (mt (Star (Cls P)) (Some c, s, gs))"
    unfolding star_Cls_Cons by (auto split: if_splits)
  then show ?case
  proof cases
    case 2
    from Cons.IH [OF this(2)] obtain x where "s = x @ t" "list_all P x" "hs = gs" by blast
    with 2(1) have "c # s = (c # x) @ t \<and> list_all P (c # x) \<and> hs = gs" by simp
    then show ?thesis by blast
  qed (intro exI [of _ "[]"], simp)
qed simp

lemma plus_Cls_sound:
  assumes "(q, t, hs) \<in> set (mt (Plus (Cls P)) (p, s, gs))"
  shows "\<exists>x. s = x @ t \<and> x \<noteq> [] \<and> list_all P x \<and> hs = gs"
proof -
  from assms obtain c s' where "s = c # s'" "P c" "(q, t, hs) \<in> set (mt (Star (Cls P)) (Some c, s', gs))"
    unfolding Plus_def mt.simps(3) by (cases s) (auto split: if_splits simp del: mt.simps(6))
  with star_Cls_sound [OF this(3)] obtain x where "s = (c # x) @ t" "list_all P (c # x)" "hs = gs" by auto
  then show ?thesis by blast
qed

lemma rep_Cls_sound:
  "(q, t, hs) \<in> set (rep_match (mt (Cls P)) n (p, s, gs)) \<Longrightarrow>
     \<exists>x. s = x @ t \<and> length x = n \<and> list_all P x \<and> hs = gs"
proof (induction n arbitrary: p s)
  case (Suc n)
  then obtain c s' where c: "s = c # s'" "P c" "(q, t, hs) \<in> set (rep_match (mt (Cls P)) n (Some c, s', gs))"
    by (cases s) (auto split: if_splits)
  from Suc.IH [OF c(3)] obtain x where "s' = x @ t" "length x = n" "list_all P x" "hs = gs" by blast
  with c have "s = (c # x) @ t \<and> length (c # x) = Suc n \<and> list_all P (c # x) \<and> hs = gs" by simp
  then show ?case by blast
qed simp

lemma field_sound:
  assumes "(q, t, hs) \<in> set (mt (field_re k) (p, s, gs))"
  shows "\<exists>x. s = x @ t \<and> field_ok k x \<and> hs = gs"
proof (cases k)
  case SDec
  with assms obtain p' s' where m: "(q, t, hs) \<in> set (mt (Plus (Cls is_digit)) (p', s', gs))"
    and s: "s = s' \<or> s = CHR ''-'' # s'"
  proof (cases "prefix ''-'' s")
    case True
    then obtain s' where "s = CHR ''-'' # s'" by (auto simp: prefix_Cons prefix_def)
    with assms SDec that show thesis by auto
  next
    case False
    with assms SDec that show thesis by auto
  qed
  from plus_Cls_sound [OF m] obtain x where x: "s' = x @ t" "x \<noteq> []" "list_all is_digit x" "hs = gs" by blast
  from s show ?thesis
  proof
    assume "s = s'"
    with x SDec show ?thesis by auto
  next
    assume "s = CHR ''-'' # s'"
    with x SDec show ?thesis by (intro exI [of _ "CHR ''-'' # x"]) simp
  qed
qed (use assms plus_Cls_sound rep_Cls_sound in \<open>auto simp del: mt.simps(6)\<close>)

lemma piece_sound:
  assumes "(q, t, hs) \<in> set (mt (piece_re pc) (p, s, gs))"
  shows "\<exists>x. s = x @ t \<and> piece_ok pc x \<and> hs = gs @ captures [pc] [x]"
proof (cases pc)
  case (L w)
  with assms show ?thesis by (auto simp: prefix_def split: if_splits)
next
  case (Fld g k)
  with assms obtain hs' where m: "(q, t, hs') \<in> set (mt (field_re k) (p, s, gs))"
    and hs: "hs = hs' @ [(g, take (length s - length t) s)]" by (auto simp: group_match_def)
  from field_sound [OF m] obtain x where "s = x @ t" "field_ok k x" "hs' = gs" by blast
  with hs Fld show ?thesis by auto
qed

lemma template_sound:
  assumes "(q, t, hs) \<in> set (mt (Cats (map piece_re ps @ line_end)) (p, s, gs))" and "newline \<notin> set s"
  shows "\<exists>xs. list_all2 piece_ok ps xs \<and> (s = concat xs \<or> s = concat xs @ [carriage_return]) \<and>
     hs = gs @ captures ps xs"
  using assms
proof (induction ps arbitrary: p s gs)
  case Nil
  then show ?case
    by (cases s; cases "tl s") (auto simp: line_end_def split: if_splits)
next
  case (Cons pc ps)
  then obtain p' t' hs' where m: "(p', t', hs') \<in> set (mt (piece_re pc) (p, s, gs))"
    "(q, t, hs) \<in> set (mt (Cats (map piece_re ps @ line_end)) (p', t', hs'))" by auto
  from piece_sound [OF m(1)] obtain x where x: "s = x @ t'" "piece_ok pc x" "hs' = gs @ captures [pc] [x]"
    by blast
  with Cons.prems(2) Cons.IH [OF m(2)] obtain xs where xs: "list_all2 piece_ok ps xs"
    "t' = concat xs \<or> t' = concat xs @ [carriage_return]" "hs = hs' @ captures ps xs" by auto
  have "captures (pc # ps) (x # xs) = captures [pc] [x] @ captures ps xs" by (cases pc) simp_all
  with x xs show ?case by (intro exI [of _ "x # xs"]) auto
qed

lemma template_nl_free: "template_ok ps \<Longrightarrow> nl_free (Cats (map piece_re ps @ line_end))"
proof (induction ps rule: template_ok.induct)
  case 1
  show ?case by (simp add: line_end_def Cats_def)
next
  case (2 g k)
  then show ?case by (cases k) (simp_all add: line_end_def Cats_def Plus_def is_digit_def)
next
  case (3 w ps)
  then show ?case by (simp add: Cats_def)
next
  case (5 g k w ps)
  have "nl_free (field_re k)" using "5.prems"
    by (cases k) (simp_all add: Plus_def is_digit_def)
  with 5 show ?case by (simp add: Cats_def)
qed simp

lemma advancing_Lit: "w \<noteq> [] \<Longrightarrow> advancing (Cat (Lit w) r)"
proof -
  assume w: "w \<noteq> []"
  have "length t < length s" if "(q, t, hs) \<in> set (mt (Cat (Lit w) r) (p, s, gs))" for q t hs p s gs
  proof -
    from that obtain p' where "prefix w s" "(q, t, hs) \<in> set (mt r (p', drop (length w) s, gs))"
      by (auto split: if_splits)
    then have "length t \<le> length s - length w" "length w \<le> length s"
      using mt_suffix [of q t hs r] suffix_length_le prefix_length_le by fastforce+
    then show ?thesis using w by (cases w) auto
  qed
  then show ?thesis unfolding advancing_def by auto
qed

theorem line_match_template:
  assumes "template_ok ps" and "newline \<notin> set l"
  shows "line_match (Cats (map piece_re ps @ line_end)) l = Some gs \<longleftrightarrow>
     (\<exists>xs. list_all2 piece_ok ps xs \<and> (l = concat xs \<or> l = concat xs @ [carriage_return]) \<and> gs = captures ps xs)"
    (is "?L \<longleftrightarrow> ?R")
proof
  assume ?L
  then obtain m ms where "mt (Cats (map piece_re ps @ line_end)) (None, l, []) = m # ms" "gs = snd (snd m)"
    by (auto simp: line_match_def split: list.splits)
  then have "(fst m, fst (snd m), gs) \<in> set (mt (Cats (map piece_re ps @ line_end)) (None, l, []))" by simp
  from template_sound [OF this assms(2)] show ?R by simp
next
  assume ?R
  then obtain xs where xs: "list_all2 piece_ok ps xs" "l = concat xs @ [] \<or> l = concat xs @ [carriage_return]"
    "gs = captures ps xs" by auto
  then obtain t where "t = [] \<or> t = [carriage_return]" "l = concat xs @ t" by blast
  with template_reads [OF assms(1) xs(1), of t None "[]"] xs(3) show ?L by (auto simp: line_match_def)
qed

text \<open>A template yields one record per line of its shape, in order, and nothing else.\<close>

corollary groups_of_line_re:
  assumes "template_ok (L w # ps)" and "w \<noteq> []"
  shows "groups_of (line_re (L w # ps)) s =
    List.map_filter (line_match (Cats (map piece_re (L w # ps) @ line_end))) (split_nl s)"
  unfolding line_re_def
proof (rule groups_of_Line [OF template_nl_free [OF assms(1)]])
  show "advancing (Cats (map piece_re (L w # ps) @ line_end))"
    using advancing_Lit [OF assms(2)] by (simp add: Cats_def)
qed

end
