(* ===== verification/M9_Telemetry.thy ===== *)
theory M9_Telemetry
  imports Complex_Main Py_Regex
begin

text \<open>
  The evidence half of \<^verbatim>\<open>m9-hardware-test.py\<close>: the telemetry patterns of the display driver, the
  samples they yield, and every function that decides from a transcript whether a contract
  was kept.  A sample is the dictionary of a match with its numbers read; a function that
  returns \<^verbatim>\<open>str | None\<close> gives the first problem found.  \<^verbatim>\<open>float\<close> is an exact rational.
\<close>

section \<open>Patterns\<close>

definition KERNEL_LOAD_ADDRESS_M9 :: int where "KERNEL_LOAD_ADDRESS_M9 = 0x48400000"
definition DISPLAY_POOL_ADDRESS :: int where "DISPLAY_POOL_ADDRESS = 0x49300000"

definition EMPTY_SHA256 :: string where
  "EMPTY_SHA256 = ''e3b0c44298fc1c149afbf4c8996fb924'' @ ''27ae41e4649b934ca495991b7852b855''"

definition FAILURE_MARKERS :: "string list" where
  "FAILURE_MARKERS = [
   ''Kernel panic'', ''Oops:'', ''BUG:'', ''MICRONUX:M9:DISPLAY-FAULT'',
   ''state=REJECTED_NO_WRITES'', ''state=FAILED_QUIESCENT'', ''state=FAILED_UNVERIFIED'',
   ''REMOVE_UNVERIFIED'']"

definition SCANOUT_LINE :: "piece list" where
  "SCANOUT_LINE = [
   L ''running abi=3 state=RUNTIME_REVEALED frames='', Fld ''before'' Dec, L ''->'',
   Fld ''after'' Dec, L '' error='', Fld ''error'' Hex8, L '' underruns='',
   Fld ''underruns'' Dec, L '' chen='', Fld ''chen'' Bit, L '' faults='', Fld ''faults'' Hex,
   L '' host-errors='', Fld ''host0'' Hex8, L '':'', Fld ''host1'' Hex8,
   L '' frame-ack=on clock=auto lp=enabled backlight-gate=on buffers='', Fld ''buffers'' Dec,
   L '' front='', Fld ''front'' SDec, L '' queued='', Fld ''queued'' SDec, L '' back='',
   Fld ''back'' SDec, L '' rearm='', Fld ''rearms'' Dec, L ''/'', Fld ''rearm_failures'' Dec,
   L '' flips='', Fld ''flip_requests'' Dec, L ''/'', Fld ''flip_completions'' Dec,
   L '' generation='', Fld ''generation'' Dec, L '' commit='', Fld ''commit'' Dec,
   L '' guards=ok guard-errors='', Fld ''guard_errors'' Dec, L '' arm-to-irq-ns='',
   Fld ''arm_to_irq_last'' Dec, L ''/'', Fld ''arm_to_irq_max'' Dec, L '' arm-to-irq-over20ms='',
   Fld ''arm_to_irq_over20ms'' Dec, L '' rearm-ns='', Fld ''rearm_last'' Dec, L ''/'',
   Fld ''rearm_max'' Dec, L '' fifo-irq='', Fld ''fifo_irq_last'' Dec, L ''/'',
   Fld ''fifo_irq_min'' Dec, L ''/'', Fld ''fifo_irq_zero'' Dec, L '' fifo-poll='',
   Fld ''fifo_poll_last'' Dec, L ''/'', Fld ''fifo_poll_min'' Dec, L ''/'',
   Fld ''fifo_poll_zero'' Dec, L '' bridge-filler='', Fld ''bridge_filler'' Hex8,
   L '' bridge-misc='', Fld ''bridge_misc'' Hex8, L '' i2c=active-serialized'']"

definition SCANOUT_LINE_RE :: regex where
  "SCANOUT_LINE_RE = line_re SCANOUT_LINE"

definition DIAGNOSTICS_LINE :: "piece list" where
  "DIAGNOSTICS_LINE = [
   L ''abi=3 state=RUNTIME_REVEALED frames='', Fld ''frames'' Dec, L '' faults='',
   Fld ''faults'' Hex, L '' error='', Fld ''error'' Hex8, L '' host-errors='',
   Fld ''host0'' Hex8, L '':'', Fld ''host1'' Hex8, L '' underruns='', Fld ''underruns'' Dec,
   L '' buffers='', Fld ''buffers'' Dec, L '' front='', Fld ''front'' SDec, L '' queued='',
   Fld ''queued'' SDec, L '' back='', Fld ''back'' SDec, L '' rearm='', Fld ''rearms'' Dec,
   L ''/'', Fld ''rearm_failures'' Dec, L '' flips='', Fld ''flip_requests'' Dec, L ''/'',
   Fld ''flip_completions'' Dec, L '' generation='', Fld ''generation'' Dec, L '' commit='',
   Fld ''commit'' Dec, L '' guards=ok guard-errors='', Fld ''guard_errors'' Dec,
   L '' policy=ok arm-to-irq-ns='', Fld ''arm_to_irq_last'' Dec, L ''/'',
   Fld ''arm_to_irq_max'' Dec, L '' arm-to-irq-over20ms='', Fld ''arm_to_irq_over20ms'' Dec,
   L '' rearm-ns='', Fld ''rearm_last'' Dec, L ''/'', Fld ''rearm_max'' Dec, L '' fifo-irq='',
   Fld ''fifo_irq_last'' Dec, L ''/'', Fld ''fifo_irq_min'' Dec, L ''/'',
   Fld ''fifo_irq_zero'' Dec, L '' fifo-poll='', Fld ''fifo_poll_last'' Dec, L ''/'',
   Fld ''fifo_poll_min'' Dec, L ''/'', Fld ''fifo_poll_zero'' Dec, L '' bridge-filler='',
   Fld ''bridge_filler'' Hex8, L '' bridge-misc='', Fld ''bridge_misc'' Hex8,
   L '' i2c=active-serialized physical-panel-state=unobserved'']"

definition DIAGNOSTICS_LINE_RE :: regex where
  "DIAGNOSTICS_LINE_RE = line_re DIAGNOSTICS_LINE"

definition OWNERSHIP_LINE_RE :: regex where
  "OWNERSHIP_LINE_RE = line_re [
   L ''linux abi=3 mode=native-cold-init fb0 buffers=3 dma-channel=0 frame-irq='',
   Fld ''irq'' Dec, L '' rearm=explicit mmap=denied i2c=active-serialized'']"

definition touch_ready_re :: regex where
  "touch_ready_re = Cats [Lit ''ready product=9271 address=0x'', Alt (Lit ''5d'') (Lit ''14''),
     Lit '' mode=poll interval_ms=10 reads='', Plus digit, Lit '' errors=0 down='', Cls is_bit]"

definition TOUCH_LINE_RE :: regex where
  "TOUCH_LINE_RE = Cat Bol (Cats ([Alt (Lit ''unavailable'') touch_ready_re] @ line_end))"

definition RUNTIME_STATUS_RE :: regex where
  "RUNTIME_STATUS_RE = Lit (''pattern=framebuffer boot_ready=1 native_state=RUNTIME_REVEALED '' @
     ''brightness=63 bl_power=0 actual_brightness=63'')"

definition number_re :: regex where
  "number_re = Cat (Plus digit) (Opt (Cat (Lit ''.'') (Plus digit)))"

definition DISCONNECT_UPTIME_RE :: regex where
  "DISCONNECT_UPTIME_RE = Cats [Bol, Lit ''MICRONUX:M9:USB-DISCONNECT:'',
     Grp ''phase'' (Alt (Lit ''BEFORE-POSTHASH'') (Alt (Lit ''BOUNDARY-PREHASH'')
       (Alt (Lit ''BOUNDARY-POSTHASH'') (Lit ''AFTER-PREHASH'')))),
     Lit '':UPTIME '', Grp ''uptime'' number_re, Lit '' '', number_re,
     Opt (Lit [carriage_return]), Lit [newline],
     Look (Lit ''abi=3 state=RUNTIME_REVEALED frames='')]"

definition is_phase_char :: "char \<Rightarrow> bool" where
  "is_phase_char c = (is_digit c \<or> (65 \<le> (of_char c :: nat) \<and> (of_char c :: nat) \<le> 90) \<or> c = CHR ''-'')"

definition DIAGNOSTICS_PHASE :: "piece list" where
  "DIAGNOSTICS_PHASE = [L ''MICRONUX:M9:DIAGNOSTICS phase='', Fld ''phase'' (Run is_phase_char)]"

definition DIAGNOSTICS_PHASE_RE :: regex where
  "DIAGNOSTICS_PHASE_RE = line_re DIAGNOSTICS_PHASE"

definition MIN_DISCONNECT_PROGRESS_HZ :: rat where "MIN_DISCONNECT_PROGRESS_HZ = 10"
definition MAX_DISCONNECT_PROGRESS_HZ :: rat where "MAX_DISCONNECT_PROGRESS_HZ = 25"
definition MAX_REARM_NS :: int where "MAX_REARM_NS = 1000000"

section \<open>Samples\<close>

type_synonym sample = "(string \<times> int) list"

definition failure_marker :: "string \<Rightarrow> string option" where
  "failure_marker out = find (\<lambda>marker. py_in marker out) FAILURE_MARKERS"

definition hexadecimal :: "string list" where
  "hexadecimal = [''error'', ''faults'', ''host0'', ''host1'', ''bridge_filler'', ''bridge_misc'']"

definition read_field :: "string \<times> string \<Rightarrow> string \<times> int" where
  "read_field = (\<lambda>(key, value).
     (key, if key \<in> set hexadecimal then int (base_val 16 value) else int_str value))"

definition scanout_samples :: "string \<Rightarrow> sample list" where
  "scanout_samples out = map (map read_field) (groups_of SCANOUT_LINE_RE out)"

definition diagnostics_samples :: "string \<Rightarrow> sample list" where
  "diagnostics_samples out = map (map read_field) (groups_of DIAGNOSTICS_LINE_RE out)"

section \<open>The scan-out contract\<close>

definition scanout_counters :: "string list" where
  "scanout_counters = [''before'', ''after'', ''rearms'', ''flip_requests'', ''flip_completions'',
     ''generation'', ''commit'', ''arm_to_irq_over20ms'', ''fifo_irq_zero'', ''fifo_poll_zero'']"

definition bad_roles :: "sample \<Rightarrow> bool" where
  "bad_roles v = (dict_get v ''front'' \<notin> {0, 1, 2} \<or> dict_get v ''back'' \<notin> {0, 1, 2} \<or>
     dict_get v ''front'' = dict_get v ''back'')"

definition bad_queued :: "sample \<Rightarrow> bool" where
  "bad_queued v = (dict_get v ''queued'' \<noteq> -1 \<and> (dict_get v ''queued'' \<notin> {0, 1, 2} \<or>
     \<not> distinct [dict_get v ''front'', dict_get v ''queued'', dict_get v ''back'']))"

definition regressed_guards :: "string \<Rightarrow> string list \<Rightarrow> sample option \<Rightarrow> sample \<Rightarrow> (bool \<times> string) list" where
  "regressed_guards kind counters previous v = (case previous of None \<Rightarrow> [] | Some u \<Rightarrow>
     map (\<lambda>counter. (dict_get v counter < dict_get u counter, kind @ ''-'' @ counter @ ''-regressed'')) counters)"

definition scanout_guards :: "sample option \<Rightarrow> sample \<Rightarrow> (bool \<times> string) list" where
  "scanout_guards previous v = [
     (dict_get v ''after'' \<le> dict_get v ''before'', ''scanout-frame-stalled''),
     (dict_get v ''error'' \<noteq> 0 \<or> dict_get v ''underruns'' \<noteq> 0 \<or> dict_get v ''chen'' \<noteq> 1 \<or>
      dict_get v ''faults'' \<noteq> 0 \<or> dict_get v ''host0'' \<noteq> 0 \<or> dict_get v ''host1'' \<noteq> 0 \<or>
      dict_get v ''guard_errors'' \<noteq> 0, ''scanout-health-nonzero''),
     (dict_get v ''buffers'' \<noteq> 3, ''scanout-buffer-count''),
     (bad_roles v, ''scanout-front-back-role''),
     (bad_queued v, ''scanout-queued-role''),
     (dict_get v ''rearms'' < 1 \<or> dict_get v ''rearm_failures'' \<noteq> 0, ''scanout-rearm-counter''),
     (dict_get v ''arm_to_irq_over20ms'' \<noteq> 0, ''scanout-arm-to-irq-over20ms''),
     (MAX_REARM_NS \<le> dict_get v ''rearm_max'', ''scanout-rearm-latency''),
     (dict_get v ''fifo_poll_zero'' \<noteq> 0, ''scanout-fifo-poll-zero''),
     (dict_get v ''bridge_filler'' \<noteq> 0, ''scanout-bridge-filler''),
     (dict_get v ''bridge_misc'' \<noteq> 0x00003201, ''scanout-bridge-misc''),
     (dict_get v ''flip_requests'' < dict_get v ''flip_completions'', ''scanout-flip-counter''),
     (dict_get v ''generation'' < 1, ''scanout-generation''),
     (dict_get v ''commit'' < 1, ''scanout-commit'')] @
     regressed_guards ''scanout'' scanout_counters previous v"

text \<open>\<^verbatim>\<open>for index, values in enumerate(samples)\<close>, with the sample before.\<close>

fun walk :: "(sample option \<Rightarrow> sample \<Rightarrow> 'g list) \<Rightarrow> sample option \<Rightarrow> sample list \<Rightarrow> 'g list" where
  "walk f previous [] = []"
| "walk f previous (v # vs) = f previous v @ walk f (Some v) vs"

definition flip_missing :: "sample list \<Rightarrow> bool" where
  "flip_missing samples = (length samples < 2 \<or>
     dict_get (last samples) ''flip_completions'' \<le> dict_get (hd samples) ''flip_completions'' \<or>
     dict_get (last samples) ''commit'' \<le> dict_get (hd samples) ''commit'')"

definition progress_missing :: "string \<Rightarrow> sample list \<Rightarrow> bool" where
  "progress_missing counter samples = (length samples < 2 \<or>
     dict_get (last samples) counter \<le> dict_get (hd samples) counter)"

definition count_problem :: "string \<Rightarrow> nat \<Rightarrow> nat \<Rightarrow> string" where
  "count_problem kind n minimum = kind @ str_nat n @ ''-expected-'' @ str_nat minimum"

definition scanout_contract_problem :: "string \<Rightarrow> nat \<Rightarrow> bool \<Rightarrow> bool \<Rightarrow> string option" where
  "scanout_contract_problem out minimum require_flip require_progress =
     (let samples = scanout_samples out in first_reject
       ([(length samples < minimum, count_problem ''scanout-contract-count-'' (length samples) minimum)] @
        walk scanout_guards None samples @
        [(require_flip \<and> flip_missing samples, ''scanout-flip-not-observed''),
         (require_progress \<and> progress_missing ''after'' samples, ''scanout-progress-not-observed'')]))"

section \<open>The diagnostics contract\<close>

definition diagnostics_counters :: "string list" where
  "diagnostics_counters = [''frames'', ''rearms'', ''flip_requests'', ''flip_completions'',
     ''generation'', ''commit'', ''arm_to_irq_over20ms'', ''fifo_irq_zero'', ''fifo_poll_zero'']"

definition diagnostics_guards :: "sample option \<Rightarrow> sample \<Rightarrow> (bool \<times> string) list" where
  "diagnostics_guards previous v = [
     (dict_get v ''faults'' \<noteq> 0 \<or> dict_get v ''error'' \<noteq> 0 \<or> dict_get v ''host0'' \<noteq> 0 \<or>
      dict_get v ''host1'' \<noteq> 0 \<or> dict_get v ''underruns'' \<noteq> 0 \<or> dict_get v ''rearm_failures'' \<noteq> 0 \<or>
      dict_get v ''guard_errors'' \<noteq> 0, ''diagnostics-health-nonzero''),
     (dict_get v ''buffers'' \<noteq> 3, ''diagnostics-buffer-count''),
     (bad_roles v, ''diagnostics-front-back-role''),
     (bad_queued v, ''diagnostics-queued-role''),
     (dict_get v ''frames'' < 1 \<or> dict_get v ''generation'' < 1, ''diagnostics-progress-counter''),
     (dict_get v ''rearms'' < 1 \<or> dict_get v ''commit'' < 1, ''diagnostics-runtime-counter''),
     (dict_get v ''arm_to_irq_over20ms'' \<noteq> 0, ''diagnostics-arm-to-irq-over20ms''),
     (MAX_REARM_NS \<le> dict_get v ''rearm_max'', ''diagnostics-rearm-latency''),
     (dict_get v ''fifo_poll_zero'' \<noteq> 0, ''diagnostics-fifo-poll-zero''),
     (dict_get v ''bridge_filler'' \<noteq> 0, ''diagnostics-bridge-filler''),
     (dict_get v ''bridge_misc'' \<noteq> 0x00003201, ''diagnostics-bridge-misc''),
     (dict_get v ''flip_requests'' < dict_get v ''flip_completions'', ''diagnostics-flip-counter'')] @
     regressed_guards ''diagnostics'' diagnostics_counters previous v"

definition diagnostics_contract_problem :: "string \<Rightarrow> nat \<Rightarrow> bool \<Rightarrow> bool \<Rightarrow> string option" where
  "diagnostics_contract_problem out minimum require_flip require_progress =
     (let samples = diagnostics_samples out in first_reject
       ([(length samples < minimum, count_problem ''diagnostics-contract-count-'' (length samples) minimum)] @
        walk diagnostics_guards None samples @
        [(require_flip \<and> flip_missing samples, ''diagnostics-flip-not-observed''),
         (require_progress \<and> progress_missing ''frames'' samples, ''diagnostics-progress-not-observed'')]))"

definition terminal_failure :: "string \<Rightarrow> string" where
  "terminal_failure marker = ''terminal-failure-'' @ replace_char (CHR '' '') (CHR ''-'') marker"

definition display_health_problem :: "string \<Rightarrow> nat \<Rightarrow> bool \<Rightarrow> bool \<Rightarrow> string option" where
  "display_health_problem out minimum require_flip require_progress = (case failure_marker out of
     Some marker \<Rightarrow> Some (terminal_failure marker)
   | None \<Rightarrow> (case diagnostics_contract_problem out minimum require_flip require_progress of
       Some problem \<Rightarrow> Some problem
     | None \<Rightarrow> scanout_contract_problem out minimum require_flip require_progress))"

section \<open>Diagnostics by phase\<close>

fun phase_groups :: "(string \<times> string \<times> groups) list \<Rightarrow> (string \<times> sample list) list" where
  "phase_groups [] = []"
| "phase_groups [(start, rest, gs)] = [(snd (hd gs), diagnostics_samples rest)]"
| "phase_groups ((start, rest, gs) # (start', rest', gs') # ms) =
     (snd (hd gs), diagnostics_samples (take (length rest - length start') rest)) #
     phase_groups ((start', rest', gs') # ms)"

definition diagnostics_phase_groups :: "string \<Rightarrow> (string \<times> sample list) list" where
  "diagnostics_phase_groups out = phase_groups (py_finditer DIAGNOSTICS_PHASE_RE out)"

definition phase_sample_guards :: "string \<times> sample list \<Rightarrow> (bool \<times> string) list" where
  "phase_sample_guards = (\<lambda>(phase, samples).
     [(length samples \<noteq> 1, ''diagnostics-phase-'' @ lower phase @ ''-count-'' @ str_nat (length samples)),
      (dict_get (hd samples) ''fifo_poll_zero'' \<noteq> 0, ''diagnostics-phase-'' @ lower phase @ ''-fifo-poll-zero'')])"

definition phase_step_guards :: "string \<times> sample \<Rightarrow> string \<times> sample \<Rightarrow> (bool \<times> string) list" where
  "phase_step_guards = (\<lambda>(phase, u) (phase', v).
     map (\<lambda>counter. (dict_get v counter < dict_get u counter,
         ''diagnostics-phase-'' @ lower phase @ ''-to-'' @ lower phase' @ ''-'' @
         replace_char (CHR ''_'') (CHR ''-'') counter @ ''-regressed''))
       [''arm_to_irq_over20ms'', ''fifo_irq_zero'', ''fifo_poll_zero''] @
     [(dict_get v ''arm_to_irq_over20ms'' \<noteq> dict_get u ''arm_to_irq_over20ms'',
       ''diagnostics-phase-'' @ lower phase @ ''-to-'' @ lower phase' @ ''-arm-to-irq-over20ms-increased'')])"

definition diagnostics_phase_problem :: "string \<Rightarrow> string list \<Rightarrow> string option" where
  "diagnostics_phase_problem out expected_phases =
     (let found_groups = diagnostics_phase_groups out;
          samples = map (\<lambda>(phase, ss). (phase, hd ss)) found_groups in
      first_reject
        ([(map fst found_groups \<noteq> expected_phases, ''diagnostics-phase-order'')] @
         concat (map phase_sample_guards found_groups) @
         [(samples \<noteq> [] \<and> dict_get (snd (hd samples)) ''arm_to_irq_over20ms'' \<noteq> 0,
           ''diagnostics-phase-'' @ lower (fst (hd samples)) @ ''-arm-to-irq-over20ms-nonzero'')] @
         concat (map2 phase_step_guards samples (tl samples))))"

section \<open>Progress across a disconnect\<close>

definition float_str :: "string \<Rightarrow> rat" where
  "float_str s = (let whole = takeWhile (\<lambda>c. c \<noteq> CHR ''.'') s; frac = drop (Suc (length whole)) s in
     of_nat (base_val 10 (whole @ frac)) / of_nat (10 ^ length frac))"

text \<open>\<^verbatim>\<open>f"{x:.3f}"\<close> for a number that is not negative: thousandths, ties to even.\<close>

definition round_even :: "rat \<Rightarrow> int" where
  "round_even x = (let n = \<lfloor>x\<rfloor>; d = x - of_int n in
     if d < 1 / 2 \<or> (d = 1 / 2 \<and> even n) then n else n + 1)"

definition fixed3 :: "rat \<Rightarrow> string" where
  "fixed3 x = (let n = nat (round_even (x * 1000)) in
     str_nat (n div 1000) @ ''.'' @ zero_pad 3 (str_nat (n mod 1000)))"

definition phase_uptimes :: "string \<Rightarrow> string \<Rightarrow> rat list" where
  "phase_uptimes out phase = map (\<lambda>gs. float_str (snd (gs ! 1)))
     (filter (\<lambda>gs. snd (hd gs) = phase) (groups_of DISCONNECT_UPTIME_RE out))"

definition phase_samples :: "string \<Rightarrow> string \<Rightarrow> sample list list" where
  "phase_samples out phase = map snd (filter (\<lambda>g. fst g = phase) (diagnostics_phase_groups out))"

definition disconnect_progress_rate ::
    "string \<Rightarrow> string \<Rightarrow> string \<Rightarrow> string \<Rightarrow> string option \<times> rat option" where
  "disconnect_progress_rate start_output start_phase end_output end_phase =
     (let start_uptimes = phase_uptimes start_output start_phase;
          end_uptimes = phase_uptimes end_output end_phase;
          start_groups = phase_samples start_output start_phase;
          end_groups = phase_samples end_output end_phase;
          name = lower start_phase @ ''-'' @ lower end_phase in
      if length start_uptimes \<noteq> 1
      then (Some (lower start_phase @ ''-uptime-count-'' @ str_nat (length start_uptimes)), None)
      else if length end_uptimes \<noteq> 1
      then (Some (lower end_phase @ ''-uptime-count-'' @ str_nat (length end_uptimes)), None)
      else if length start_groups \<noteq> 1 \<or> length (hd start_groups) \<noteq> 1
      then (Some (lower start_phase @ ''-diagnostics-count-'' @
              str_nat (sum_list (map length start_groups))), None)
      else if length end_groups \<noteq> 1 \<or> length (hd end_groups) \<noteq> 1
      then (Some (lower end_phase @ ''-diagnostics-count-'' @
              str_nat (sum_list (map length end_groups))), None)
      else
        let elapsed = hd end_uptimes - hd start_uptimes;
            progress_delta = dict_get (hd (hd end_groups)) ''frames'' - dict_get (hd (hd start_groups)) ''frames'';
            progress_hz = of_int progress_delta / elapsed in
        if elapsed \<le> 0 then (Some (name @ ''-uptime-order''), None)
        else if progress_delta \<le> 0 then (Some (name @ ''-progress-order''), None)
        else if \<not> (MIN_DISCONNECT_PROGRESS_HZ \<le> progress_hz \<and> progress_hz \<le> MAX_DISCONNECT_PROGRESS_HZ)
        then (Some (name @ ''-progress-hz-'' @ fixed3 progress_hz), Some progress_hz)
        else (None, Some progress_hz))"

section \<open>The other contracts\<close>

definition runtime_status_problem :: "string \<Rightarrow> nat \<Rightarrow> string option" where
  "runtime_status_problem out minimum = (let count = length (groups_of RUNTIME_STATUS_RE out) in
     if count < minimum then Some (count_problem ''runtime-status-count-'' count minimum) else None)"

definition is_lowerhex :: "char \<Rightarrow> bool" where
  "is_lowerhex c = (is_digit c \<or> (97 \<le> (of_char c :: nat) \<and> (of_char c :: nat) \<le> 102))"

definition fb_hash_line :: "string \<Rightarrow> piece list" where
  "fb_hash_line phase =
     [L (''MICRONUX:M9:FB-SHA256 phase='' @ phase @ '' sha256=''), Fld ''1'' (Exact 64 is_lowerhex)]"

definition fb_hashes :: "string \<Rightarrow> string \<Rightarrow> string list" where
  "fb_hashes out phase = map (\<lambda>gs. snd (hd gs)) (groups_of (line_re (fb_hash_line phase)) out)"

definition hash_guards :: "string \<Rightarrow> string \<Rightarrow> (bool \<times> string) list" where
  "hash_guards out phase = (let matches = fb_hashes out phase in
     [(length matches \<noteq> 1, ''phase-'' @ phase @ ''-count-'' @ str_nat (length matches)),
      (hd matches = EMPTY_SHA256, ''phase-'' @ phase @ ''-empty'')])"

definition framebuffer_hash_problem :: "string \<Rightarrow> string list \<Rightarrow> string option result" where
  "framebuffer_hash_problem out phases =
     (case first_reject (concat (map (hash_guards out) phases)) of
       Some problem \<Rightarrow> Inr (Some problem)
     | None \<Rightarrow> (case map (\<lambda>phase. (phase, hd (fb_hashes out phase))) phases of
         [] \<Rightarrow> Inl IndexError
       | (reference_phase, reference) # hashes \<Rightarrow> Inr (first_reject
           (map (\<lambda>(phase, value). (value \<noteq> reference,
              ''signature-changed-'' @ reference_phase @ ''-to-'' @ phase)) hashes))))"

section \<open>The boot transcript\<close>

definition ordered_markers :: "string list" where
  "ordered_markers = [
   ''MICRONUX:M9.2:COLD-EXTERNAL state=ready'', ''MICRONUX:M9.2:COLD-MEMORY state=ready'',
   ''MICRONUX:M9.2:COLD-PREPARE state=ready abi=3 panel=jd9365'',
   ''MICRONUX:M9.2:COLD-HANDOFF state=ready'',
   ''MICRONUX:M9.2:COLD-STAGE state=ready abi=3 size=0x00c0'',
   ''MICRONUX:M9.2:COLD-PROBE state=PROBED_QUIESCENT abi=3'',
   ''MICRONUX:M9.2:COLD-INIT state=START trigger=sysfs'',
   ''MICRONUX:M9.2:COLD-INIT state=LDO_READY'',
   ''MICRONUX:M9.2:COLD-INIT stage=native-dsi state=READY'',
   ''MICRONUX:M9.2:COLD-INIT stage=panel-release state=READY'',
   ''MICRONUX:M9.2:COLD-INIT stage=panel-commands state=COMPLETE'',
   ''MICRONUX:M9.2:COLD-INIT state=PANEL_PROGRAMMED_QUIESCENT'',
   ''MICRONUX:M9.2:COLD-INIT state=SCANOUT_INITIALIZING'',
   ''MICRONUX:M9.2:COLD-INIT stage=memory state=READY'',
   ''MICRONUX:M9.2:COLD-INIT stage=dpi-bridge state=CONFIGURED'',
   ''MICRONUX:M9.2:COLD-INIT stage=gdma-irq state=CONFIGURED'',
   ''MICRONUX:M9.2:COLD-INIT stage=scanout-qualification state=PASSED'',
   ''MICRONUX:M9.2:COLD-INIT state=SCANOUT_QUALIFIED_QUIESCENT'',
   ''MICRONUX:M9.2:REVEAL state=REVEALING trigger=boot_ready'',
   ''MICRONUX:M9.2:REVEAL state=QUALIFIED source=userspace-status'',
   ''MICRONUX:M9.2:REVEAL stage=control state=ACKED command=0x17 pwm=0'',
   ''MICRONUX:M9.2:REVEAL state=RUNTIME_REVEALED boot-ready=1'',
   ''MICRONUX:M7:FB-CONSOLE state=ready tty=tty1 role=status usb=ttyGS0 reveal=userspace-ready native-state=RUNTIME_REVEALED'']"

definition required_fragments :: "string list" where
  "required_fragments = [

   ''pwm-zero-write=acked reset-prepare-write=acked pwm-zero-settle=elapsed reset-assert-write=acked reset-hold=elapsed i2c=released'',
   ''flags=0x00003fff route=ready dma-pms=ready panel-payload-crc=cea07f9b contract=invalid'',
   ''firmware=validated records=204 dcs-packets=205'',
   ''ctrl-hi=c0108840 host=video frame-bta=enabled lp=all lpclk=00000003'',
   ''frames=4 same-front=yes control-command=0x17-acked pwm-command=63-acked brightness=63 backlight=registered i2c=active-serialized'',
   ''physical-panel-state=unobserved'']"

text \<open>\<^verbatim>\<open>text.split()\<close>: the words between runs of white space.\<close>

fun words_acc :: "string \<Rightarrow> string \<Rightarrow> string list" where
  "words_acc acc [] = (if acc = [] then [] else [rev acc])"
| "words_acc acc (c # cs) = (if is_space c
     then (if acc = [] then words_acc [] cs else rev acc # words_acc [] cs)
     else words_acc (c # acc) cs)"

definition py_split :: "string \<Rightarrow> string list" where
  "py_split = words_acc []"

fun markers_in_order :: "string \<Rightarrow> nat \<Rightarrow> string list \<Rightarrow> string option" where
  "markers_in_order boot_log start [] = None"
| "markers_in_order boot_log start (expected # markers) = (case py_find boot_log expected start of
     None \<Rightarrow> Some (''missing-or-out-of-order-'' @ py_split expected ! 0 @ ''-'' @ py_split expected ! 1)
   | Some position \<Rightarrow> markers_in_order boot_log (Suc position) markers)"

definition boot_contract_problem :: "string \<Rightarrow> string option" where
  "boot_contract_problem boot_log = (case failure_marker boot_log of
     Some marker \<Rightarrow> Some (terminal_failure marker)
   | None \<Rightarrow>
     if \<not> py_in ''Linux version 6.12.27'' boot_log then Some ''kernel-version-missing''
     else (case markers_in_order boot_log 0 ordered_markers of
         Some problem \<Rightarrow> Some problem
       | None \<Rightarrow> first_reject (map (\<lambda>fragment.
           (\<not> py_in fragment boot_log, ''boot-contract-fragment-'' @ hd (py_split fragment))) required_fragments)))"

section \<open>What the two telemetry contracts share\<close>

definition no_regress :: "string list \<Rightarrow> sample \<Rightarrow> sample \<Rightarrow> bool" where
  "no_regress counters u v = list_all (\<lambda>c. dict_get u c \<le> dict_get v c) counters"

lemma transp_no_regress: "transp (no_regress counters)"
  unfolding no_regress_def list_all_iff transp_def by (meson order_trans)

lemma regressed_guards_pass [simp]:
  "first_reject (regressed_guards kind counters None v) = None"
  "first_reject (regressed_guards kind counters (Some u) v) = None \<longleftrightarrow> no_regress counters u v"
  by (auto simp: regressed_guards_def first_reject_None_iff no_regress_def list_all_iff not_less)

lemma walk_pass:
  "first_reject (walk (\<lambda>p v. own v @ regressed_guards kind counters p v) p ss) = None \<longleftrightarrow>
     list_all (\<lambda>v. first_reject (own v) = None) ss \<and>
     successively (no_regress counters) ((case p of None \<Rightarrow> [] | Some u \<Rightarrow> [u]) @ ss)"
proof (induction ss arbitrary: p)
  case (Cons v ss)
  show ?case unfolding walk.simps first_reject_None_simps Cons.IH
    by (cases p) (auto simp: successively_Cons)
qed (simp split: option.split)

definition telemetry_spec :: "(sample \<Rightarrow> bool) \<Rightarrow> string list \<Rightarrow> string \<Rightarrow> nat \<Rightarrow> bool \<Rightarrow> bool \<Rightarrow> sample list \<Rightarrow> bool" where
  "telemetry_spec healthy counters progress minimum require_flip require_progress ss \<longleftrightarrow>
     minimum \<le> length ss \<and> list_all healthy ss \<and> sorted_wrt (no_regress counters) ss \<and>
     (require_flip \<longrightarrow> 2 \<le> length ss \<and>
        dict_get (hd ss) ''flip_completions'' < dict_get (last ss) ''flip_completions'' \<and>
        dict_get (hd ss) ''commit'' < dict_get (last ss) ''commit'') \<and>
     (require_progress \<longrightarrow> 2 \<le> length ss \<and> dict_get (hd ss) progress < dict_get (last ss) progress)"

locale telemetry_contract =
  fixes problem :: "string \<Rightarrow> nat \<Rightarrow> bool \<Rightarrow> bool \<Rightarrow> string option"
    and samples :: "string \<Rightarrow> sample list"
    and healthy :: "sample \<Rightarrow> bool"
    and counters :: "string list"
    and progress :: string
  assumes accept_iff: "problem out m f p = None \<longleftrightarrow> telemetry_spec healthy counters progress m f p (samples out)"
    and samples_join: "samples (s @ newline # t) = samples s @ samples t"
begin

lemma monotone:
  assumes "problem out m f p = None" and "i \<le> j" and "j < length (samples out)" and "c \<in> set counters"
  shows "dict_get (samples out ! i) c \<le> dict_get (samples out ! j) c"
proof (cases "i = j")
  case False
  then have "no_regress counters (samples out ! i) (samples out ! j)"
    using assms(1-3) accept_iff sorted_wrt_nth_less [of _ "samples out" i j]
    by (auto simp: telemetry_spec_def)
  then show ?thesis using assms(4) by (auto simp: no_regress_def list_all_iff)
qed simp

text \<open>Each part of an accepted transcript is accepted, as a transcript of its own samples.\<close>

lemma accepted_parts:
  assumes "problem (s @ newline # t) m f p = None"
  shows "problem s (length (samples s)) False False = None"
    and "problem t (length (samples t)) False False = None"
  using assms by (auto simp: accept_iff samples_join telemetry_spec_def sorted_wrt_append)

text \<open>Two accepted transcripts can be joined where no counter falls between them.\<close>

lemma accepted_join:
  assumes "problem s m False False = None" and "problem t n False False = None"
    and "samples s = [] \<or> samples t = [] \<or> no_regress counters (last (samples s)) (hd (samples t))"
  shows "problem (s @ newline # t) (m + n) False False = None"
proof -
  let ?s = "samples s" and ?t = "samples t"
  have "no_regress counters u v" if "u \<in> set ?s" "v \<in> set ?t" for u v
  proof -
    have tr: "no_regress counters a c" if "no_regress counters a b" "no_regress counters b c" for a b c
      using that transp_no_regress by (meson transpD)
    have refl: "no_regress counters a a" for a by (simp add: no_regress_def list_all_iff)
    have "no_regress counters u (last ?s)"
      using assms(1) that(1) refl by (cases ?s rule: rev_cases) (auto simp: accept_iff telemetry_spec_def sorted_wrt_append)
    moreover have "no_regress counters (hd ?t) v"
      using assms(2) that(2) refl by (cases ?t) (auto simp: accept_iff telemetry_spec_def)
    moreover have "no_regress counters (last ?s) (hd ?t)" using assms(3) that by auto
    ultimately show ?thesis using tr by blast
  qed
  then show ?thesis using assms(1,2)
    by (auto simp: accept_iff telemetry_spec_def samples_join sorted_wrt_append)
qed

end

section \<open>The scan-out contract\<close>

definition roles_ok :: "sample \<Rightarrow> bool" where
  "roles_ok v \<longleftrightarrow> (let front = dict_get v ''front''; back = dict_get v ''back''; queued = dict_get v ''queued'' in
     0 \<le> front \<and> front \<le> 2 \<and> 0 \<le> back \<and> back \<le> 2 \<and> front \<noteq> back \<and>
     (queued = -1 \<or> queued = 3 - front - back))"

lemma third_role:
  assumes "0 \<le> f" "f \<le> 2" "0 \<le> b" "b \<le> 2" "f \<noteq> b"
  shows "q \<in> {0, 1, 2} \<and> f \<noteq> q \<and> q \<noteq> b \<longleftrightarrow> q = 3 - f - (b :: int)"
proof -
  from assms have "f = 0 \<or> f = 1 \<or> f = 2" "b = 0 \<or> b = 1 \<or> b = 2" by linarith+
  then show ?thesis using assms(5) by (elim disjE) auto
qed

lemma roles_ok_iff: "roles_ok v \<longleftrightarrow> \<not> bad_roles v \<and> \<not> bad_queued v"
proof -
  have r: "x \<in> {0, 1, 2} \<longleftrightarrow> 0 \<le> x \<and> x \<le> 2" for x :: int by auto
  have eq: "(0 \<le> f \<and> f \<le> 2 \<and> 0 \<le> b \<and> b \<le> 2 \<and> f \<noteq> b \<and> (q = -1 \<or> q = 3 - f - b)) \<longleftrightarrow>
      f \<in> {0, 1, 2} \<and> b \<in> {0, 1, 2} \<and> f \<noteq> b \<and> (q = -1 \<or> q \<in> {0, 1, 2} \<and> distinct [f, q, b])" for f b q :: int
  proof -
    have d: "distinct [f, q, b] \<longleftrightarrow> f \<noteq> q \<and> f \<noteq> b \<and> q \<noteq> b" by auto
    show ?thesis unfolding r [of f] r [of b] d using third_role [of f b q] by blast
  qed
  show ?thesis unfolding roles_ok_def Let_def eq bad_roles_def bad_queued_def by blast
qed

definition runtime_ok :: "sample \<Rightarrow> bool" where
  "runtime_ok v \<longleftrightarrow> list_all (\<lambda>k. dict_get v k = 0) [''error'', ''faults'', ''host0'', ''host1'', ''underruns'', ''guard_errors'',
       ''rearm_failures'', ''arm_to_irq_over20ms'', ''fifo_poll_zero'', ''bridge_filler''] \<and>
     dict_get v ''bridge_misc'' = 0x00003201 \<and> dict_get v ''buffers'' = 3 \<and> roles_ok v \<and>
     1 \<le> dict_get v ''rearms'' \<and> 1 \<le> dict_get v ''generation'' \<and> 1 \<le> dict_get v ''commit'' \<and>
     dict_get v ''rearm_max'' < MAX_REARM_NS \<and> dict_get v ''flip_completions'' \<le> dict_get v ''flip_requests''"

definition scanout_healthy :: "sample \<Rightarrow> bool" where
  "scanout_healthy v \<longleftrightarrow> runtime_ok v \<and> dict_get v ''before'' < dict_get v ''after'' \<and> dict_get v ''chen'' = 1"

definition diagnostics_healthy :: "sample \<Rightarrow> bool" where
  "diagnostics_healthy v \<longleftrightarrow> runtime_ok v \<and> 1 \<le> dict_get v ''frames''"

lemma scanout_guards_pass:
  "first_reject (scanout_guards None v) = None \<longleftrightarrow> scanout_healthy v"
  unfolding scanout_guards_def first_reject_None_simps regressed_guards_pass scanout_healthy_def
    runtime_ok_def roles_ok_iff
  by (simp only: list.pred_inject simp_thms not_le not_less de_Morgan_disj)
    (rule iffI; elim conjE; intro conjI; assumption)

lemma diagnostics_guards_pass:
  "first_reject (diagnostics_guards None v) = None \<longleftrightarrow> diagnostics_healthy v"
  unfolding diagnostics_guards_def first_reject_None_simps regressed_guards_pass diagnostics_healthy_def
    runtime_ok_def roles_ok_iff
  by (simp only: list.pred_inject simp_thms not_le not_less de_Morgan_disj)
    (rule iffI; elim conjE; intro conjI; assumption)


lemma guard_split:
  "scanout_guards p v = scanout_guards None v @ regressed_guards ''scanout'' scanout_counters p v"
  "diagnostics_guards p v = diagnostics_guards None v @ regressed_guards ''diagnostics'' diagnostics_counters p v"
  by (simp_all add: scanout_guards_def diagnostics_guards_def regressed_guards_def)

lemma walk_scanout:
  "first_reject (walk scanout_guards None ss) = None \<longleftrightarrow>
     list_all scanout_healthy ss \<and> sorted_wrt (no_regress scanout_counters) ss"
proof -
  have "walk scanout_guards None ss =
      walk (\<lambda>p v. scanout_guards None v @ regressed_guards ''scanout'' scanout_counters p v) None ss"
    by (rule arg_cong [where f = "\<lambda>g. walk g None ss"]) (intro ext guard_split)
  then show ?thesis
    by (simp only: walk_pass scanout_guards_pass option.case append_Nil
        successively_conv_sorted_wrt [OF transp_no_regress])
qed

lemma walk_diagnostics:
  "first_reject (walk diagnostics_guards None ss) = None \<longleftrightarrow>
     list_all diagnostics_healthy ss \<and> sorted_wrt (no_regress diagnostics_counters) ss"
proof -
  have "walk diagnostics_guards None ss =
      walk (\<lambda>p v. diagnostics_guards None v @ regressed_guards ''diagnostics'' diagnostics_counters p v) None ss"
    by (rule arg_cong [where f = "\<lambda>g. walk g None ss"]) (intro ext guard_split)
  then show ?thesis
    by (simp only: walk_pass diagnostics_guards_pass option.case append_Nil
        successively_conv_sorted_wrt [OF transp_no_regress])
qed

lemma template_ok_lines:
  "template_ok SCANOUT_LINE" "template_ok DIAGNOSTICS_LINE" "template_ok DIAGNOSTICS_PHASE"
  by (simp_all add: SCANOUT_LINE_def DIAGNOSTICS_LINE_def DIAGNOSTICS_PHASE_def
      is_digit_def is_hexdigit_def is_bit_def is_phase_char_def)

lemma groups_of_template_join:
  assumes "template_ok (L w # ps)" and "w \<noteq> []"
  shows "groups_of (line_re (L w # ps)) (s @ newline # t) =
     groups_of (line_re (L w # ps)) s @ groups_of (line_re (L w # ps)) t"
  by (simp add: groups_of_line_re [OF assms] split_nl_join List.map_filter_def)

lemma samples_join:
  "scanout_samples (s @ newline # t) = scanout_samples s @ scanout_samples t"
  "diagnostics_samples (s @ newline # t) = diagnostics_samples s @ diagnostics_samples t"
proof -
  obtain w ps where "SCANOUT_LINE = L w # ps" "w \<noteq> []" by (simp add: SCANOUT_LINE_def)
  then show "scanout_samples (s @ newline # t) = scanout_samples s @ scanout_samples t"
    using groups_of_template_join [of w ps s t] template_ok_lines(1)
    by (simp add: scanout_samples_def SCANOUT_LINE_RE_def)
  obtain w ps where "DIAGNOSTICS_LINE = L w # ps" "w \<noteq> []" by (simp add: DIAGNOSTICS_LINE_def)
  then show "diagnostics_samples (s @ newline # t) = diagnostics_samples s @ diagnostics_samples t"
    using groups_of_template_join [of w ps s t] template_ok_lines(2)
    by (simp add: diagnostics_samples_def DIAGNOSTICS_LINE_RE_def)
qed

interpretation scanout: telemetry_contract scanout_contract_problem scanout_samples scanout_healthy
  scanout_counters "''after''"
proof
  show "scanout_contract_problem out m f p = None \<longleftrightarrow>
      telemetry_spec scanout_healthy scanout_counters ''after'' m f p (scanout_samples out)" for out m f p
    unfolding scanout_contract_problem_def Let_def first_reject_None_simps walk_scanout telemetry_spec_def
      flip_missing_def progress_missing_def by auto
qed (rule samples_join)

interpretation diagnostics: telemetry_contract diagnostics_contract_problem diagnostics_samples diagnostics_healthy
  diagnostics_counters "''frames''"
proof
  show "diagnostics_contract_problem out m f p = None \<longleftrightarrow>
      telemetry_spec diagnostics_healthy diagnostics_counters ''frames'' m f p (diagnostics_samples out)" for out m f p
    unfolding diagnostics_contract_problem_def Let_def first_reject_None_simps walk_diagnostics telemetry_spec_def
      flip_missing_def progress_missing_def by auto
qed (rule samples_join)

lemma display_health_None:
  "display_health_problem out m f p = None \<longleftrightarrow>
     list_all (\<lambda>marker. \<not> py_in marker out) FAILURE_MARKERS \<and>
     telemetry_spec diagnostics_healthy diagnostics_counters ''frames'' m f p (diagnostics_samples out) \<and>
     telemetry_spec scanout_healthy scanout_counters ''after'' m f p (scanout_samples out)"
proof -
  have "failure_marker out = None \<longleftrightarrow> list_all (\<lambda>marker. \<not> py_in marker out) FAILURE_MARKERS"
    unfolding failure_marker_def find_None_iff list_all_iff by blast
  then show ?thesis
    unfolding display_health_problem_def scanout.accept_iff [symmetric] diagnostics.accept_iff [symmetric]
    by (auto split: option.splits)
qed

text \<open>
  C10. The health verdict on a transcript, exactly: no failure marker occurs in it, and both
  the diagnostics and the scan-out lines found in it are at least the required number of
  healthy samples (no error, fault, underrun, guard error or failed rearm, three buffers in
  consistent roles, rearm latency below the bound) whose counters never fall from one sample
  to any later one, with a flip and progress between the first and the last where required.
\<close>

theorem display_health_iff:
  "display_health_problem out m f p = None \<longleftrightarrow>
     list_all (\<lambda>marker. \<not> py_in marker out) FAILURE_MARKERS \<and>
     telemetry_spec diagnostics_healthy diagnostics_counters ''frames'' m f p (diagnostics_samples out) \<and>
     telemetry_spec scanout_healthy scanout_counters ''after'' m f p (scanout_samples out)"
  by (rule display_health_None)

section \<open>Printing a sample\<close>

text \<open>The formats of the driver: decimal, signed decimal, hexadecimal, hexadecimal of eight digits.\<close>

definition field_base :: "string \<Rightarrow> nat" where
  "field_base g = (if g \<in> set hexadecimal then 16 else 10)"

fun show_field :: "string \<Rightarrow> field_kind \<Rightarrow> int \<Rightarrow> string" where
  "show_field g SDec x = str_int x"
| "show_field g (Run P) x = show_base (field_base g) (nat x)"
| "show_field g (Exact n P) x = zero_pad n (show_base (field_base g) (nat x))"

fun show_pieces :: "piece list \<Rightarrow> sample \<Rightarrow> string list" where
  "show_pieces [] v = []"
| "show_pieces (L w # ps) v = w # show_pieces ps v"
| "show_pieces (Fld g k # ps) v = show_field g k (dict_get v g) # show_pieces ps v"

fun field_names :: "piece list \<Rightarrow> string list" where
  "field_names [] = []"
| "field_names (L w # ps) = field_names ps"
| "field_names (Fld g k # ps) = g # field_names ps"

fun field_fits :: "string \<Rightarrow> field_kind \<Rightarrow> int \<Rightarrow> bool" where
  "field_fits g SDec x = (g \<notin> set hexadecimal)"
| "field_fits g k x = (0 \<le> x \<and> field_ok k (show_field g k x))"

fun printable :: "piece list \<Rightarrow> sample \<Rightarrow> bool" where
  "printable [] v = True"
| "printable (L w # ps) v = printable ps v"
| "printable (Fld g k # ps) v = (field_fits g k (dict_get v g) \<and> printable ps v)"

lemma int_str_digits: "s \<noteq> [] \<Longrightarrow> hd s \<noteq> CHR ''-'' \<Longrightarrow> int_str s = int (base_val 10 s)"
  by (cases s) simp_all

lemma show_base_digit: "2 \<le> b \<Longrightarrow> b \<le> 36 \<Longrightarrow> hd (show_base b n) \<noteq> CHR ''-''"
proof -
  assume b: "2 \<le> b" "b \<le> 36"
  then obtain d where "d < b" "hd (show_base b n) = digit_char d"
    using show_base_digits [of b "hd (show_base b n)" n] by auto
  moreover have "digit_char d \<noteq> CHR ''-''" if "d < 36" for d
  proof
    assume "digit_char d = CHR ''-''"
    then have "digit_val (CHR ''-'') = Some d" using digit_val_digit_char [OF that] by simp
    then show False by (simp add: digit_val_def)
  qed
  ultimately show ?thesis using b by simp
qed

lemma read_show_field: "field_fits g k x \<Longrightarrow> read_field (g, show_field g k x) = (g, x)"
proof (cases k)
  case (Run P)
  assume "field_fits g k x"
  with Run show ?thesis
    using show_base_digit [of 10 "nat x"]
    by (auto simp: read_field_def field_base_def base_val_show_base int_str_digits)
next
  case (Exact n P)
  assume "field_fits g k x"
  moreover have "hd (zero_pad n (show_base 10 (nat x))) \<noteq> CHR ''-''"
    using show_base_digit [of 10 "nat x"] by (simp add: zero_pad_def hd_append)
  moreover have "zero_pad n (show_base 10 (nat x)) \<noteq> []" by (simp add: zero_pad_def)
  ultimately show ?thesis using Exact
    by (auto simp: read_field_def field_base_def base_val_show_base int_str_digits)
qed (auto simp: read_field_def)

lemma str_int_field: "field_ok SDec (str_int x)"
  using str_nat_digits by (auto simp: str_int_def list_all_iff)

lemma field_fits_ok: "field_fits g k x \<Longrightarrow> field_ok k (show_field g k x)"
  using str_int_field by (cases k) auto

lemma show_pieces_ok: "printable ps v \<Longrightarrow> list_all2 piece_ok ps (show_pieces ps v)"
  by (induction ps v rule: printable.induct) (auto intro: field_fits_ok)

lemma read_captures:
  "printable ps v \<Longrightarrow> map read_field (captures ps (show_pieces ps v)) = map (\<lambda>g. (g, dict_get v g)) (field_names ps)"
  by (induction ps v rule: printable.induct) (auto intro: read_show_field)

lemma dict_get_keys:
  assumes "distinct (map fst v)"
  shows "map (\<lambda>g. (g, dict_get v g)) (map fst v) = v"
proof -
  have "dict_get v (fst e) = snd e" if "e \<in> set v" for e
    using assms that by (cases e) (simp add: dict_get_def)
  then show ?thesis by (simp add: map_idI comp_def)
qed

lemma field_no_newline: "field_clean k \<Longrightarrow> field_ok k x \<Longrightarrow> newline \<notin> set x"
proof -
  assume k: "field_clean k" "field_ok k x"
  have "\<not> is_digit newline" by (simp add: is_digit_def)
  with k show ?thesis by (cases k) (auto simp: list_all_iff)
qed

lemma template_no_newline:
  "template_ok ps \<Longrightarrow> list_all2 piece_ok ps xs \<Longrightarrow> newline \<notin> set (concat xs)"
proof (induction ps arbitrary: xs rule: template_ok.induct)
  case (5 g k w ps)
  then obtain x ys where "xs = x # ys" "field_ok k x" "list_all2 piece_ok (L w # ps) ys"
    by (auto simp: list_all2_Cons1)
  with 5 show ?case using field_no_newline [of k x] by simp
qed (auto simp: list_all2_Cons1 dest: field_no_newline)

text \<open>The line a sample prints is read back as that sample, wherever it stands in a transcript.\<close>

lemma template_roundtrip:
  assumes "template_ok ps" and "ps = L w # qs" and "w \<noteq> []" and "printable ps v"
    and "map fst v = field_names ps" and "distinct (field_names ps)"
  shows "map (map read_field) (groups_of (line_re ps) (concat (show_pieces ps v))) = [v]"
proof -
  let ?t = "show_pieces ps v"
  note nl = template_no_newline [OF assms(1) show_pieces_ok [OF assms(4)]]
  have "line_match (Cats (map piece_re ps @ line_end)) (concat ?t) = Some (captures ps ?t)"
    unfolding line_match_template [OF assms(1) nl] using show_pieces_ok [OF assms(4)] by blast
  then have "groups_of (line_re ps) (concat ?t) = [captures ps ?t]"
    using groups_of_line_re [of w qs "concat ?t"] assms(1-3) split_nl_line [OF nl]
    by (simp add: List.map_filter_simps)
  then show ?thesis
    using read_captures [OF assms(4)] dict_get_keys [of v] assms(5,6) by simp
qed

lemma length_show_base: "2 \<le> b \<Longrightarrow> n < b ^ Suc k \<Longrightarrow> length (show_base b n) \<le> Suc k"
proof (induction k arbitrary: n)
  case 0
  then show ?case by (simp add: show_base.simps [of b n])
next
  case (Suc k)
  then have "n div b < b ^ Suc k" by (simp add: div_less_iff_less_mult mult.commute)
  from Suc.IH [OF Suc.prems(1) this] show ?case by (simp add: show_base.simps [of b n])
qed

lemma is_hexdigit_digit_char: "d < 16 \<Longrightarrow> is_hexdigit (digit_char d)"
  by (auto simp: is_hexdigit_def is_digit_def digit_char_def)

lemma shown_field_ok:
  "field_ok Dec (show_base 10 n)"
  "field_ok Hex (show_base 16 n)"
  "n < 2 ^ 32 \<Longrightarrow> field_ok Hex8 (zero_pad 8 (show_base 16 n))"
  "n \<le> 1 \<Longrightarrow> field_ok Bit (zero_pad 1 (show_base 10 n))"
proof -
  show "field_ok Dec (show_base 10 n)" "field_ok Hex (show_base 16 n)"
    using show_base_digits [of 10 _ n] show_base_digits [of 16 _ n] is_hexdigit_digit_char
    by (force simp: list_all_iff)+
  show "field_ok Hex8 (zero_pad 8 (show_base 16 n))" if "n < 2 ^ 32"
  proof -
    have "length (show_base 16 n) \<le> Suc 7" by (rule length_show_base) (use that in simp_all)
    moreover have "list_all is_hexdigit (show_base 16 n)"
      using show_base_digits [of 16 _ n] is_hexdigit_digit_char by (force simp: list_all_iff)
    moreover have "is_hexdigit (CHR ''0'')" by (simp add: is_hexdigit_def is_digit_def)
    ultimately show ?thesis by (auto simp: zero_pad_def list_all_iff)
  qed
  show "field_ok Bit (zero_pad 1 (show_base 10 n))" if "n \<le> 1"
  proof -
    have "char_of (48 :: nat) = CHR ''0''" "char_of (49 :: nat) = CHR ''1''" by code_simp+
    moreover from that have "n = 0 \<or> n = 1" by auto
    ultimately show ?thesis by (auto simp: show_base.simps [of 10 0] show_base.simps [of 10 "Suc 0"] zero_pad_def digit_char_def is_bit_def)
  qed
qed

definition hex8_fields :: "string list" where
  "hex8_fields = [''error'', ''host0'', ''host1'', ''bridge_filler'', ''bridge_misc'']"

text \<open>
  A sample the driver can print: all fields, in their order, signed only where a buffer
  may be absent, registers of 32 bits, a channel enable of one bit.
\<close>

definition sample_of :: "piece list \<Rightarrow> sample \<Rightarrow> bool" where
  "sample_of ps v \<longleftrightarrow> map fst v = field_names ps \<and>
     list_all (\<lambda>g. 0 \<le> dict_get v g) (filter (\<lambda>g. g \<notin> {''front'', ''queued'', ''back''}) (field_names ps)) \<and>
     list_all (\<lambda>g. dict_get v g < 2 ^ 32) hex8_fields \<and> dict_get v ''chen'' \<le> 1"

lemma printable_iff:
  "printable ps v \<longleftrightarrow> list_all (\<lambda>pc. case pc of L w \<Rightarrow> True | Fld g k \<Rightarrow> field_fits g k (dict_get v g)) ps"
  by (induction ps v rule: printable.induct) auto

lemma field_fits_cases:
  "g \<notin> set hexadecimal \<Longrightarrow> 0 \<le> x \<Longrightarrow> field_fits g Dec x"
  "g \<in> set hexadecimal \<Longrightarrow> 0 \<le> x \<Longrightarrow> field_fits g Hex x"
  "g \<in> set hexadecimal \<Longrightarrow> 0 \<le> x \<Longrightarrow> x < 2 ^ 32 \<Longrightarrow> field_fits g Hex8 x"
  "g \<notin> set hexadecimal \<Longrightarrow> 0 \<le> x \<Longrightarrow> x \<le> 1 \<Longrightarrow> field_fits g Bit x"
  using shown_field_ok [of "nat x"] by (auto simp: field_base_def simp del: field_ok.simps)

lemma printable_lines:
  "sample_of SCANOUT_LINE v \<Longrightarrow> printable SCANOUT_LINE v"
  "sample_of DIAGNOSTICS_LINE v \<Longrightarrow> printable DIAGNOSTICS_LINE v"
proof -
  show "printable SCANOUT_LINE v" if "sample_of SCANOUT_LINE v"
    using that [unfolded sample_of_def, THEN conjunct2]
    by (simp add: SCANOUT_LINE_def hex8_fields_def hexadecimal_def field_fits_cases
        del: field_fits.simps(2,3) One_nat_def)
  show "printable DIAGNOSTICS_LINE v" if "sample_of DIAGNOSTICS_LINE v"
    using that [unfolded sample_of_def, THEN conjunct2]
    by (simp add: DIAGNOSTICS_LINE_def hex8_fields_def hexadecimal_def field_fits_cases
        del: field_fits.simps(2,3) One_nat_def)
qed

lemma distinct_fields: "distinct (field_names SCANOUT_LINE)" "distinct (field_names DIAGNOSTICS_LINE)"
  by (simp_all add: SCANOUT_LINE_def DIAGNOSTICS_LINE_def)

lemma sample_line_samples:
  "sample_of SCANOUT_LINE v \<Longrightarrow> scanout_samples (concat (show_pieces SCANOUT_LINE v)) = [v]"
  "sample_of DIAGNOSTICS_LINE v \<Longrightarrow> diagnostics_samples (concat (show_pieces DIAGNOSTICS_LINE v)) = [v]"
proof -
  show "scanout_samples (concat (show_pieces SCANOUT_LINE v)) = [v]" if "sample_of SCANOUT_LINE v"
    unfolding scanout_samples_def SCANOUT_LINE_RE_def
    by (rule template_roundtrip [OF template_ok_lines(1) SCANOUT_LINE_def _ printable_lines(1) _ distinct_fields(1)])
      (use that in \<open>simp_all add: sample_of_def\<close>)
  show "diagnostics_samples (concat (show_pieces DIAGNOSTICS_LINE v)) = [v]" if "sample_of DIAGNOSTICS_LINE v"
    unfolding diagnostics_samples_def DIAGNOSTICS_LINE_RE_def
    by (rule template_roundtrip [OF template_ok_lines(2) DIAGNOSTICS_LINE_def _ printable_lines(2) _ distinct_fields(2)])
      (use that in \<open>simp_all add: sample_of_def\<close>)
qed




end
