(* ===== verification/Py_IO.thy ===== *)
theory Py_IO
  imports Complex_Main Py_Base
begin

text \<open>
  Effects.  A procedure of the scripts is a function from the world to an outcome and the
  world after it.  The world answers: it holds, for every primitive that asks it something
  (the clock, a read or a write of the serial device, opening it, setting its control lines,
  running a program), the answers still to be given, in order; and it records what is sent
  and printed.  A primitive whose answers have run out is \<open>Blocked\<close>: it has not returned.
  \<^verbatim>\<open>time.sleep\<close> shows only in later clock answers.  Console text is a list of ASCII
  characters, on which decoding is the identity.
\<close>

section \<open>The world\<close>

record world =
  w_clock :: "rat list"
  w_clock_ns :: "nat list"
  w_reads :: "string result list"
  w_writes :: "nat result list"
  w_opens :: "unit result list"
  w_controls :: "unit result list"
  w_processes :: "int result list"
  w_sent :: "string list"
  w_printed :: "string list"

datatype 'a outcome = Done 'a | Raise py_error | Blocked

type_synonym 'a io = "world \<Rightarrow> 'a outcome \<times> world"

definition io_return :: "'a \<Rightarrow> 'a io" where
  "io_return x w = (Done x, w)"

definition io_raise :: "py_error \<Rightarrow> 'a io" where
  "io_raise e w = (Raise e, w)"

definition io_bind :: "'a io \<Rightarrow> ('a \<Rightarrow> 'b io) \<Rightarrow> 'b io" where
  "io_bind m f w = (case m w of (Done x, w') \<Rightarrow> f x w' | (Raise e, w') \<Rightarrow> (Raise e, w') | (Blocked, w') \<Rightarrow> (Blocked, w'))"

text \<open>\<^verbatim>\<open>try: m except E: h\<close>, where \<open>c\<close> says which errors \<open>E\<close> catches.\<close>

definition io_catch :: "'a io \<Rightarrow> (py_error \<Rightarrow> bool) \<Rightarrow> (py_error \<Rightarrow> 'a io) \<Rightarrow> 'a io" where
  "io_catch m c h w = (case m w of (Raise e, w') \<Rightarrow> if c e then h e w' else (Raise e, w') | r \<Rightarrow> r)"

definition io_result :: "'a result \<Rightarrow> 'a io" where
  "io_result r = (case r of Inl e \<Rightarrow> io_raise e | Inr x \<Rightarrow> io_return x)"

definition io_then :: "unit io \<Rightarrow> 'b io \<Rightarrow> 'b io" where
  "io_then m k = io_bind m (\<lambda>_. k)"

section \<open>Primitives\<close>

definition monotonic :: "rat io" where
  "monotonic w = (case w_clock w of [] \<Rightarrow> (Blocked, w) | t # ts \<Rightarrow> (Done t, w\<lparr>w_clock := ts\<rparr>))"

definition monotonic_ns :: "nat io" where
  "monotonic_ns w = (case w_clock_ns w of [] \<Rightarrow> (Blocked, w) | t # ts \<Rightarrow> (Done t, w\<lparr>w_clock_ns := ts\<rparr>))"

definition dev_read :: "string io" where
  "dev_read w = (case w_reads w of [] \<Rightarrow> (Blocked, w) | r # rs \<Rightarrow> io_result r (w\<lparr>w_reads := rs\<rparr>))"

definition dev_write :: "string \<Rightarrow> nat io" where
  "dev_write s w = (case w_writes w of [] \<Rightarrow> (Blocked, w)
     | r # rs \<Rightarrow> io_result r (w\<lparr>w_writes := rs, w_sent := w_sent w @ [s]\<rparr>))"

definition dev_open :: "unit io" where
  "dev_open w = (case w_opens w of [] \<Rightarrow> (Blocked, w) | r # rs \<Rightarrow> io_result r (w\<lparr>w_opens := rs\<rparr>))"

definition dev_control :: "unit io" where
  "dev_control w = (case w_controls w of [] \<Rightarrow> (Blocked, w) | r # rs \<Rightarrow> io_result r (w\<lparr>w_controls := rs\<rparr>))"

text \<open>\<^verbatim>\<open>subprocess.run(args, check=...)\<close>: the exit status, an error when checked and not zero.\<close>

definition run_process :: "string list \<Rightarrow> bool \<Rightarrow> unit io" where
  "run_process args check w = (case w_processes w of [] \<Rightarrow> (Blocked, w)
     | r # rs \<Rightarrow> io_result (rbind r (\<lambda>status. if check \<and> status \<noteq> 0
         then Inl (CalledProcessError (''Command '' @ [CHR 0x27, CHR ''[''] @ join '', '' (map py_repr args) @
           [CHR '']'', CHR 0x27] @ '' returned non-zero exit status '' @ str_int status @ ''.''))
         else Inr ())) (w\<lparr>w_processes := rs\<rparr>))"

definition py_print :: "string \<Rightarrow> unit io" where
  "py_print s w = (Done (), w\<lparr>w_printed := w_printed w @ [s]\<rparr>)"

text \<open>The classes of errors the scripts catch; every one of these is an \<^verbatim>\<open>OSError\<close> in Python.\<close>

fun is_os_error :: "py_error \<Rightarrow> bool" where
  "is_os_error (OSError m) = True"
| "is_os_error (SerialException m) = True"
| "is_os_error (TimeoutError m) = True"
| "is_os_error (FileNotFoundError m) = True"
| "is_os_error _ = False"

fun is_serial_error :: "py_error \<Rightarrow> bool" where
  "is_serial_error (SerialException m) = True"
| "is_serial_error _ = False"

fun error_message :: "py_error \<Rightarrow> string" where
  "error_message (ValueError m) = m"
| "error_message (FirmwareFormatError m) = m"
| "error_message (ContractError m) = m"
| "error_message (AssertionError m) = m"
| "error_message (RuntimeError m) = m"
| "error_message (TimeoutError m) = m"
| "error_message (SystemExit m) = m"
| "error_message (FileNotFoundError m) = m"
| "error_message (OSError m) = m"
| "error_message (SerialException m) = m"
| "error_message (CalledProcessError m) = m"
| "error_message _ = []"

primrec print_all :: "string list \<Rightarrow> unit io" where
  "print_all [] = io_return ()"
| "print_all (s # ss) = io_then (py_print s) (print_all ss)"

text \<open>\<^verbatim>\<open>try: m finally: h\<close>\<close>

definition io_finally :: "'a io \<Rightarrow> unit io \<Rightarrow> 'a io" where
  "io_finally m h w = (case m w of
     (Blocked, w') \<Rightarrow> (Blocked, w')
   | (r, w') \<Rightarrow> (case h w' of (Done _, w'') \<Rightarrow> (r, w'') | (Raise e, w'') \<Rightarrow> (Raise e, w'') | (Blocked, w'') \<Rightarrow> (Blocked, w'')))"

section \<open>Loops\<close>

text \<open>
  A loop \<^verbatim>\<open>while\<close> of the scripts reads the clock in every round, so a world with \<open>n\<close> clock
  answers lets it make at most \<open>n\<close> rounds; the body gives the state of the next round or the
  value of the loop.
\<close>

primrec io_rounds :: "nat \<Rightarrow> ('s \<Rightarrow> ('s + 'a) io) \<Rightarrow> 's \<Rightarrow> 'a io" where
  "io_rounds 0 body s = (\<lambda>w. (Blocked, w))"
| "io_rounds (Suc n) body s = io_bind (body s) (\<lambda>r. case r of Inl s' \<Rightarrow> io_rounds n body s' | Inr x \<Rightarrow> io_return x)"

definition io_loop :: "('s \<Rightarrow> ('s + 'a) io) \<Rightarrow> 's \<Rightarrow> 'a io" where
  "io_loop body s w = io_rounds (Suc (length (w_clock w))) body s w"

text \<open>What a procedure may do to the clock: take answers, never give any back.\<close>

definition keeps_clock :: "'a io \<Rightarrow> bool" where
  "keeps_clock m \<longleftrightarrow> (\<forall>w. length (w_clock (snd (m w))) \<le> length (w_clock w))"

definition asks_clock :: "('s + 'a) io \<Rightarrow> bool" where
  "asks_clock m \<longleftrightarrow> (\<forall>w s w'. m w = (Done (Inl s), w') \<longrightarrow> length (w_clock w') < length (w_clock w))"

named_theorems io_simps \<open>running procedures on a world\<close>
named_theorems clock_intros \<open>procedures that only take clock answers\<close>

lemma io_return_run [io_simps]: "io_return x w = (Done x, w)"
  by (simp add: io_return_def)

lemma io_raise_run [io_simps]: "io_raise e w = (Raise e, w)"
  by (simp add: io_raise_def)

lemma io_bind_run [io_simps]:
  "m w = (Done x, w') \<Longrightarrow> io_bind m f w = f x w'"
  "m w = (Raise e, w') \<Longrightarrow> io_bind m f w = (Raise e, w')"
  "m w = (Blocked, w') \<Longrightarrow> io_bind m f w = (Blocked, w')"
  by (simp_all add: io_bind_def)

lemma io_bind_DoneE:
  assumes "io_bind m f w = (Done y, w')"
  obtains x w1 where "m w = (Done x, w1)" and "f x w1 = (Done y, w')"
  using assms by (auto simp: io_bind_def split: prod.splits outcome.splits)

lemma io_bind_return [simp]: "io_bind (io_return x) f = f x"
  by (simp add: io_bind_def io_return_def fun_eq_iff)

lemma io_bind_assoc: "io_bind (io_bind m f) g = io_bind m (\<lambda>x. io_bind (f x) g)"
  by (auto simp: io_bind_def fun_eq_iff split: prod.split outcome.split)

lemma keeps_clock_basic [clock_intros]:
  "keeps_clock (io_return x)" "keeps_clock (io_raise e)" "keeps_clock monotonic" "keeps_clock monotonic_ns"
  "keeps_clock dev_read" "keeps_clock (dev_write s)" "keeps_clock dev_open" "keeps_clock dev_control"
  "keeps_clock (run_process args check)" "keeps_clock (py_print s)"
  by (auto simp: keeps_clock_def io_return_def io_raise_def monotonic_def monotonic_ns_def dev_read_def
      dev_write_def dev_open_def dev_control_def run_process_def py_print_def io_result_def split: list.split sum.split)

lemma keeps_clock_bind [clock_intros]:
  assumes "keeps_clock m" and "\<And>x. keeps_clock (f x)"
  shows "keeps_clock (io_bind m f)"
  unfolding keeps_clock_def
proof
  fix w
  obtain r w1 where m: "m w = (r, w1)" by (cases "m w")
  have 1: "length (w_clock w1) \<le> length (w_clock w)" using assms(1) m unfolding keeps_clock_def by (metis snd_conv)
  show "length (w_clock (snd (io_bind m f w))) \<le> length (w_clock w)"
  proof (cases r)
    case (Done x)
    have "length (w_clock (snd (f x w1))) \<le> length (w_clock w1)" using assms(2) unfolding keeps_clock_def by blast
    with 1 m Done show ?thesis by (simp add: io_bind_def)
  qed (use 1 m in \<open>simp_all add: io_bind_def\<close>)
qed

lemma keeps_clock_catch [clock_intros]:
  assumes "keeps_clock m" and "\<And>e. keeps_clock (h e)"
  shows "keeps_clock (io_catch m c h)"
  unfolding keeps_clock_def
proof
  fix w
  obtain r w1 where m: "m w = (r, w1)" by (cases "m w")
  have 1: "length (w_clock w1) \<le> length (w_clock w)" using assms(1) m unfolding keeps_clock_def by (metis snd_conv)
  show "length (w_clock (snd (io_catch m c h w))) \<le> length (w_clock w)"
  proof (cases r)
    case (Raise e)
    have "length (w_clock (snd (h e w1))) \<le> length (w_clock w1)" using assms(2) unfolding keeps_clock_def by blast
    with 1 m Raise show ?thesis by (simp add: io_catch_def)
  qed (use 1 m in \<open>simp_all add: io_catch_def\<close>)
qed

lemma keeps_clock_then [clock_intros]: "keeps_clock m \<Longrightarrow> keeps_clock k \<Longrightarrow> keeps_clock (io_then m k)"
  unfolding io_then_def by (rule keeps_clock_bind)

lemma keeps_clock_if [clock_intros]: "keeps_clock m \<Longrightarrow> keeps_clock k \<Longrightarrow> keeps_clock (if b then m else k)"
  by simp

lemma keeps_clock_rounds:
  assumes "\<And>s. keeps_clock (body s)"
  shows "keeps_clock (io_rounds n body s)"
proof (induction n arbitrary: s)
  case (Suc n)
  show ?case unfolding io_rounds.simps
    by (rule keeps_clock_bind [OF assms]) (auto intro: Suc clock_intros split: sum.split)
qed (simp add: keeps_clock_def)

lemma keeps_clock_loop [clock_intros]:
  assumes "\<And>s. keeps_clock (body s)"
  shows "keeps_clock (io_loop body s)"
proof -
  have "keeps_clock (io_rounds n body s)" for n by (rule keeps_clock_rounds [OF assms])
  then show ?thesis unfolding keeps_clock_def io_loop_def by blast
qed

lemma keeps_clock_cases [clock_intros]:
  "(\<And>x. keeps_clock (f x)) \<Longrightarrow> keeps_clock (Let y f)"
  "keeps_clock m \<Longrightarrow> (\<And>x. keeps_clock (f x)) \<Longrightarrow> keeps_clock (case opt of None \<Rightarrow> m | Some x \<Rightarrow> f x)"
  "(\<And>a. keeps_clock (g a)) \<Longrightarrow> (\<And>x. keeps_clock (f x)) \<Longrightarrow> keeps_clock (case r of Inl a \<Rightarrow> g a | Inr x \<Rightarrow> f x)"
  by (simp_all split: option.split sum.split)

text \<open>A body that begins by asking the clock uses up an answer.\<close>

lemma asks_clock_monotonic:
  assumes "\<And>t. keeps_clock (f t)"
  shows "asks_clock (io_bind monotonic f)"
  unfolding asks_clock_def
proof (intro allI impI)
  fix w s w' assume run: "io_bind monotonic f w = (Done (Inl s), w')"
  then obtain t ts where w: "w_clock w = t # ts" by (cases "w_clock w") (simp_all add: io_bind_def monotonic_def)
  with run have "f t (w\<lparr>w_clock := ts\<rparr>) = (Done (Inl s), w')" by (simp add: io_bind_def monotonic_def)
  then have "w' = snd (f t (w\<lparr>w_clock := ts\<rparr>))" by simp
  moreover have "length (w_clock (snd (f t (w\<lparr>w_clock := ts\<rparr>)))) \<le> length ts"
    using assms [of t] unfolding keeps_clock_def by (metis select_convs(1) surjective update_convs(1))
  ultimately show "length (w_clock w') < length (w_clock w)" using w by simp
qed

text \<open>A body that asks the clock to go on never exhausts the rounds a world allows.\<close>

lemma io_rounds_enough:
  assumes "\<And>s. asks_clock (body s)"
  shows "length (w_clock w) < n \<Longrightarrow> length (w_clock w) < k \<Longrightarrow> io_rounds n body s w = io_rounds k body s w"
proof (induction n arbitrary: k s w)
  case (Suc n)
  then obtain j where k: "k = Suc j" by (cases k) simp_all
  have "io_rounds n body s' w' = io_rounds j body s' w'" if "body s w = (Done (Inl s'), w')" for s' w'
  proof (rule Suc.IH)
    have "length (w_clock w') < length (w_clock w)" using assms that unfolding asks_clock_def by blast
    then show "length (w_clock w') < n" "length (w_clock w') < j" using Suc.prems k by simp_all
  qed
  then show ?case by (auto simp: k io_bind_def split: prod.split outcome.split sum.split)
qed simp

theorem io_loop_unfold:
  assumes "\<And>s. asks_clock (body s)"
  shows "io_loop body s w = io_bind (body s) (\<lambda>r. case r of Inl s' \<Rightarrow> io_loop body s' | Inr x \<Rightarrow> io_return x) w"
proof -
  have "io_rounds (length (w_clock w)) body s' w' = io_loop body s' w'"
    if "body s w = (Done (Inl s'), w')" for s' w'
    unfolding io_loop_def
    by (rule io_rounds_enough [OF assms]) (use assms that in \<open>auto simp: asks_clock_def\<close>)
  then show ?thesis unfolding io_loop_def io_rounds.simps
    by (auto simp: io_bind_def split: prod.split outcome.split sum.split)
qed

end
