(* ===== verification/M9_Serial.thy ===== *)
theory M9_Serial
  imports M9_Telemetry Py_IO
begin

text \<open>
  The serial half of \<^verbatim>\<open>m9-hardware-test.py\<close>: opening and closing the port, the loops that wait
  for the shell, for a prompt and for the end of a command, recovery after a reconnect, and
  the two probes that every mode runs first.  The device is the world's: a procedure takes
  the answers of its reads and writes from it.
\<close>

section \<open>The port\<close>

definition DISPLAY_SYSFS :: string where
  "DISPLAY_SYSFS = ''/sys/bus/platform/devices/500a0000.display''"

definition SHELL_PROMPT_RE :: regex where
  "SHELL_PROMPT_RE = Cats [Alt Bos (Cat (Opt (Lit [carriage_return])) (Lit [newline])),
     Alt (Lit ''/ # '') (Lit ''micronux# ''), Eos]"

record command_result =
  cmd_output :: string
  return_code :: int

definition rom_reset :: "string \<Rightarrow> string \<Rightarrow> string \<Rightarrow> unit io" where
  "rom_reset executable usb_reset_arm port =
     io_then (run_process [executable, usb_reset_arm, ''--port'', port] False)
       (run_process [executable, ''-m'', ''esptool'', ''--chip'', ''esp32p4'', ''--port'', port,
          ''--before'', ''default-reset'', ''--after'', ''hard-reset'', ''chip-id''] True)"

definition open_body :: "bool \<Rightarrow> rat \<Rightarrow> unit \<Rightarrow> (unit + unit) io" where
  "open_body clear_input deadline _ = io_catch
     (io_then dev_open (io_then (if clear_input then dev_control else io_return ()) (io_return (Inr ()))))
     is_serial_error
     (\<lambda>e. io_bind monotonic (\<lambda>now. if deadline \<le> now then io_raise e else io_return (Inl ())))"

definition open_serial :: "rat \<Rightarrow> bool \<Rightarrow> unit io" where
  "open_serial timeout clear_input =
     io_bind monotonic (\<lambda>now. io_loop (open_body clear_input (now + timeout)) ())"

definition quietly :: "unit io \<Rightarrow> unit io" where
  "quietly m = io_catch m is_os_error (\<lambda>_. io_return ())"

definition close_serial_quietly :: "unit io" where
  "close_serial_quietly = io_then (quietly dev_control) (io_then (quietly dev_control) (quietly dev_control))"

section \<open>Reading until a deadline\<close>

text \<open>
  The loop that \<^verbatim>\<open>wait_for_shell\<close>, \<^verbatim>\<open>wait_for_prompt\<close>, \<^verbatim>\<open>capture_passive_output\<close> and \<^verbatim>\<open>run_command\<close> share:
  read while the deadline is ahead, and after each chunk judge everything captured so far.
  It ends with the text captured (at the deadline) or with the value of the judge.
\<close>

type_synonym 'a judge = "string \<Rightarrow> 'a result option"

definition poll_body :: "rat \<Rightarrow> 'a judge \<Rightarrow> string \<Rightarrow> (string + (string + 'a)) io" where
  "poll_body deadline judge captured = io_bind monotonic (\<lambda>now.
     if now < deadline
     then io_bind dev_read (\<lambda>chunk.
       if chunk = [] then io_return (Inl captured)
       else io_then (py_print chunk) (case judge (captured @ chunk) of
           None \<Rightarrow> io_return (Inl (captured @ chunk))
         | Some (Inl e) \<Rightarrow> io_raise e
         | Some (Inr x) \<Rightarrow> io_return (Inr (Inr x))))
     else io_return (Inr (Inl captured)))"

definition poll :: "rat \<Rightarrow> 'a judge \<Rightarrow> string \<Rightarrow> (string + 'a) io" where
  "poll deadline judge = io_loop (poll_body deadline judge)"

definition failure_judge :: "string \<Rightarrow> 'a judge" where
  "failure_judge prefix_text text = (case failure_marker text of
     Some marker \<Rightarrow> Some (Inl (RuntimeError (prefix_text @ marker))) | None \<Rightarrow> None)"

definition has_prompt :: "string \<Rightarrow> bool" where
  "has_prompt text \<longleftrightarrow> py_search SHELL_PROMPT_RE text \<noteq> None"

definition shell_judge :: "string judge" where
  "shell_judge text = (if py_in ''MICRONUX:M6:COMBINED:SHELL ready'' text \<and> has_prompt text
     then Some (Inr text)
     else failure_judge ''kernel failure observed while waiting for shell: '' text)"

definition wait_for_shell :: "rat \<Rightarrow> string io" where
  "wait_for_shell timeout = io_bind monotonic (\<lambda>now.
     io_bind (poll (now + timeout) shell_judge []) (\<lambda>r. case r of
       Inr text \<Rightarrow> io_then dev_control (io_return text)
     | Inl _ \<Rightarrow> io_raise (TimeoutError ''Linux USB shell did not become ready'')))"

definition prompt_judge :: "string judge" where
  "prompt_judge text = (if has_prompt text then Some (Inr text)
     else failure_judge ''kernel failure observed after USB reconnect: '' text)"

definition prompt_body :: "rat \<Rightarrow> string \<Rightarrow> (string + string) io" where
  "prompt_body deadline captured = io_bind monotonic (\<lambda>now.
     if now < deadline
     then io_bind (dev_write [newline]) (\<lambda>_. io_bind monotonic (\<lambda>sampled.
       poll (min deadline (sampled + 1 / 2)) prompt_judge captured))
     else io_raise (TimeoutError ''Linux USB shell did not return after reconnect''))"

definition wait_for_prompt :: "rat \<Rightarrow> string io" where
  "wait_for_prompt timeout = io_bind monotonic (\<lambda>now. io_loop (prompt_body (now + timeout)) [])"

definition capture_passive_output :: "rat \<Rightarrow> string io" where
  "capture_passive_output duration = io_bind monotonic (\<lambda>now.
     io_bind (poll (now + duration) (\<lambda>_. None) []) (\<lambda>r. case r of Inl text \<Rightarrow> io_return text | Inr text \<Rightarrow> io_return text))"

section \<open>Commands\<close>

definition end_pattern :: "string \<Rightarrow> regex" where
  "end_pattern token = Cat (Lit (token @ '':END:'')) (Grp ''1'' (Plus digit))"

definition command_token :: "string \<Rightarrow> nat \<Rightarrow> string" where
  "command_token label ns = ''MICRONUX_M9_'' @ label @ ''_'' @ str_nat ns"

definition command_payload :: "string \<Rightarrow> string \<Rightarrow> string" where
  "command_payload token command = ''echo '' @ token @ '':BEGIN; '' @ command @ ''; '' @
     ''m9_rc=$?; echo '' @ token @ '':END:$m9_rc'' @ [newline]"

definition command_judge :: "string \<Rightarrow> string \<Rightarrow> command_result judge" where
  "command_judge token label text = (case failure_marker text of
     Some marker \<Rightarrow> Some (Inl (RuntimeError (''kernel failure observed during '' @ label @ '': '' @ marker)))
   | None \<Rightarrow> (case py_search (end_pattern token) text of
       None \<Rightarrow> None
     | Some (q, rest, gs) \<Rightarrow> Some (Inr \<lparr>cmd_output = text, return_code = int_str (snd (hd gs))\<rparr>)))"

definition await_end :: "string \<Rightarrow> string \<Rightarrow> rat \<Rightarrow> command_result io" where
  "await_end token label timeout = io_bind monotonic (\<lambda>now.
     io_bind (poll (now + timeout) (command_judge token label) []) (\<lambda>r. case r of
       Inr result \<Rightarrow> io_return result
     | Inl _ \<Rightarrow> io_raise (TimeoutError (''serial command timed out: '' @ label))))"

definition run_command :: "string \<Rightarrow> string \<Rightarrow> rat \<Rightarrow> command_result io" where
  "run_command command label timeout = io_bind monotonic_ns (\<lambda>ns.
     let token = command_token label ns; payload = command_payload token command in
     io_bind (dev_write payload) (\<lambda>written.
       if written \<noteq> length payload then io_raise (SerialException (''short serial write: '' @ label))
       else await_end token label timeout))"

definition fail :: "string \<Rightarrow> string \<Rightarrow> int io" where
  "fail stage detail =
     io_then (py_print (''MICRONUX:M9:HARDWARE-TEST:FAIL stage='' @ stage @ '' detail='' @ detail)) (io_return 1)"

section \<open>Recovery after a reconnect\<close>

definition reconnect_prompt_complete :: "string \<Rightarrow> nat \<Rightarrow> bool" where
  "reconnect_prompt_complete out response_start \<longleftrightarrow> has_prompt (drop response_start out)"

definition reopen_reconnect_serial :: "rat \<Rightarrow> unit io" where
  "reopen_reconnect_serial deadline = io_then close_serial_quietly (io_bind monotonic (\<lambda>now.
     if deadline - now \<le> 0 then io_raise (TimeoutError ''Linux USB endpoint did not reactivate'')
     else io_bind monotonic (\<lambda>later.
       if deadline - later \<le> 0 then io_raise (TimeoutError ''Linux USB endpoint did not reactivate'')
       else open_serial (deadline - later) False)))"

definition quote_closers :: "string list" where
  "quote_closers = [[CHR 0x22, newline], [CHR 0x27, newline]]"

definition continuation_re :: regex where
  "continuation_re = Cats [Alt Bos (Cat (Opt (Lit [carriage_return])) (Lit [newline])), Lit ''> '', Eos]"

text \<open>\<^verbatim>\<open>capture_passive_output(device, min(limit, max(0.0, deadline - time.monotonic())))\<close>\<close>

definition timed_capture :: "rat \<Rightarrow> rat \<Rightarrow> string io" where
  "timed_capture limit deadline =
     io_bind monotonic (\<lambda>now. capture_passive_output (min limit (max 0 (deadline - now))))"

definition recovery_payload :: "string \<Rightarrow> nat \<Rightarrow> string \<times> nat" where
  "recovery_payload captured closer_index =
     (if py_search continuation_re (drop (length captured - 2048) captured) \<noteq> None
      then (quote_closers ! (closer_index mod length quote_closers), closer_index + 1)
      else ([newline], closer_index))"

definition recovery_attempt :: "rat \<Rightarrow> string \<Rightarrow> string \<Rightarrow> (string + string) io" where
  "recovery_attempt deadline captured payload = io_catch
     (io_bind (dev_write payload) (\<lambda>written.
       if written \<noteq> length payload then io_raise (SerialException ''short write while recovering USB shell'')
       else io_bind (timed_capture (3 / 4) deadline) (\<lambda>extra.
         io_return (if reconnect_prompt_complete (captured @ extra) (length captured)
           then Inr (captured @ extra) else Inl (captured @ extra)))))
     is_os_error
     (\<lambda>_. io_bind (io_catch (timed_capture (1 / 2) deadline) is_os_error (\<lambda>_. io_return [])) (\<lambda>extra.
       if reconnect_prompt_complete (captured @ extra) (length captured)
       then io_return (Inr (captured @ extra))
       else io_then (reopen_reconnect_serial deadline) (io_return (Inl (captured @ extra)))))"

definition recovery_body :: "rat \<Rightarrow> string \<times> nat \<Rightarrow> (string \<times> nat + string) io" where
  "recovery_body deadline = (\<lambda>(captured, closer_index). io_bind monotonic (\<lambda>now.
     if now < deadline
     then io_bind
       (io_catch (io_bind (timed_capture (3 / 4) deadline) (\<lambda>extra. io_return (Some extra))) is_os_error
         (\<lambda>_. io_then (reopen_reconnect_serial deadline) (io_return None)))
       (\<lambda>r. case r of
         None \<Rightarrow> io_return (Inl (captured, closer_index))
       | Some extra \<Rightarrow> (case recovery_payload (captured @ extra) closer_index of (payload, next_index) \<Rightarrow>
           io_bind (recovery_attempt deadline (captured @ extra) payload) (\<lambda>s. case s of
             Inr text \<Rightarrow> io_return (Inr text)
           | Inl text \<Rightarrow> io_return (Inl (text, next_index)))))
     else io_then close_serial_quietly
       (io_raise (TimeoutError ''Linux USB shell did not become writable after reconnect''))))"

definition recover_reconnect_prompt :: "rat \<Rightarrow> string io" where
  "recover_reconnect_prompt timeout =
     io_bind monotonic (\<lambda>now. io_loop (recovery_body (now + timeout)) ([], 0))"

section \<open>The probes of every mode\<close>

definition identity_command :: string where
  \<open>identity_command =
     ''m9_boot_a="$(cat /proc/sys/kernel/random/boot_id)"; m9_uptime_a="$(cat '' @
     ''/proc/uptime)"; echo "MICRONUX:M9.2:RUNTIME sample=a boot_id=$m9_boot_a"; echo '' @
     ''"MICRONUX:M9.2:RUNTIME sample=a uptime=$m9_uptime_a"; sleep 1; m9_boot_b="$(cat '' @
     ''/proc/sys/kernel/random/boot_id)"; m9_uptime_b="$(cat /proc/uptime)"; echo '' @
     ''"MICRONUX:M9.2:RUNTIME sample=b boot_id=$m9_boot_b"; echo "MICRONUX:M9.2:RUNTIME '' @
     ''sample=b uptime=$m9_uptime_b"''\<close>

definition lowerhex_run :: "nat \<Rightarrow> regex" where
  "lowerhex_run n = Rep n (Cls is_lowerhex)"

definition boot_sample_re :: regex where
  "boot_sample_re = Cat Bol (Cats ([Lit ''MICRONUX:M9.2:RUNTIME sample='',
     Grp ''1'' (Alt (Lit ''a'') (Lit ''b'')), Lit '' boot_id='',
     Grp ''2'' (Cats [lowerhex_run 8, Lit ''-'', lowerhex_run 4, Lit ''-'', lowerhex_run 4, Lit ''-'',
       lowerhex_run 4, Lit ''-'', lowerhex_run 12])] @ line_end))"

definition uptime_sample_re :: regex where
  "uptime_sample_re = Cat Bol (Cats ([Lit ''MICRONUX:M9.2:RUNTIME sample='',
     Grp ''1'' (Alt (Lit ''a'') (Lit ''b'')), Lit '' uptime='', Grp ''2'' number_re, Lit '' '', number_re] @ line_end))"

definition pair_of :: "groups \<Rightarrow> string \<times> string" where
  "pair_of gs = (snd (gs ! 0), snd (gs ! 1))"

definition identity_problem :: "command_result \<Rightarrow> string option" where
  "identity_problem identity =
     (let boot_samples = map pair_of (groups_of boot_sample_re (cmd_output identity));
          uptime_samples = map pair_of (groups_of uptime_sample_re (cmd_output identity));
          boot_ids = map snd boot_samples; uptimes = map snd uptime_samples in
      first_reject
        [(return_code identity \<noteq> 0, ''command-rc-'' @ str_int (return_code identity)),
         (map fst boot_samples \<noteq> [''a'', ''b''], ''boot-id-samples-invalid''),
         (boot_ids ! 0 \<noteq> boot_ids ! 1, ''boot-id-changed''),
         (map fst uptime_samples \<noteq> [''a'', ''b''], ''uptime-samples-invalid''),
         (float_str (uptimes ! 1) \<le> float_str (uptimes ! 0), ''uptime-not-advancing'')])"

definition identity_report :: "command_result \<Rightarrow> string" where
  "identity_report identity =
     (let boot_ids = map (snd \<circ> pair_of) (groups_of boot_sample_re (cmd_output identity));
          uptimes = map (snd \<circ> pair_of) (groups_of uptime_sample_re (cmd_output identity)) in
      ''MICRONUX:M9.2:RUNTIME state=verified boot_id='' @ boot_ids ! 0 @ '' uptime='' @ uptimes ! 0 @ ''->'' @ uptimes ! 1)"

definition verify_runtime_identity :: "string option io" where
  "verify_runtime_identity = io_bind (run_command identity_command ''RUNTIME_IDENTITY'' 20) (\<lambda>identity.
     case identity_problem identity of
       Some problem \<Rightarrow> io_return (Some problem)
     | None \<Rightarrow> io_then (py_print (identity_report identity)) (io_return None))"

definition touch_terminal_command :: string where
  \<open>touch_terminal_command =
     ''D='' @ DISPLAY_SYSFS @
     ''; m9_touch_wait=0; m9_touch_state=registering; while [ "$m9_touch_wait" -lt 20 ]; do '' @
     ''m9_touch_state="$(cat "$D/touch" 2>/dev/null)" || exit 2; if [ "$m9_touch_state" != '' @
     ''registering ]; then break; fi; m9_touch_wait=$((m9_touch_wait + 1)); sleep 1; done; '' @
     ''printf "%s'' @ [CHR 0x5C] @ ''n" "$m9_touch_state"; test "$m9_touch_state" != registering''\<close>

definition wait_for_touch_terminal :: "string option io" where
  "wait_for_touch_terminal = io_bind (run_command touch_terminal_command ''TOUCH_TERMINAL'' 30) (\<lambda>result.
     io_return (first_reject
       [(return_code result \<noteq> 0, ''touch-terminal-command-rc-'' @ str_int (return_code result)),
        (py_search TOUCH_LINE_RE (cmd_output result) = None, ''touch-terminal-state-invalid'')]))"

section \<open>The shared loop\<close>

lemma io_loop_rule:
  assumes "io_loop body s w = (Done x, w')" and "I s"
    and "\<And>s w s' w'. I s \<Longrightarrow> body s w = (Done (Inl s'), w') \<Longrightarrow> I s'"
    and "\<And>s w x w'. I s \<Longrightarrow> body s w = (Done (Inr x), w') \<Longrightarrow> Q x"
  shows "Q x"
proof -
  have "io_rounds n body s w = (Done x, w') \<Longrightarrow> I s \<Longrightarrow> Q x" for n s w
  proof (induction n arbitrary: s w)
    case (Suc n)
    from Suc.prems(1) obtain r w1 where r: "body s w = (Done r, w1)"
      "(case r of Inl s' \<Rightarrow> io_rounds n body s' | Inr x \<Rightarrow> io_return x) w1 = (Done x, w')"
      unfolding io_rounds.simps by (rule io_bind_DoneE)
    show ?case
    proof (cases r)
      case (Inl s')
      with r Suc.IH assms(3) [OF Suc.prems(2)] show ?thesis by auto
    next
      case (Inr y)
      with r assms(4) [OF Suc.prems(2)] show ?thesis by (auto simp: io_return_def)
    qed
  qed simp
  with assms(1,2) show ?thesis unfolding io_loop_def by blast
qed

lemma poll_body_asks: "asks_clock (poll_body deadline judge captured)"
  unfolding asks_clock_def poll_body_def
  by (auto simp: io_bind_def io_then_def io_return_def io_raise_def monotonic_def dev_read_def py_print_def
      io_result_def split: list.splits if_splits sum.splits option.splits)

lemma poll_cases:
  "poll deadline judge captured w = (case w_clock w of [] \<Rightarrow> (Blocked, w) | now # ts \<Rightarrow>
     if \<not> now < deadline then (Done (Inl captured), w\<lparr>w_clock := ts\<rparr>)
     else (case w_reads w of [] \<Rightarrow> (Blocked, w\<lparr>w_clock := ts\<rparr>)
       | Inl e # rs \<Rightarrow> (Raise e, w\<lparr>w_clock := ts, w_reads := rs\<rparr>)
       | Inr chunk # rs \<Rightarrow>
         if chunk = [] then poll deadline judge captured (w\<lparr>w_clock := ts, w_reads := rs\<rparr>)
         else let w1 = w\<lparr>w_clock := ts, w_reads := rs, w_printed := w_printed w @ [chunk]\<rparr> in
           (case judge (captured @ chunk) of
              None \<Rightarrow> poll deadline judge (captured @ chunk) w1
            | Some (Inl e) \<Rightarrow> (Raise e, w1)
            | Some (Inr x) \<Rightarrow> (Done (Inr x), w1))))"
  unfolding poll_def
  by (subst io_loop_unfold [OF poll_body_asks])
    (auto simp: poll_body_def io_bind_def io_then_def io_return_def io_raise_def monotonic_def dev_read_def
      py_print_def io_result_def Let_def split: list.split sum.split option.split)

text \<open>The clock passing the deadline ends the loop, if every read is answered.\<close>

lemma poll_returns:
  assumes "\<exists>t \<in> set (w_clock w). deadline \<le> t" and "length (w_clock w) \<le> length (w_reads w)"
  shows "fst (poll deadline judge captured w) \<noteq> Blocked"
  using assms
proof (induction "w_clock w" arbitrary: w captured)
  case (Cons now ts)
  show ?case
  proof (cases "now < deadline")
    case True
    with Cons obtain r rs where r: "w_reads w = r # rs" by (cases "w_reads w") (auto simp flip: Cons.hyps(2))
    have ex: "\<exists>t \<in> set ts. deadline \<le> t" using Cons.prems(1) True by (auto simp flip: Cons.hyps(2))
    have len: "length ts \<le> length rs" using Cons.prems(2) r by (simp flip: Cons.hyps(2))
    have step: "fst (poll deadline judge c w1) \<noteq> Blocked" if "w_clock w1 = ts" "w_reads w1 = rs" for w1 c
      using Cons.hyps(1) [of w1 c] that ex len by simp
    show ?thesis
      by (subst poll_cases) (auto simp flip: Cons.hyps(2) simp: r True Let_def step split: sum.split option.split)
  next
    case False
    then show ?thesis by (subst poll_cases) (simp flip: Cons.hyps(2))
  qed
qed auto

text \<open>The text the device delivers before its first error.\<close>

fun received :: "string result list \<Rightarrow> string" where
  "received (Inr chunk # rs) = chunk @ received rs"
| "received _ = []"

text \<open>What the judge ends the loop with, it said of a prefix of the text delivered.\<close>

lemma poll_judged:
  assumes "poll deadline judge captured w = (Done (Inr x), w')"
  shows "\<exists>text. prefix text (captured @ received (w_reads w)) \<and> judge text = Some (Inr x)"
  using assms
proof (induction "w_clock w" arbitrary: w captured)
  case Nil
  then show ?case by (subst (asm) poll_cases) (simp flip: Nil.hyps)
next
  case (Cons now ts)
  from Cons.prems obtain chunk rs where r: "w_reads w = Inr chunk # rs"
    by (subst (asm) poll_cases) (auto simp flip: Cons.hyps(2) split: if_splits list.splits sum.splits)
  show ?case
  proof (cases "chunk = []")
    case True
    then have "poll deadline judge captured (w\<lparr>w_clock := ts, w_reads := rs\<rparr>) = (Done (Inr x), w')"
      using Cons.prems by (subst (asm) poll_cases) (auto simp flip: Cons.hyps(2) simp: r split: if_splits)
    from Cons.hyps(1) [OF _ this] True show ?thesis by (simp add: r)
  next
    case False
    let ?w1 = "w\<lparr>w_clock := ts, w_reads := rs, w_printed := w_printed w @ [chunk]\<rparr>"
    from Cons.prems False consider "judge (captured @ chunk) = Some (Inr x)"
      | "poll deadline judge (captured @ chunk) ?w1 = (Done (Inr x), w')"
      by (subst (asm) poll_cases)
        (auto simp flip: Cons.hyps(2) simp: r Let_def split: if_splits option.splits sum.splits)
    then show ?thesis
    proof cases
      case 1
      then show ?thesis by (intro exI [of _ "captured @ chunk"]) (simp add: r)
    next
      case 2
      from Cons.hyps(1) [OF _ this] show ?thesis by (simp add: r)
    qed
  qed
qed

lemma poll_controls: "w_controls (snd (poll deadline judge captured w)) = w_controls w"
proof (induction "w_clock w" arbitrary: w captured)
  case Nil
  then show ?case by (subst poll_cases) (simp flip: Nil.hyps)
next
  case (Cons now ts)
  then show ?case
    by (subst poll_cases) (auto simp flip: Cons.hyps(2) simp: Let_def split: list.split sum.split option.split)
qed

lemma io_bind_not_blocked:
  assumes "fst (m w) \<noteq> Blocked" and "\<And>x w'. m w = (Done x, w') \<Longrightarrow> fst (f x w') \<noteq> Blocked"
  shows "fst (io_bind m f w) \<noteq> Blocked"
  using assms by (cases "m w"; cases "fst (m w)") (auto simp: io_bind_def)

lemma monotonic_answer: "w_clock w = t # ts \<Longrightarrow> io_bind monotonic f w = f t (w\<lparr>w_clock := ts\<rparr>)"
  by (simp add: io_bind_def monotonic_def)

lemma run_command_start:
  assumes "w_clock_ns w = ns # nss" and "w_writes w = r # rs"
  shows "run_command command label timeout w =
    (let token = command_token label ns; payload = command_payload token command;
         w1 = w\<lparr>w_clock_ns := nss, w_writes := rs, w_sent := w_sent w @ [payload]\<rparr> in
     case r of Inl e \<Rightarrow> (Raise e, w1)
     | Inr written \<Rightarrow> if written \<noteq> length payload then (Raise (SerialException (''short serial write: '' @ label)), w1)
         else await_end token label timeout w1)"
  using assms
  by (auto simp: run_command_def monotonic_ns_def dev_write_def io_bind_def io_result_def io_return_def
      io_raise_def Let_def split: sum.split)



section \<open>The end of a command\<close>

text \<open>The first place where a literal is followed by a run, and the run itself.\<close>

definition run_here :: "string \<Rightarrow> (char \<Rightarrow> bool) \<Rightarrow> string \<Rightarrow> bool" where
  "run_here w P s \<longleftrightarrow> prefix w s \<and> drop (length w) s \<noteq> [] \<and> P (hd (drop (length w) s))"

fun first_run :: "string \<Rightarrow> (char \<Rightarrow> bool) \<Rightarrow> string \<Rightarrow> string option" where
  "first_run w P [] = None"
| "first_run w P (c # cs) =
     (if run_here w P (c # cs) then Some (takeWhile P (drop (length w) (c # cs))) else first_run w P cs)"

lemma hd_star_Cls:
  "\<exists>q ms. mt (Star (Cls P)) (p, s, gs) = (q, dropWhile P s, gs) # ms"
proof (induction s arbitrary: p)
  case (Cons c s)
  show ?case unfolding star_Cls_Cons using Cons.IH [of "Some c"] by auto
qed simp

lemma hd_plus_Cls:
  "mt (Plus (Cls P)) (p, s, gs) = [] \<longleftrightarrow> s = [] \<or> \<not> P (hd s)"
  "s \<noteq> [] \<Longrightarrow> P (hd s) \<Longrightarrow> \<exists>q ms. mt (Plus (Cls P)) (p, s, gs) = (q, dropWhile P s, gs) # ms"
proof -
  show hit: "\<exists>q ms. mt (Plus (Cls P)) (p, s, gs) = (q, dropWhile P s, gs) # ms" if "s \<noteq> []" "P (hd s)"
  proof -
    from that obtain c cs where "s = c # cs" "P c" by (cases s) auto
    then show ?thesis using hd_star_Cls [of P "Some c" cs gs] by (simp add: Plus_def del: mt.simps(6))
  qed
  show "mt (Plus (Cls P)) (p, s, gs) = [] \<longleftrightarrow> s = [] \<or> \<not> P (hd s)"
    using hit by (cases s) (auto simp: Plus_def simp del: mt.simps(6))
qed

lemma run_match:
  assumes "run_here w P s"
  shows "\<exists>q t ms. mt (Cat (Lit w) (Grp g (Plus (Cls P)))) (p, s, []) =
     (q, t, [(g, takeWhile P (drop (length w) s))]) # ms"
proof -
  let ?d = "drop (length w) s"
  from assms have "prefix w s" "?d \<noteq> []" "P (hd ?d)" by (auto simp: run_here_def)
  then obtain q ms where "mt (Plus (Cls P)) (last_char p w, ?d, []) = (q, dropWhile P ?d, []) # ms"
    using hd_plus_Cls(2) by blast
  moreover have "take (length ?d - length (dropWhile P ?d)) ?d = takeWhile P ?d"
    by (metis add_diff_cancel_right' append_eq_conv_conj length_append takeWhile_dropWhile_id)
  ultimately show ?thesis using \<open>prefix w s\<close> by (simp add: group_match_def)
qed

lemma run_no_match:
  "\<not> run_here w P s \<Longrightarrow> mt (Cat (Lit w) (Grp g (Plus (Cls P)))) (p, s, []) = []"
  by (auto simp: run_here_def group_match_def hd_plus_Cls(1))

lemma search_first_run:
  "map_option (\<lambda>m. snd (hd (snd (snd (snd m))))) (py_search_at (Cat (Lit w) (Grp g (Plus (Cls P)))) p s) =
     first_run w P s"
proof (induction s arbitrary: p)
  case Nil
  have "\<not> run_here w P []" by (simp add: run_here_def)
  from run_no_match [OF this, of g p] show ?case by (simp del: mt.simps)
next
  case (Cons c cs)
  show ?case
  proof (cases "run_here w P (c # cs)")
    case True
    from run_match [OF this, of g p] show ?thesis using True by (auto simp del: mt.simps)
  next
    case False
    from run_no_match [OF this, of g p] Cons.IH [of "Some c"] False show ?thesis by (simp del: mt.simps)
  qed
qed

definition end_code :: "string \<Rightarrow> string \<Rightarrow> string option" where
  "end_code token text = first_run (token @ '':END:'') is_digit text"

lemma command_judge_iff:
  "command_judge token label text = Some (Inr r) \<longleftrightarrow> failure_marker text = None \<and>
     (\<exists>ds. end_code token text = Some ds \<and> r = \<lparr>cmd_output = text, return_code = int_str ds\<rparr>)"
proof -
  have "end_code token text = map_option (\<lambda>m. snd (hd (snd (snd m)))) (py_search (end_pattern token) text)"
    using search_first_run [of "token @ '':END:''" "''1''" is_digit None "text"]
    by (simp add: py_search_def end_pattern_def end_code_def digit_def option.map_comp comp_def)
  then show ?thesis
    by (auto simp: command_judge_def split: option.splits)
qed

lemma first_run_nonempty: "first_run w P s = Some ds \<Longrightarrow> ds \<noteq> [] \<and> list_all P ds"
proof (induction s)
  case (Cons c cs)
  then show ?case
    by (cases "drop (length w) (c # cs)") (auto simp: run_here_def list_all_iff split: if_splits dest: set_takeWhileD)
qed simp

lemma run_here_append: "run_here w P s \<Longrightarrow> run_here w P (s @ t)"
  by (auto simp: run_here_def prefix_def)

text \<open>More text can only prolong the run found, never change where it is.\<close>

lemma run_here_within:
  assumes "run_here w P (s @ t)" and "length w < length s"
  shows "run_here w P s"
proof -
  have "prefix w s"
    using assms prefix_length_prefix [of w "s @ t" s] by (simp add: run_here_def)
  with assms show ?thesis by (auto simp: run_here_def hd_append)
qed

lemma first_run_within: "first_run w P s = Some ds \<Longrightarrow> length w < length s"
proof (induction s)
  case (Cons c cs)
  then show ?case by (auto simp: run_here_def split: if_splits)
qed simp

lemma first_run_append:
  "first_run w P s = Some ds \<Longrightarrow> \<exists>es. first_run w P (s @ t) = Some (ds @ es) \<and> list_all P es"
proof (induction s)
  case (Cons c cs)
  show ?case
  proof (cases "run_here w P (c # cs)")
    case True
    let ?d = "drop (length w) (c # cs)"
    have ds: "ds = takeWhile P ?d" using Cons.prems True by simp
    have len: "length w \<le> length (c # cs)" using True by (auto simp: run_here_def)
    have "takeWhile P (d @ t) = takeWhile P d @ (if list_all P d then takeWhile P t else [])" for d
      by (induction d) simp_all
    then have "takeWhile P (?d @ t) = ds @ (if list_all P ?d then takeWhile P t else [])"
      by (simp only: ds)
    moreover have "drop (length w) ((c # cs) @ t) = ?d @ t"
      by (subst drop_append) (use len in simp)
    moreover have "run_here w P ((c # cs) @ t)" by (rule run_here_append [OF True])
    ultimately show ?thesis
      by (auto simp: list_all_iff dest: set_takeWhileD)
  next
    case False
    with Cons.prems have cs: "first_run w P cs = Some ds" by simp
    have "\<not> run_here w P ((c # cs) @ t)"
      using False run_here_within [of w P "c # cs" t] first_run_within [OF cs] by auto
    with Cons.IH [OF cs] show ?thesis by simp
  qed
qed simp

text \<open>So what is reported of a prefix of a transcript is a prefix of what is reported of it.\<close>

lemma end_code_prefix:
  assumes "prefix s t" and "end_code token s = Some ds" and "end_code token t = Some es"
  shows "prefix ds es \<and> ds \<noteq> []"
proof -
  from assms(1) obtain u where t: "t = s @ u" by (auto simp: prefix_def)
  from first_run_append [of "token @ '':END:''" is_digit s ds u] assms(2,3) show ?thesis
    using first_run_nonempty [of "token @ '':END:''" is_digit s ds] by (auto simp: end_code_def t)
qed

lemma end_code_of_prefix:
  assumes "prefix s t" and "end_code token s = Some ds"
  shows "\<exists>es. end_code token t = Some es"
  using assms first_run_append [of "token @ '':END:''" is_digit s ds] by (auto simp: end_code_def prefix_def)

lemma str_nat_leading: "prefix (c # cs) (str_nat n) \<Longrightarrow> c = CHR ''0'' \<Longrightarrow> n = 0"
proof -
  have "show_base 10 m = CHR ''0'' # cs \<Longrightarrow> m = 0" for m cs
  proof (induction "10 :: nat" m arbitrary: cs rule: show_base.induct)
    case (1 m)
    show ?case
    proof (cases "m < 10")
      case True
      with 1(2) have "digit_char m = CHR ''0''" by (simp add: show_base.simps [of 10 m])
      then have "digit_val (CHR ''0'') = Some m" using digit_val_digit_char [of m] True by simp
      then show ?thesis by (simp add: digit_val_def)
    next
      case False
      then have s: "show_base 10 m = show_base 10 (m div 10) @ [digit_char (m mod 10)]"
        by (simp add: show_base.simps [of 10 m])
      then obtain ds where "show_base 10 (m div 10) = CHR ''0'' # ds"
        using 1(2) by (cases "show_base 10 (m div 10)") auto
      with 1(1) False have "m div 10 = 0" by simp
      with False show ?thesis by simp
    qed
  qed
  then show "prefix (c # cs) (str_nat n) \<Longrightarrow> c = CHR ''0'' \<Longrightarrow> n = 0"
    by (auto simp: str_nat_def prefix_def)
qed

lemma base_val_leading:
  assumes "is_digit c" and "c \<noteq> CHR ''0''"
  shows "0 < base_val 10 (c # cs)"
proof -
  have "digit_val c = Some (of_char c - 48)" "0 < (of_char c :: nat) - 48"
  proof -
    show "digit_val c = Some (of_char c - 48)" using assms(1) by (simp add: digit_val_def is_digit_def Let_def)
    have "(of_char c :: nat) \<noteq> of_char (CHR ''0'')" using assms(2) by (metis of_char_eq_iff)
    then show "0 < (of_char c :: nat) - 48" using assms(1) by (simp add: is_digit_def)
  qed
  then have "0 < base_val 10 [c]" using base_val_snoc [of 10 "[]" c] by simp
  then show ?thesis
  proof (induction cs rule: rev_induct)
    case (snoc d ds)
    then show ?case using base_val_snoc [of 10 "c # ds" d] by simp
  qed simp
qed


lemma run_command_done:
  assumes "run_command command label timeout w = (Done r, w')"
  obtains ns out where "hd (w_clock_ns w) = ns" and "prefix out (received (w_reads w))"
    and "command_judge (command_token label ns) label out = Some (Inr r)"
proof -
  from assms obtain ns nss x rs where w: "w_clock_ns w = ns # nss" "w_writes w = x # rs"
    unfolding run_command_def
    by (auto elim!: io_bind_DoneE simp: monotonic_ns_def dev_write_def Let_def split: list.splits)
  from assms obtain w1 where a: "await_end (command_token label ns) label timeout w1 = (Done r, w')"
    and w1: "w_reads w1 = w_reads w"
    unfolding run_command_start [OF w] by (auto simp: Let_def split: sum.splits if_splits)
  then obtain now w2 where "poll (now + timeout) (command_judge (command_token label ns) label) [] w2 =
      (Done (Inr r), w')" and w2: "w_reads w2 = w_reads w1"
    unfolding await_end_def
    by (auto elim!: io_bind_DoneE simp: monotonic_def io_return_def io_raise_def split: list.splits sum.splits)
  from poll_judged [OF this(1)] w1 w2 w(1) show thesis using that by auto
qed

text \<open>
  C17. The code of a command: \<^verbatim>\<open>run_command\<close> returns only after the end marker of its own token has
  arrived, with a transcript free of failure markers that is a prefix of what the device
  sent; and however the device's output is cut into reads, the code is zero exactly when the
  status the device printed is zero, the code being that status or, if a read ended inside
  it, its leading digits.
\<close>

theorem run_command_code:
  assumes "run_command command label timeout w = (Done r, w')"
  shows "\<exists>ds k. end_code (command_token label (hd (w_clock_ns w))) (received (w_reads w)) = Some ds \<and>
     prefix (cmd_output r) (received (w_reads w)) \<and> failure_marker (cmd_output r) = None \<and>
     0 < k \<and> return_code r = int (base_val 10 (take k ds)) \<and>
     (\<forall>n. ds = str_nat n \<longrightarrow> return_code r = 0 \<longleftrightarrow> n = 0)"
proof -
  let ?token = "command_token label (hd (w_clock_ns w))" and ?t = "received (w_reads w)"
  from run_command_done [OF assms] obtain out where out: "prefix out ?t"
    "command_judge ?token label out = Some (Inr r)" by metis
  then obtain es where es: "failure_marker out = None" "end_code ?token out = Some es"
    "r = \<lparr>cmd_output = out, return_code = int_str es\<rparr>" by (auto simp: command_judge_iff)
  from end_code_of_prefix [OF out(1) es(2)] obtain ds where ds: "end_code ?token ?t = Some ds" by blast
  from end_code_prefix [OF out(1) es(2) ds] have pre: "prefix es ds" "es \<noteq> []" by auto
  then obtain c cs where c: "es = c # cs" by (cases es) auto
  have dig: "is_digit c" using first_run_nonempty es(2) c by (fastforce simp: end_code_def)
  then have "c \<noteq> CHR ''-''" by (auto simp: is_digit_def)
  then have code: "return_code r = int (base_val 10 es)" using es(3) c by simp
  have zero: "return_code r = 0 \<longleftrightarrow> n = 0" if n: "ds = str_nat n" for n
  proof
    assume "return_code r = 0"
    then have "c = CHR ''0''" using base_val_leading [OF dig, of cs] code c by auto
    with str_nat_leading [of c cs n] pre(1) c n show "n = 0" by simp
  next
    assume "n = 0"
    then have "ds = ''0''" using n by (simp add: str_nat_def show_base.simps [of 10 0] digit_char_def) code_simp
    with pre have "es = ''0''" by (auto simp: prefix_Cons)
    then have "base_val 10 es = 0" by (simp add: base_val_def digit_val_def)
    with code show "return_code r = 0" by simp
  qed
  have "take (length es) ds = es" using pre(1) by (auto simp: prefix_def)
  with ds out(1) es pre(2) code zero show ?thesis
    by (intro exI [of _ ds] exI [of _ "length es"]) simp
qed

theorem run_command_code_witness:
  "\<exists>r w' ds. run_command ''true'' ''X'' 20 \<lparr>w_clock = [0, 1], w_clock_ns = [7],
      w_reads = [Inr ''MICRONUX_M9_X_7:END:0''], w_writes = [Inr 76],
      w_opens = [], w_controls = [], w_processes = [], w_sent = [], w_printed = []\<rparr> = (Done r, w') \<and>
     end_code (command_token ''X'' 7) (received [Inr ''MICRONUX_M9_X_7:END:0'']) = Some ds \<and>
     failure_marker (cmd_output r) = None"
proof -
  let ?w = "\<lparr>w_clock = [0, 1], w_clock_ns = [7],
      w_reads = [Inr ''MICRONUX_M9_X_7:END:0''], w_writes = [Inr 76],
      w_opens = [], w_controls = [], w_processes = [], w_sent = [], w_printed = []\<rparr>"
  have "case fst (run_command ''true'' ''X'' 20 ?w) of Done r \<Rightarrow> True | _ \<Rightarrow> False" by code_simp
  then obtain r w' where run: "run_command ''true'' ''X'' 20 ?w = (Done r, w')"
    by (cases "run_command ''true'' ''X'' 20 ?w") (auto split: outcome.splits)
  from run_command_code [OF run] run show ?thesis by auto
qed


section \<open>The echo of a command\<close>

lemma first_run_separator:
  assumes "c \<notin> set w" and "\<not> P c"
  shows "first_run w P (a @ c # b) = (case first_run w P a of Some ds \<Rightarrow> Some ds | None \<Rightarrow> first_run w P (c # b))"
proof (induction a)
  case (Cons x a)
  have same: "run_here w P ((x # a) @ c # b) \<longleftrightarrow> run_here w P (x # a)"
  proof
    assume r: "run_here w P ((x # a) @ c # b)"
    show "run_here w P (x # a)"
    proof (cases "length w < length (x # a)")
      case True
      then show ?thesis by (rule run_here_within [OF r])
    next
      case False
      then have "\<not> prefix w ((x # a) @ c # b) \<or> length w = length (x # a)"
      proof -
        have "((x # a) @ c # b) ! length (x # a) = c" by (rule nth_append_length)
        moreover have "w ! i = ((x # a) @ c # b) ! i" if "prefix w ((x # a) @ c # b)" "i < length w" for i
          using that by (auto simp: prefix_def nth_append)
        ultimately show ?thesis using assms(1) False by (metis linorder_neqE_nat nth_mem)
      qed
      moreover have "drop (length (x # a)) ((x # a) @ c # b) = c # b" by simp
      ultimately show ?thesis using r assms(2) by (auto simp: run_here_def)
    qed
  qed (rule run_here_append)
  show ?case
  proof (cases "run_here w P (x # a)")
    case True
    then have "length w \<le> length (x # a)" by (auto simp: run_here_def prefix_length_le)
    then have d: "drop (length w) ((x # a) @ c # b) = drop (length w) (x # a) @ c # b" by (subst drop_append) simp
    have "takeWhile P (d @ c # b) = takeWhile P d" for d using assms(2) by (induction d) simp_all
    with True same d show ?thesis by simp
  next
    case False
    with same Cons.IH show ?thesis by simp
  qed
qed simp

lemma first_run_skip: "c \<notin> set w \<Longrightarrow> w \<noteq> [] \<Longrightarrow> first_run w P (c # b) = first_run w P b"
  by (cases w) (auto simp: run_here_def)

lemma first_run_segment:
  assumes "c \<notin> set w" and "\<not> P c" and "w \<noteq> []"
  shows "first_run w P (a @ c # b) = (case first_run w P a of Some ds \<Rightarrow> Some ds | None \<Rightarrow> first_run w P b)"
  using first_run_separator [where P = P, OF assms(1,2), of a b] first_run_skip [OF assms(1,3), of P b]
  by (simp split: option.split)

lemma first_run_Some_split:
  "first_run w P s = Some ds \<Longrightarrow> \<exists>x c y. s = x @ w @ c # y \<and> P c"
proof (induction s)
  case (Cons d s)
  show ?case
  proof (cases "run_here w P (d # s)")
    case True
    then obtain zs where zs: "d # s = w @ zs" by (auto simp: run_here_def prefix_def)
    with True have "run_here w P (w @ zs)" by simp
    then obtain c y where "zs = c # y" "P c" by (cases zs) (auto simp: run_here_def)
    with zs have "d # s = w @ c # y" "P c" by simp_all
    then show ?thesis by (intro exI [of _ "[]"]) auto
  next
    case False
    with Cons obtain x c y where "s = x @ w @ c # y" "P c" by auto
    then show ?thesis by (intro exI [of _ "d # x"]) auto
  qed
qed simp

lemma first_run_missing: "c \<in> set w \<Longrightarrow> c \<notin> set s \<Longrightarrow> first_run w P s = None"
  by (cases "first_run w P s") (auto dest!: first_run_Some_split)

lemma last_split:
  assumes "a @ x # b = a' @ x # b'" and "x \<notin> set b" and "x \<notin> set b'"
  shows "b = b'"
proof -
  have u: "takeWhile (\<lambda>c. c \<noteq> x) (u @ x # r) = u" if "x \<notin> set u" for u r using that by (induction u) auto
  have t: "takeWhile (\<lambda>c. c \<noteq> x) (rev (d @ x # e)) = rev e" if "x \<notin> set e" for d e
    using u [of "rev e" "rev d"] that by simp
  have "rev b = rev b'" using t [OF assms(2), of a] t [OF assms(3), of a'] assms(1) by metis
  then show ?thesis by simp
qed

text \<open>The two places of the payload where the token stands do not look like its end.\<close>

lemma begin_no_end: "first_run (token @ '':END:'') is_digit (x @ token @ '':BEGIN'') = None"
  if "CHR '':'' \<notin> set x"
proof (rule ccontr)
  assume "first_run (token @ '':END:'') is_digit (x @ token @ '':BEGIN'') \<noteq> None"
  then obtain y c z where "x @ token @ '':BEGIN'' = y @ (token @ '':END:'') @ c # z"
    using first_run_Some_split by fast
  then have "count_list (x @ token @ '':BEGIN'') (CHR '':'') = count_list (y @ (token @ '':END:'') @ c # z) (CHR '':'')"
    by (rule arg_cong)
  with that show False by (simp add: count_notin split: if_splits)
qed

lemma echo_no_end: "first_run (token @ '':END:'') is_digit (x @ token @ '':END:$m9_rc'') = None"
  if "CHR '':'' \<notin> set x"
proof (rule ccontr)
  assume "first_run (token @ '':END:'') is_digit (x @ token @ '':END:$m9_rc'') \<noteq> None"
  then obtain y c z where eq: "x @ token @ '':END:$m9_rc'' = y @ (token @ '':END:'') @ c # z" and c: "is_digit c"
    using first_run_Some_split by fast
  have "count_list (x @ token @ '':END:$m9_rc'') (CHR '':'') = count_list (y @ (token @ '':END:'') @ c # z) (CHR '':'')"
    by (rule arg_cong [OF eq])
  then have "count_list (c # z) (CHR '':'') = 0" using that by (simp add: count_notin split: if_splits)
  then have cz: "CHR '':'' \<notin> set (c # z)" using count_list_0_iff [of "c # z"] by blast
  have "(x @ token @ '':END'') @ CHR '':'' # ''$m9_rc'' = (y @ token @ '':END'') @ CHR '':'' # (c # z)"
    using eq by simp
  from last_split [OF this _ cz] have "''$m9_rc'' = c # z" by simp
  with c show False by (auto simp: is_digit_def)
qed




end
