(* ===== verification/M9_Commands.thy ===== *)
theory M9_Commands
  imports M9_Serial
begin

text \<open>
  The texts of \<^verbatim>\<open>m9-hardware-test.py\<close>: the shell commands each mode sends to the target and the
  lines it prints.  \<open>D\<close> and \<open>B\<close> are the display and backlight directories of the target.
\<close>

section \<open>Parts of command lines\<close>

definition diagnostics_phase_shell :: "string \<Rightarrow> string option \<Rightarrow> string" where
  \<open>diagnostics_phase_shell phase uptime_phase =
     ''echo "MICRONUX:M9:DIAGNOSTICS phase='' @ phase @ ''"; '' @
     (case uptime_phase of None \<Rightarrow> []
      | Some u \<Rightarrow> ''echo -n "MICRONUX:M9:USB-DISCONNECT:'' @ u @ '':UPTIME "; cat /proc/uptime; '') @
     ''cat "$D/diagnostics"; ''\<close>

definition framebuffer_hash_shell :: "string \<Rightarrow> string \<Rightarrow> string" where
  \<open>framebuffer_hash_shell phase var =
     ''unset '' @ var @ ''; if m9_fb_line="$(/bin/busybox sha256sum /dev/fb0)"; then '' @ var @
     ''="${m9_fb_line%% *}"; echo "MICRONUX:M9:FB-SHA256 phase='' @ phase @ '' sha256=$'' @ var @
     ''"; fi; ''\<close>

definition stress_snapshot_shell :: "string \<Rightarrow> string" where
  \<open>stress_snapshot_shell stage =
     ''echo "MICRONUX:M9.2:STRESS:SNAPSHOT stage='' @ stage @
     ''"; cat "$D/diagnostics"; cat "$D/scanout"; cat "$D/touch"; echo '' @
     ''"MICRONUX:M9.2:STRESS:MEM stage='' @ stage @ ''"; /bin/busybox grep -E '' @ [CHR 0x27] @
     ''^(MemFree|MemAvailable):'' @ [CHR 0x27] @ '' /proc/meminfo''\<close>

text \<open>\<^verbatim>\<open>s.removesuffix("; ")\<close> and \<^verbatim>\<open>shlex.quote\<close>.\<close>

definition removesuffix_semi :: "string \<Rightarrow> string" where
  "removesuffix_semi s = (if suffix ''; '' s then take (length s - 2) s else s)"

definition shell_safe :: "char \<Rightarrow> bool" where
  "shell_safe c \<longleftrightarrow> is_digit c \<or>
     c \<in> set ''abcdefghijklmnopqrstuvwxyzABCDEFGHIJKLMNOPQRSTUVWXYZ_@%+=:,./-''"

definition shlex_quote :: "string \<Rightarrow> string" where
  "shlex_quote s = (if s = [] then [CHR 0x27, CHR 0x27] else if list_all shell_safe s then s
     else CHR 0x27 # concat (map (\<lambda>c. if c = CHR 0x27
       then [CHR 0x27, CHR 0x22, CHR 0x27, CHR 0x22, CHR 0x27] else [c]) s) @ [CHR 0x27])"

section \<open>Preflight\<close>

definition sysfs_command :: string where
  \<open>sysfs_command =
     ''D='' @ DISPLAY_SYSFS @
     ''; B=/sys/class/backlight/micronux-backlight; test "$(cat "$D/native_state")" = '' @
     ''RUNTIME_REVEALED && test "$(cat "$D/pattern")" = framebuffer && test "$(cat '' @
     ''"$D/boot_ready")" = 1 && test "$(cat "$B/brightness")" = 63 && test "$(cat '' @
     ''"$B/bl_power")" = 0 && test "$(cat "$B/actual_brightness")" = 63 && { cat '' @
     ''"$D/native_state"; cat "$D/ownership"; cat "$D/diagnostics"; cat "$D/scanout"; cat '' @
     ''"$D/touch"; echo "MICRONUX:M9:NATIVE-RUNTIME pattern=$(cat "$D/pattern") '' @
     ''boot_ready=$(cat "$D/boot_ready") native_state=$(cat "$D/native_state") '' @
     ''brightness=$(cat "$B/brightness") bl_power=$(cat "$B/bl_power") '' @
     ''actual_brightness=$(cat "$B/actual_brightness")"; }''\<close>

definition vpg_unavailable_command :: string where
  \<open>vpg_unavailable_command =
     ''D='' @ DISPLAY_SYSFS @ ''; B=/sys/class/backlight/micronux-backlight; '' @
     framebuffer_hash_shell ''vpg-reject-before'' ''m9_fb_before'' @
     ''cat "$D/diagnostics"; cat "$D/scanout"; if [ ! -e "$D/vpg_test_ms" ]; then '' @
     ''m9_vpg_unavailable=1; else m9_vpg_unavailable=0; fi; sleep 1; '' @
     framebuffer_hash_shell ''vpg-reject-after'' ''m9_fb_after'' @
     ''cat "$D/diagnostics"; cat "$D/scanout"; echo "MICRONUX:M9:VPG-UNAVAILABLE '' @
     ''absent=$m9_vpg_unavailable pattern=$(cat "$D/pattern") boot_ready=$(cat '' @
     ''"$D/boot_ready") native_state=$(cat "$D/native_state") brightness=$(cat '' @
     ''"$B/brightness") bl_power=$(cat "$B/bl_power") actual_brightness=$(cat '' @
     ''"$B/actual_brightness")"; test "$m9_vpg_unavailable" = 1 && test "$m9_fb_before" = '' @
     ''"$m9_fb_after"''\<close>

definition presentation_command :: string where
  \<open>presentation_command =
     ''D='' @ DISPLAY_SYSFS @ ''; B=/sys/class/backlight/micronux-backlight; '' @
     framebuffer_hash_shell ''presentation-before'' ''m9_fb_before'' @
     ''echo MICRONUX:M9:DIAGNOSTICS:BEFORE; cat $D/diagnostics; cat $D/scanout; '' @
     ''micronux-display-test draw 3 & m9_pid=$!; sleep 1; echo '' @
     ''MICRONUX:M9:DIAGNOSTICS:DURING; cat $D/diagnostics; cat $D/scanout; echo '' @
     ''MICRONUX:M9:SHELL state=responsive; wait $m9_pid; m9_draw_rc=$?; echo '' @
     ''MICRONUX:M9:DRAW rc=$m9_draw_rc; '' @
     framebuffer_hash_shell ''presentation-after'' ''m9_fb_after'' @
     ''echo MICRONUX:M9:DIAGNOSTICS:AFTER; cat $D/diagnostics; cat $D/scanout; echo '' @
     ''"MICRONUX:M9:PRESENTATION:RESTORE pattern=$(cat $D/pattern) boot_ready=$(cat '' @
     ''$D/boot_ready) native_state=$(cat $D/native_state) brightness=$(cat $B/brightness) '' @
     ''bl_power=$(cat $B/bl_power) actual_brightness=$(cat $B/actual_brightness)"; test '' @
     ''"$(cat $D/pattern)" = framebuffer && test "$(cat $D/boot_ready)" = 1 && test "$(cat '' @
     ''$D/native_state)" = RUNTIME_REVEALED && test "$(cat $B/brightness)" = 63 && test '' @
     ''"$(cat $B/bl_power)" = 0 && test "$(cat $B/actual_brightness)" = 63 && test '' @
     ''"$m9_fb_before" = "$m9_fb_after"''\<close>

definition signal_command :: string where
  \<open>signal_command =
     ''D='' @ DISPLAY_SYSFS @ ''; B=/sys/class/backlight/micronux-backlight; '' @
     framebuffer_hash_shell ''signal-before'' ''m9_fb_before'' @
     ''echo MICRONUX:M9:SIGNAL-DIAGNOSTICS:BEFORE; cat $D/diagnostics; cat $D/scanout; '' @
     ''micronux-display-test draw 30 & m9_pid=$!; sleep 4; kill -TERM $m9_pid; wait '' @
     ''$m9_pid; m9_draw_rc=$?; echo MICRONUX:M9:SIGNAL rc=$m9_draw_rc; '' @
     framebuffer_hash_shell ''signal-after'' ''m9_fb_after'' @
     ''echo MICRONUX:M9:SIGNAL-DIAGNOSTICS:AFTER; cat $D/diagnostics; cat $D/scanout; echo '' @
     ''"MICRONUX:M9:SIGNAL:RESTORE pattern=$(cat $D/pattern) boot_ready=$(cat '' @
     ''$D/boot_ready) native_state=$(cat $D/native_state) brightness=$(cat $B/brightness) '' @
     ''bl_power=$(cat $B/bl_power) actual_brightness=$(cat $B/actual_brightness)"; test '' @
     ''"$(cat $D/pattern)" = framebuffer && test "$(cat $D/boot_ready)" = 1 && test "$(cat '' @
     ''$D/native_state)" = RUNTIME_REVEALED && test "$(cat $B/brightness)" = 63 && test '' @
     ''"$(cat $B/bl_power)" = 0 && test "$(cat $B/actual_brightness)" = 63 && test '' @
     ''"$m9_fb_before" = "$m9_fb_after" && echo MICRONUX:M9:SIGNAL-SHELL state=responsive''\<close>

definition preflight_pass :: string where
  \<open>preflight_pass =
     ''MICRONUX:M9:PREFLIGHT:PASS touch=ready-or-unavailable shell=responsive '' @
     ''console=restored abi=3 mode=native-cold-init buffers=3 '' @
     ''scanout=one-shot-explicit-rearm rearm-failures=0 signal=restored underruns=0 '' @
     ''host-errors=0 frame-ack=enabled clock=auto lp=enabled backlight-gate=enabled '' @
     ''vpg=unavailable brightness=63 brightness-source=cached-last-acked-write '' @
     ''physical-panel-state=unobserved machine=pass visual=required''\<close>

section \<open>Touch\<close>

definition touch_command :: "int \<Rightarrow> string" where
  \<open>touch_command point_timeout_ms =
     ''D='' @ DISPLAY_SYSFS @
     ''; B=/sys/class/backlight/micronux-backlight; m9_touch_ready=0; m9_touch_wait=0; '' @
     ''while [ "$m9_touch_wait" -lt 20 ]; do m9_touch_state="$(cat "$D/touch")"; printf "%s'' @
     [CHR 0x5C] @ ''n" "$m9_touch_state"; if printf '' @ [CHR 0x27] @ ''%s'' @ [CHR 0x5C] @ ''n'' @
     [CHR 0x27] @ '' "$m9_touch_state" | /bin/busybox grep -Eq '' @ [CHR 0x27] @
     ''^ready product=9271 address=0x(5d|14) mode=poll interval_ms=10 reads=[0-9]+ errors=0 '' @
     ''down=[01]$'' @ [CHR 0x27] @
     ''; then m9_touch_ready=1; break; fi; m9_touch_wait=$((m9_touch_wait + 1)); sleep 1; '' @
     ''done; echo "MICRONUX:M9:TOUCH-READY ready=$m9_touch_ready '' @
     ''wait_seconds=$m9_touch_wait"; m9_touch_rc=125; if [ "$m9_touch_ready" = 1 ]; then '' @
     ''cat "$D/diagnostics"; cat "$D/scanout"; '' @
     framebuffer_hash_shell ''touch-before'' ''m9_fb_before'' @ ''micronux-display-test touch '' @
     str_int point_timeout_ms @ ''; m9_touch_rc=$?; '' @
     framebuffer_hash_shell ''touch-after'' ''m9_fb_after'' @
     ''cat "$D/diagnostics"; cat "$D/scanout"; cat "$D/touch"; fi; echo '' @
     ''"MICRONUX:M9:NATIVE-RUNTIME pattern=$(cat "$D/pattern") boot_ready=$(cat '' @
     ''"$D/boot_ready") native_state=$(cat "$D/native_state") brightness=$(cat '' @
     ''"$B/brightness") bl_power=$(cat "$B/bl_power") actual_brightness=$(cat '' @
     ''"$B/actual_brightness")"; test "$m9_touch_ready" = 1 && test "$m9_touch_rc" -eq 0 && '' @
     ''test "$m9_fb_before" = "$m9_fb_after" && test "$(cat "$D/pattern")" = framebuffer && '' @
     ''test "$(cat "$D/boot_ready")" = 1 && test "$(cat "$D/native_state")" = '' @
     ''RUNTIME_REVEALED && test "$(cat "$B/brightness")" = 63 && test "$(cat '' @
     ''"$B/bl_power")" = 0 && test "$(cat "$B/actual_brightness")" = 63''\<close>

definition touch_pass :: string where
  \<open>touch_pass =
     ''MICRONUX:M9:TOUCH-GATE:PASS points=5 touch=ready console=restored abi=3 '' @
     ''state=RUNTIME_REVEALED buffers=3 scanout=one-shot-explicit-rearm frame-ack=enabled '' @
     ''faults=0 underruns=0 host-errors=0 brightness=63 '' @
     ''brightness-source=cached-last-acked-write physical-panel-state=unobserved '' @
     ''visual=required''\<close>

section \<open>Soak\<close>

definition soak_setup :: "string list" where
  \<open>soak_setup = [(''D='' @ DISPLAY_SYSFS),
     ''B=/sys/class/backlight/micronux-backlight'',
     ''m9_soak_rc=0'']\<close>

definition soak_sample_commands :: "nat \<Rightarrow> string list" where
  \<open>soak_sample_commands index = [
     ''echo MICRONUX:M9:SOAK-SAMPLE index='' @ str_nat index,
     ''cat $D/diagnostics'',
     ''cat $D/scanout'',
     ''cat $D/touch'',
     removesuffix_semi ((framebuffer_hash_shell (''soak-'' @ str_nat index) ''m9_fb_hash'')),
     ''echo "MICRONUX:M9:SOAK-STATUS index='' @ str_nat index @
     '' pattern=$(cat $D/pattern) boot_ready=$(cat $D/boot_ready) native_state=$(cat '' @
     ''$D/native_state) brightness=$(cat $B/brightness) bl_power=$(cat $B/bl_power) '' @
     ''actual_brightness=$(cat $B/actual_brightness)"'',
     ''[ "$(cat $D/pattern)" = framebuffer ] || m9_soak_rc=1'',
     ''[ "$(cat $D/boot_ready)" = 1 ] || m9_soak_rc=1'',
     ''[ "$(cat $D/native_state)" = RUNTIME_REVEALED ] || m9_soak_rc=1'',
     ''[ "$(cat $B/brightness)" = 63 ] || m9_soak_rc=1'',
     ''[ "$(cat $B/bl_power)" = 0 ] || m9_soak_rc=1'',
     ''[ "$(cat $B/actual_brightness)" = 63 ] || m9_soak_rc=1'',
     ''echo MICRONUX:M9:SOAK-SHELL state=responsive index='' @ str_nat index]\<close>

definition soak_pass :: "int \<Rightarrow> int \<Rightarrow> string" where
  \<open>soak_pass soak_seconds sample_count =
     ''MICRONUX:M9:SOAK:PASS seconds='' @ str_int soak_seconds @ '' samples='' @
     str_int sample_count @
     '' shell=responsive framebuffer=stable touch=ready-or-unavailable abi=3 '' @
     ''state=RUNTIME_REVEALED buffers=3 scanout=one-shot-explicit-rearm faults=0 '' @
     ''underruns=0 host-errors=0 guards=ok frame-ack=enabled clock=auto lp=enabled '' @
     ''backlight-gate=enabled brightness=63 brightness-source=cached-last-acked-write '' @
     ''physical-panel-state=unobserved visual=required''\<close>

section \<open>Stress\<close>

definition cycle_arguments :: "int \<Rightarrow> string" where
  "cycle_arguments stress_cycles = join '' '' (map str_int [1..stress_cycles])"

definition stress_commands :: "int \<Rightarrow> string list" where
  \<open>stress_commands stress_cycles = [
     ''D='' @ DISPLAY_SYSFS,
     ''B=/sys/class/backlight/micronux-backlight'',
     ''m9_stress_rc=0'',
     removesuffix_semi ((framebuffer_hash_shell ''stress-before'' ''m9_fb_before'')),
     stress_snapshot_shell ''before'',
     ''micronux-display-test draw 300 & m9_draw_pid=$!'',
     ''sleep 1'',
     stress_snapshot_shell ''graphics'',
     ''/usr/bin/micronux-storage-test --write-test; m9_storage_rc=$?; [ "$m9_storage_rc" '' @
     ''-eq 0 ] || m9_stress_rc=1; echo "MICRONUX:M9.2:STRESS:WORKLOAD stage=storage '' @
     ''rc=$m9_storage_rc"'',
     stress_snapshot_shell ''storage'',
     ''/usr/bin/micronux-online; m9_online_rc=$?; [ "$m9_online_rc" -eq 0 ] || '' @
     ''m9_stress_rc=1; echo "MICRONUX:M9.2:STRESS:WORKLOAD stage=network-online '' @
     ''rc=$m9_online_rc"'',
     stress_snapshot_shell ''network'',
     ''/usr/bin/micronux-combined-soak '' @ cycle_arguments stress_cycles @
     ''; m9_io_rc=$?; [ "$m9_io_rc" -eq 0 ] || m9_stress_rc=1; echo '' @
     ''"MICRONUX:M9.2:STRESS:WORKLOAD stage=sd-network cycles='' @ str_int stress_cycles @
     '' rc=$m9_io_rc"'',
     stress_snapshot_shell ''io'',
     ''/usr/bin/micronux-selftest; m9_memory_rc=$?; [ "$m9_memory_rc" -eq 0 ] || '' @
     ''m9_stress_rc=1; echo "MICRONUX:M9.2:STRESS:WORKLOAD stage=memory-pressure kib=4096 '' @
     ''rc=$m9_memory_rc"'',
     stress_snapshot_shell ''memory'',
     ''/bin/busybox kill -TERM $m9_draw_pid 2>/dev/null || :'',
     ''wait $m9_draw_pid; m9_draw_rc=$?'',
     ''[ "$m9_draw_rc" -eq 143 ] || m9_stress_rc=1'',
     ''echo "MICRONUX:M9.2:STRESS:WORKLOAD stage=graphics-restore rc=$m9_draw_rc"'',
     ''sleep 1'',
     removesuffix_semi ((framebuffer_hash_shell ''stress-after'' ''m9_fb_after'')),
     stress_snapshot_shell ''after'',
     ''echo "MICRONUX:M9.2:STRESS:STATUS pattern=$(cat $D/pattern) boot_ready=$(cat '' @
     ''$D/boot_ready) native_state=$(cat $D/native_state) brightness=$(cat $B/brightness) '' @
     ''bl_power=$(cat $B/bl_power) actual_brightness=$(cat $B/actual_brightness)"'',
     ''[ "$m9_fb_before" = "$m9_fb_after" ] || m9_stress_rc=1'',
     ''[ "$(cat $D/pattern)" = framebuffer ] || m9_stress_rc=1'',
     ''[ "$(cat $D/boot_ready)" = 1 ] || m9_stress_rc=1'',
     ''[ "$(cat $D/native_state)" = RUNTIME_REVEALED ] || m9_stress_rc=1'',
     ''[ "$(cat $B/brightness)" = 63 ] || m9_stress_rc=1'',
     ''[ "$(cat $B/bl_power)" = 0 ] || m9_stress_rc=1'',
     ''[ "$(cat $B/actual_brightness)" = 63 ] || m9_stress_rc=1'',
     ''[ "$m9_stress_rc" -eq 0 ]'']\<close>

definition stress_markers :: "int \<Rightarrow> string list" where
  \<open>stress_markers stress_cycles = [
     ''MICRONUX:M6:STORAGE:PASS mode=idmac-sram-poll access=write-tested cleanup=pass'',
     ''MICRONUX:M6:NET:ONLINE state=ready name=ethsta0'',
     ''MICRONUX:M6:COMBINED:SOAK:PASS cycles='' @ str_int stress_cycles,
     ''MICRONUX:M5:PASS exec=64 signals=64 timers=32 memory_kib=4096'',
     ''MICRONUX:M9.2:STRESS:WORKLOAD stage=storage rc=0'',
     ''MICRONUX:M9.2:STRESS:WORKLOAD stage=network-online rc=0'',
     ''MICRONUX:M9.2:STRESS:WORKLOAD stage=sd-network cycles='' @ str_int stress_cycles @ '' rc=0'',
     ''MICRONUX:M9.2:STRESS:WORKLOAD stage=memory-pressure kib=4096 rc=0'',
     ''MICRONUX:M9.2:STRESS:WORKLOAD stage=graphics-restore rc=143'']\<close>

definition expected_stages :: "string list" where
  \<open>expected_stages = [''before'', ''graphics'', ''storage'', ''network'', ''io'', ''memory'', ''after'']\<close>

definition stress_pass :: "int \<Rightarrow> int \<Rightarrow> int \<Rightarrow> int \<Rightarrow> int \<Rightarrow> string" where
  \<open>stress_pass stress_cycles before_free after_free before_available after_available =
     ''MICRONUX:M9.2:STRESS:PASS cycles='' @ str_int stress_cycles @
     '' sd=write-tested network=traffic usb=attached framebuffer=paced page-flip=complete '' @
     ''memory_kib=4096 memory_loss_limit_kib=512 memfree_kib='' @ str_int before_free @ ''->'' @
     str_int after_free @ '' memavailable_kib='' @ str_int before_available @ ''->'' @
     str_int after_available @
     '' abi=3 state=RUNTIME_REVEALED touch=ready-or-unavailable buffers=3 '' @
     ''scanout=one-shot-explicit-rearm faults=0 underruns=0 host-errors=0 guards=ok '' @
     ''frame-ack=enabled clock=auto lp=enabled brightness=63 '' @
     ''brightness-source=cached-last-acked-write physical-panel-state=unobserved '' @
     ''visual=required''\<close>

section \<open>Disconnect\<close>

definition DISCONNECT_BOUNDARY_PATH :: string where
  "DISCONNECT_BOUNDARY_PATH = ''/tmp/m9-disconnect-boundary''"

definition disconnect_visual :: "int \<Rightarrow> string" where
  \<open>disconnect_visual disconnect_seconds =
     ''MICRONUX:M9:USB-DISCONNECT:VISUAL-REQUIRED expect=status-remains-visible-no-cyan '' @
     ''seconds='' @ str_int disconnect_seconds\<close>

definition before_command :: string where
  \<open>before_command =
     ''D='' @ DISPLAY_SYSFS @ ''; B=/sys/class/backlight/micronux-backlight; m9_boot="$(cat '' @
     ''/proc/sys/kernel/random/boot_id)"; echo "MICRONUX:M9:USB-DISCONNECT:BEFORE '' @
     ''boot_id=$m9_boot"; '' @ diagnostics_phase_shell ''BEFORE-PREHASH'' None @
     framebuffer_hash_shell ''disconnect-before'' ''m9_fb_hash'' @
     diagnostics_phase_shell ''BEFORE-POSTHASH'' (Some ''BEFORE-POSTHASH'') @
     ''cat "$D/scanout"; cat "$D/touch"; echo "MICRONUX:M9:USB-DISCONNECT:STATUS-BEFORE '' @
     ''pattern=$(cat $D/pattern) boot_ready=$(cat $D/boot_ready) native_state=$(cat '' @
     ''$D/native_state) brightness=$(cat $B/brightness) bl_power=$(cat $B/bl_power) '' @
     ''actual_brightness=$(cat $B/actual_brightness)"; test "$(cat $D/pattern)" = '' @
     ''framebuffer && test "$(cat $D/boot_ready)" = 1 && test "$(cat $D/native_state)" = '' @
     ''RUNTIME_REVEALED && test "$(cat $B/brightness)" = 63 && test "$(cat $B/bl_power)" = '' @
     ''0 && test "$(cat $B/actual_brightness)" = 63''\<close>

definition boundary_script :: "int \<Rightarrow> string" where
  \<open>boundary_script disconnect_seconds =
     ''trap '' @ [CHR 0x27, CHR 0x27] @ '' HUP; sleep '' @ str_int (disconnect_seconds + 1) @
     ''; D='' @ DISPLAY_SYSFS @ ''; B=/sys/class/backlight/micronux-backlight; m9_boot="$(cat '' @
     ''/proc/sys/kernel/random/boot_id)"; echo "MICRONUX:M9:USB-DISCONNECT:BOUNDARY:BEGIN '' @
     ''boot_id=$m9_boot"; '' @
     diagnostics_phase_shell ''BOUNDARY-PREHASH'' (Some ''BOUNDARY-PREHASH'') @
     framebuffer_hash_shell ''disconnect-boundary'' ''m9_fb_hash'' @
     diagnostics_phase_shell ''BOUNDARY-POSTHASH'' (Some ''BOUNDARY-POSTHASH'') @
     ''cat "$D/scanout"; cat "$D/touch"; echo "MICRONUX:M9:USB-DISCONNECT:STATUS-BOUNDARY '' @
     ''pattern=$(cat $D/pattern) boot_ready=$(cat $D/boot_ready) native_state=$(cat '' @
     ''$D/native_state) brightness=$(cat $B/brightness) bl_power=$(cat $B/bl_power) '' @
     ''actual_brightness=$(cat $B/actual_brightness)"; echo '' @
     ''"MICRONUX:M9:USB-DISCONNECT:BOUNDARY:COMPLETE"''\<close>

definition boundary_arm_command :: "int \<Rightarrow> string" where
  \<open>boundary_arm_command disconnect_seconds =
     ''rm -f '' @ DISCONNECT_BOUNDARY_PATH @ ''; /bin/busybox setsid /bin/busybox sh -c '' @
     shlex_quote (boundary_script disconnect_seconds) @ '' </dev/null >'' @
     DISCONNECT_BOUNDARY_PATH @
     '' 2>&1 & echo "MICRONUX:M9:USB-DISCONNECT:BOUNDARY:ARMED delay_seconds='' @
     str_int (disconnect_seconds + 1) @ '' pid=$!"''\<close>

definition closed_message :: "int \<Rightarrow> string" where
  \<open>closed_message disconnect_seconds =
     ''MICRONUX:M9:USB-DISCONNECT state=closed duration_seconds='' @ str_int disconnect_seconds @
     '' boundary_delay_seconds='' @ str_int (disconnect_seconds + 1) @ '' reopen_delay_seconds='' @
     str_int (disconnect_seconds + 3)\<close>

definition boundary_command :: string where
  \<open>boundary_command =
     ''cat '' @ DISCONNECT_BOUNDARY_PATH\<close>

definition after_id_command :: string where
  \<open>after_id_command =
     ''echo -n "MICRONUX:M9:USB-DISCONNECT:AFTER boot_id="; cat '' @
     ''/proc/sys/kernel/random/boot_id''\<close>

definition after_state_command :: string where
  \<open>after_state_command =
     ''D='' @ DISPLAY_SYSFS @ ''; B=/sys/class/backlight/micronux-backlight; '' @
     diagnostics_phase_shell ''AFTER-PREHASH'' (Some ''AFTER-PREHASH'') @
     framebuffer_hash_shell ''disconnect-after'' ''m9_fb_hash'' @
     diagnostics_phase_shell ''AFTER-POSTHASH'' None @
     ''cat "$D/touch"; echo "MICRONUX:M9:USB-DISCONNECT:STATUS-AFTER pattern=$(cat '' @
     ''$D/pattern) boot_ready=$(cat $D/boot_ready) native_state=$(cat $D/native_state) '' @
     ''brightness=$(cat $B/brightness) bl_power=$(cat $B/bl_power) actual_brightness=$(cat '' @
     ''$B/actual_brightness)"''\<close>

definition after_scanout_command :: string where
  \<open>after_scanout_command =
     ''cat '' @ DISPLAY_SYSFS @ ''/scanout''\<close>

definition reconnect_pass :: "int \<Rightarrow> string" where
  \<open>reconnect_pass disconnect_seconds =
     ''MICRONUX:M9:USB-RECONNECT:PASS disconnected_seconds='' @ str_int disconnect_seconds @
     '' linux=retained shell=responsive framebuffer=stable abi=3 state=RUNTIME_REVEALED '' @
     ''touch=ready-or-unavailable buffers=3 scanout=one-shot-explicit-rearm faults=0 '' @
     ''dma-errors=0 underruns=0 host-errors=0 guards=ok frame-ack=enabled clock=auto '' @
     ''lp=enabled backlight-gate=enabled brightness=63 '' @
     ''brightness-source=cached-last-acked-write physical-panel-state=unobserved '' @
     ''machine=pass visual=required''\<close>

section \<open>Snapshot\<close>

definition snapshot_command :: string where
  \<open>snapshot_command =
     ''echo -n "MICRONUX:M9:SNAPSHOT boot_id="; cat /proc/sys/kernel/random/boot_id; echo '' @
     ''-n "MICRONUX:M9:SNAPSHOT uptime="; cat /proc/uptime; D='' @ DISPLAY_SYSFS @
     ''; B=/sys/class/backlight/micronux-backlight; echo "MICRONUX:M9:NATIVE-RUNTIME '' @
     ''pattern=$(cat "$D/pattern") boot_ready=$(cat "$D/boot_ready") native_state=$(cat '' @
     ''"$D/native_state") brightness=$(cat "$B/brightness") bl_power=$(cat "$B/bl_power") '' @
     ''actual_brightness=$(cat "$B/actual_brightness")"; cat "$D/ownership"; '' @
     diagnostics_phase_shell ''SNAPSHOT-A-PREHASH'' None @
     framebuffer_hash_shell ''snapshot-a'' ''m9_fb_before'' @
     diagnostics_phase_shell ''SNAPSHOT-A-POSTHASH'' None @ ''cat "$D/scanout"; sleep 1; '' @
     diagnostics_phase_shell ''SNAPSHOT-B-PREHASH'' None @
     framebuffer_hash_shell ''snapshot-b'' ''m9_fb_after'' @
     diagnostics_phase_shell ''SNAPSHOT-B-POSTHASH'' None @
     ''cat "$D/scanout"; cat "$D/touch"; test "$m9_fb_before" = "$m9_fb_after" && test '' @
     ''"$(cat "$D/pattern")" = framebuffer && test "$(cat "$D/boot_ready")" = 1 && test '' @
     ''"$(cat "$D/native_state")" = RUNTIME_REVEALED && test "$(cat "$B/brightness")" = 63 '' @
     ''&& test "$(cat "$B/bl_power")" = 0 && test "$(cat "$B/actual_brightness")" = 63''\<close>

definition snapshot_pass :: "sample \<Rightarrow> sample \<Rightarrow> string" where
  \<open>snapshot_pass a b =
     ''MICRONUX:M9:SNAPSHOT:CAPTURED reset=not-requested source=framebuffer abi=3 '' @
     ''state=RUNTIME_REVEALED buffers=3 scanout=one-shot-explicit-rearm framebuffer=stable '' @
     ''faults=0 dma-errors=0 underruns=0 host-errors=0 guards=ok frame-ack=enabled '' @
     ''clock=auto lp=enabled brightness=63 brightness-source=cached-last-acked-write '' @
     ''arm-to-irq-over20ms='' @ str_int (dict_get a ''arm_to_irq_over20ms'') @ ''->'' @
     str_int (dict_get b ''arm_to_irq_over20ms'') @ '' fifo-irq-zero='' @
     str_int (dict_get a ''fifo_irq_zero'') @ ''->'' @ str_int (dict_get b ''fifo_irq_zero'') @
     '' fifo-poll-zero=0 physical-panel-state=unobserved evidence=machine-state '' @
     ''visual=required''\<close>

definition classification_pass :: "rat \<Rightarrow> rat \<Rightarrow> sample \<Rightarrow> sample \<Rightarrow> string" where
  \<open>classification_pass disconnect_hz reconnect_hz a b =
     ''MICRONUX:M9:USB-DISCONNECT:CLASSIFICATION phase=disconnect-and-reconnect result=pass '' @
     ''boundary=healthy reconnect=healthy disconnect_progress_hz='' @ fixed3 disconnect_hz @
     '' reconnect_progress_hz='' @ fixed3 reconnect_hz @ '' arm-to-irq-over20ms='' @
     str_int (dict_get a ''arm_to_irq_over20ms'') @ ''->'' @
     str_int (dict_get b ''arm_to_irq_over20ms'') @ '' fifo-irq-zero='' @
     str_int (dict_get a ''fifo_irq_zero'') @ ''->'' @ str_int (dict_get b ''fifo_irq_zero'') @
     '' fifo-poll-zero=0''\<close>

end
