(* ===== verification/M9_Evidence.thy ===== *)
theory M9_Evidence
  imports M9_Telemetry
begin

text \<open>
  What the remaining verdicts of \<^verbatim>\<open>m9-hardware-test.py\<close> on a transcript amount to: the phases of
  the diagnostics, the hashes of the frame buffer, and the order of the boot markers.
\<close>

section \<open>Diagnostics by phase\<close>

lemma map2_tl_pass:
  "first_reject (concat (map2 f xs (tl xs))) = None \<longleftrightarrow> successively (\<lambda>a b. first_reject (f a b) = None) xs"
proof (induction xs)
  case (Cons x xs)
  show ?case
  proof (cases xs)
    case (Cons y ys)
    then show ?thesis using Cons.IH by (simp add: first_reject_None_simps del: first_reject_append)
  qed simp
qed simp

lemma phase_step_pass:
  "first_reject (phase_step_guards (p, u) (q, v)) = None \<longleftrightarrow>
     dict_get v ''arm_to_irq_over20ms'' = dict_get u ''arm_to_irq_over20ms'' \<and>
     dict_get u ''fifo_irq_zero'' \<le> dict_get v ''fifo_irq_zero'' \<and>
     dict_get u ''fifo_poll_zero'' \<le> dict_get v ''fifo_poll_zero''"
  unfolding phase_step_guards_def prod.case list.map first_reject_None_simps by auto

lemma zero_chain:
  assumes "successively (\<lambda>u v. f v = f u) xs"
  shows "list_all (\<lambda>u. f u = (0 :: int)) xs \<longleftrightarrow> xs = [] \<or> f (hd xs) = 0"
  using assms
proof (induction xs)
  case (Cons x xs)
  then show ?case by (cases xs) auto
qed simp

definition quiet_phases :: "sample list \<Rightarrow> bool" where
  "quiet_phases ss \<longleftrightarrow>
     list_all (\<lambda>s. dict_get s ''arm_to_irq_over20ms'' = 0 \<and> dict_get s ''fifo_poll_zero'' = 0) ss \<and>
     sorted_wrt (\<lambda>u v. dict_get u ''fifo_irq_zero'' \<le> dict_get v ''fifo_irq_zero'') ss"

lemma quiet_phases_iff:
  "quiet_phases ss \<longleftrightarrow> list_all (\<lambda>s. dict_get s ''fifo_poll_zero'' = 0) ss \<and>
     (ss = [] \<or> dict_get (hd ss) ''arm_to_irq_over20ms'' = 0) \<and>
     successively (\<lambda>u v. dict_get v ''arm_to_irq_over20ms'' = dict_get u ''arm_to_irq_over20ms'' \<and>
       dict_get u ''fifo_irq_zero'' \<le> dict_get v ''fifo_irq_zero'' \<and>
       dict_get u ''fifo_poll_zero'' \<le> dict_get v ''fifo_poll_zero'') ss"
proof (induction ss)
  case (Cons s ss)
  have tr: "transp (\<lambda>u v. dict_get u ''fifo_irq_zero'' \<le> dict_get v ''fifo_irq_zero'')"
    by (auto simp: transp_def)
  show ?case
    using Cons.IH by (cases ss) (auto simp: quiet_phases_def successively_conv_sorted_wrt [OF tr, symmetric])
qed (simp add: quiet_phases_def)

lemma step_chain_pass:
  "first_reject (concat (map2 phase_step_guards (map (\<lambda>(phase, ss). (phase, hd ss)) G)
      (tl (map (\<lambda>(phase, ss). (phase, hd ss)) G)))) = None \<longleftrightarrow>
   successively (\<lambda>u v. dict_get v ''arm_to_irq_over20ms'' = dict_get u ''arm_to_irq_over20ms'' \<and>
     dict_get u ''fifo_irq_zero'' \<le> dict_get v ''fifo_irq_zero'' \<and>
     dict_get u ''fifo_poll_zero'' \<le> dict_get v ''fifo_poll_zero'') (map (hd \<circ> snd) G)"
  unfolding map2_tl_pass successively_map
  by (rule arg_cong [where f = "\<lambda>P. successively P G"])
    (auto simp: fun_eq_iff phase_step_pass)

lemma phase_sample_pass:
  "first_reject (phase_sample_guards g) = None \<longleftrightarrow>
     length (snd g) = 1 \<and> dict_get (hd (snd g)) ''fifo_poll_zero'' = 0"
  unfolding phase_sample_guards_def case_prod_unfold first_reject_None_simps by blast

lemma phase_samples_pass:
  "first_reject (concat (map phase_sample_guards G)) = None \<longleftrightarrow>
     list_all (\<lambda>g. length (snd g) = 1) G \<and>
     list_all (\<lambda>s. dict_get s ''fifo_poll_zero'' = 0) (map (hd \<circ> snd) G)"
proof (induction G)
  case (Cons g G)
  then show ?case
    unfolding list.map concat.simps first_reject_None_simps phase_sample_pass list.pred_inject comp_apply
    by blast
qed simp

lemma singletons_iff:
  "map fst G = phases \<and> list_all (\<lambda>g. length (snd g) = 1) G \<and> Q (map (hd \<circ> snd) G) \<longleftrightarrow>
     (\<exists>ss. G = zip phases (map (\<lambda>s. [s]) ss) \<and> length ss = length phases \<and> Q ss)" (is "?L \<longleftrightarrow> ?R")
proof
  assume L: ?L
  have "list_all (\<lambda>g. length (snd g) = 1) H \<Longrightarrow> H = zip (map fst H) (map (\<lambda>s. [s]) (map (hd \<circ> snd) H))"
    for H :: "('a \<times> 'b list) list"
  proof (induction H)
    case (Cons g H)
    then show ?case by (cases g; cases "snd g") auto
  qed simp
  with L have "G = zip phases (map (\<lambda>s. [s]) (map (hd \<circ> snd) G))" by blast
  with L show ?R by (intro exI [of _ "map (hd \<circ> snd) G"]) auto
next
  assume ?R
  then obtain ss where ss: "G = zip phases (map (\<lambda>s. [s]) ss)" "length ss = length phases" "Q ss" by blast
  then have "map (hd \<circ> snd) G = ss"
    by (intro nth_equalityI) simp_all
  moreover have "list_all (\<lambda>g. length (snd g) = 1) G" using ss(1) by (auto simp: list_all_iff set_zip)
  ultimately show ?L using ss by simp
qed

lemma diagnostics_phase_None:
  "diagnostics_phase_problem out phases = None \<longleftrightarrow>
     (\<exists>ss. diagnostics_phase_groups out = zip phases (map (\<lambda>s. [s]) ss) \<and> length ss = length phases \<and>
        quiet_phases ss)"
  unfolding singletons_iff [symmetric] diagnostics_phase_problem_def Let_def quiet_phases_iff
    first_reject_None_simps phase_samples_pass step_chain_pass
  by (cases "diagnostics_phase_groups out") (auto simp: case_prod_unfold)


section \<open>Frame buffer hashes\<close>

lemma hash_guards_pass:
  "first_reject (concat (map (hash_guards out) phases)) = None \<longleftrightarrow>
     list_all (\<lambda>phase. \<exists>h. fb_hashes out phase = [h] \<and> h \<noteq> EMPTY_SHA256) phases"
proof (induction phases)
  case (Cons p ps)
  have "length (fb_hashes out p) = 1 \<and> hd (fb_hashes out p) \<noteq> EMPTY_SHA256 \<longleftrightarrow>
      (\<exists>h. fb_hashes out p = [h] \<and> h \<noteq> EMPTY_SHA256)"
    by (cases "fb_hashes out p") auto
  with Cons show ?case
    unfolding list.map concat.simps hash_guards_def Let_def first_reject_None_simps list.pred_inject by blast
qed simp

lemma same_hash_pass:
  "first_reject (map (\<lambda>(phase, value). (value \<noteq> r, g phase)) (map (\<lambda>p. (p, f p)) ps)) = None \<longleftrightarrow>
     list_all (\<lambda>p. f p = r) ps"
  by (auto simp: first_reject_None_iff list_all_iff)

lemma framebuffer_hash_results:
  "(framebuffer_hash_problem out phases = Inr None \<longleftrightarrow>
     phases \<noteq> [] \<and> (\<exists>h. h \<noteq> EMPTY_SHA256 \<and> list_all (\<lambda>phase. fb_hashes out phase = [h]) phases)) \<and>
   (framebuffer_hash_problem out phases = Inl e \<longleftrightarrow> phases = [] \<and> e = IndexError)"
proof (cases phases)
  case Nil
  then show ?thesis by (auto simp: framebuffer_hash_problem_def)
next
  case (Cons p ps)
  let ?ok = "list_all (\<lambda>phase. \<exists>h. fb_hashes out phase = [h] \<and> h \<noteq> EMPTY_SHA256) phases"
  have "framebuffer_hash_problem out phases = Inr None \<longleftrightarrow>
      ?ok \<and> list_all (\<lambda>q. hd (fb_hashes out q) = hd (fb_hashes out p)) ps"
    unfolding hash_guards_pass [symmetric] same_hash_pass [symmetric, where g = "\<lambda>q. ''signature-changed-'' @ p @ ''-to-'' @ q"]
    by (simp add: framebuffer_hash_problem_def Cons split: option.split del: map_map)
  also have "\<dots> \<longleftrightarrow> (\<exists>h. h \<noteq> EMPTY_SHA256 \<and> list_all (\<lambda>phase. fb_hashes out phase = [h]) phases)"
    by (auto simp: Cons list_all_iff) (metis list.sel(1))
  finally show ?thesis by (auto simp: Cons framebuffer_hash_problem_def split: option.split)
qed

text \<open>
  C33. The frame buffer verdict, exactly: stable means that every phase reported exactly one
  hash, all phases the same one, and not the hash of an empty read; the check fails with an
  index error only on an empty list of phases.
\<close>

theorem framebuffer_hash_iff:
  "(framebuffer_hash_problem out phases = Inr None \<longleftrightarrow>
     phases \<noteq> [] \<and> (\<exists>h. h \<noteq> EMPTY_SHA256 \<and> list_all (\<lambda>phase. fb_hashes out phase = [h]) phases)) \<and>
   (framebuffer_hash_problem out phases = Inl e \<longleftrightarrow> phases = [] \<and> e = IndexError)"
  by (rule framebuffer_hash_results)

section \<open>Boot markers in order\<close>

lemma find_at_None:
  "find_at needle hay i = None \<Longrightarrow> needle \<noteq> [] \<Longrightarrow> \<not> prefix needle (drop k hay)"
proof (induction hay arbitrary: i k)
  case (Cons c cs)
  then show ?case by (cases k) (auto split: if_splits)
qed (auto split: if_splits)

lemma find_at_least:
  "find_at needle hay i = Some k \<Longrightarrow> prefix needle (drop j hay) \<Longrightarrow> needle \<noteq> [] \<Longrightarrow> k \<le> i + j"
proof (induction hay arbitrary: i j)
  case (Cons c cs)
  show ?case
  proof (cases "prefix needle (c # cs)")
    case False
    with Cons.prems obtain j' where "j = Suc j'" by (cases j) auto
    with Cons False show ?thesis by fastforce
  qed (use Cons.prems in simp)
qed (auto split: if_splits)

lemma py_find_least:
  assumes "needle \<noteq> []" and "start \<le> j" and "prefix needle (drop j hay)"
  obtains k where "py_find hay needle start = Some k" and "k \<le> j"
proof -
  have "j < length hay" using assms(1,3) by (cases "j < length hay") auto
  then have s: "start \<le> length hay" using assms(2) by simp
  have d: "prefix needle (drop (j - start) (drop start hay))" using assms(2,3) by simp
  then obtain k where "find_at needle (drop start hay) start = Some k"
    using find_at_None [OF _ assms(1), of "drop start hay" start "j - start"]
    by (cases "find_at needle (drop start hay) start") (simp_all del: drop_drop)
  moreover from find_at_least [OF this d assms(1)] have "k \<le> j" using assms(2) by simp
  ultimately show thesis using that s by (simp add: py_find_def)
qed

text \<open>Searching for each marker as early as possible finds an order whenever there is one.\<close>

lemma markers_in_order_iff:
  assumes "list_all (\<lambda>m. m \<noteq> []) ms"
  shows "markers_in_order text start ms = None \<longleftrightarrow>
    (\<exists>ps. list_all2 (\<lambda>p m. start \<le> p \<and> prefix m (drop p text)) ps ms \<and> sorted_wrt (<) ps)"
  using assms
proof (induction ms arbitrary: start)
  case (Cons m ms)
  then have m: "m \<noteq> []" and ms: "list_all (\<lambda>m. m \<noteq> []) ms" by simp_all
  show ?case
  proof
    assume "markers_in_order text start (m # ms) = None"
    then obtain k where k: "py_find text m start = Some k" "markers_in_order text (Suc k) ms = None"
      by (auto split: option.splits)
    then obtain ps where ps: "list_all2 (\<lambda>p m. Suc k \<le> p \<and> prefix m (drop p text)) ps ms" "sorted_wrt (<) ps"
      using Cons.IH [OF ms] by blast
    have "list_all2 (\<lambda>p m. start \<le> p \<and> prefix m (drop p text)) (k # ps) (m # ms)"
      using py_find_Some [OF k(1)] ps(1) by (auto elim!: list_all2_mono)
    moreover have "\<forall>p \<in> set ps. k < p" using ps(1) by (auto simp: list_all2_conv_all_nth in_set_conv_nth Suc_le_eq)
    ultimately show "\<exists>ps. list_all2 (\<lambda>p m. start \<le> p \<and> prefix m (drop p text)) ps (m # ms) \<and> sorted_wrt (<) ps"
      using ps(2) by (intro exI [of _ "k # ps"]) simp
  next
    assume "\<exists>ps. list_all2 (\<lambda>p m. start \<le> p \<and> prefix m (drop p text)) ps (m # ms) \<and> sorted_wrt (<) ps"
    then obtain j ps where j: "start \<le> j" "prefix m (drop j text)"
      and ps: "list_all2 (\<lambda>p m. start \<le> p \<and> prefix m (drop p text)) ps ms" "sorted_wrt (<) (j # ps)"
      by (auto simp: list_all2_Cons2)
    from py_find_least [OF m j] obtain k where k: "py_find text m start = Some k" "k \<le> j" .
    have "list_all2 (\<lambda>p m. Suc k \<le> p \<and> prefix m (drop p text)) ps ms"
    proof (rule list.rel_mono_strong [OF ps(1)])
      fix p m
      assume "p \<in> set ps" "start \<le> p \<and> prefix m (drop p text)"
      moreover from this have "j < p" using ps(2) by simp
      ultimately show "Suc k \<le> p \<and> prefix m (drop p text)" using k(2) by simp
    qed
    then have "markers_in_order text (Suc k) ms = None" using Cons.IH [OF ms] ps(2) by auto
    with k(1) show "markers_in_order text start (m # ms) = None" by simp
  qed
qed simp

lemma boot_contract_None:
  "boot_contract_problem boot_log = None \<longleftrightarrow>
     failure_marker boot_log = None \<and> py_in ''Linux version 6.12.27'' boot_log \<and>
     (\<exists>ps. list_all2 (\<lambda>p m. prefix m (drop p boot_log)) ps ordered_markers \<and> sorted_wrt (<) ps) \<and>
     list_all (\<lambda>fragment. py_in fragment boot_log) required_fragments"
proof -
  have ne: "list_all (\<lambda>m. m \<noteq> []) ordered_markers" by (simp add: ordered_markers_def)
  have "first_reject (map (\<lambda>fragment. (\<not> py_in fragment boot_log, g fragment)) required_fragments) = None \<longleftrightarrow>
      list_all (\<lambda>fragment. py_in fragment boot_log) required_fragments" for g :: "string \<Rightarrow> string"
    by (auto simp: first_reject_None_iff list_all_iff)
  then show ?thesis
    unfolding boot_contract_problem_def using markers_in_order_iff [OF ne, of boot_log 0]
    by (auto split: option.split)
qed

text \<open>
  C34. The boot verdict, exactly: a boot transcript is accepted when it has no failure marker,
  names the kernel version, contains the twenty-three cold-start markers at increasing
  positions, and contains every required fragment.
\<close>

theorem boot_contract_iff:
  "boot_contract_problem boot_log = None \<longleftrightarrow>
     failure_marker boot_log = None \<and> py_in ''Linux version 6.12.27'' boot_log \<and>
     (\<exists>ps. list_all2 (\<lambda>p m. prefix m (drop p boot_log)) ps ordered_markers \<and> sorted_wrt (<) ps) \<and>
     list_all (\<lambda>fragment. py_in fragment boot_log) required_fragments"
  by (rule boot_contract_None)

end
