(* ===== verification/M9_Gate.thy ===== *)
theory M9_Gate
  imports M9_Commands M9_Evidence
begin

text \<open>
  The modes of \<^verbatim>\<open>m9-hardware-test.py\<close>: what \<^verbatim>\<open>run_preflight\<close>, \<^verbatim>\<open>run_touch\<close>, \<^verbatim>\<open>run_soak\<close>, \<^verbatim>\<open>run_stress\<close>,
  \<^verbatim>\<open>run_disconnect\<close> and \<^verbatim>\<open>run_snapshot\<close> send, and how they judge the answers.  The statements that
  judge one answer are a verdict, a list of checks in the order of the source; a check is the
  problem it finds (the lines printed first, the stage and the detail handed to \<^verbatim>\<open>fail\<close>), or
  none, or the error it raises.
\<close>

section \<open>Verdicts\<close>

type_synonym problem = "string list \<times> string \<times> string"
type_synonym check = "problem option result"

fun first_problem :: "check list \<Rightarrow> check" where
  "first_problem [] = Inr None"
| "first_problem (c # cs) = (case c of Inr None \<Rightarrow> first_problem cs | _ \<Rightarrow> c)"

definition bad_when :: "bool \<Rightarrow> string \<Rightarrow> string \<Rightarrow> check" where
  "bad_when b stage detail = Inr (if b then Some ([], stage, detail) else None)"

definition problem_at :: "string \<Rightarrow> string option \<Rightarrow> check" where
  "problem_at stage p = Inr (map_option (\<lambda>detail. ([], stage, detail)) p)"

definition result_at :: "string \<Rightarrow> string option result \<Rightarrow> check" where
  "result_at stage r = rbind r (problem_at stage)"

definition rc_check :: "string \<Rightarrow> command_result \<Rightarrow> check" where
  "rc_check stage r = bad_when (return_code r \<noteq> 0) stage (''rc-'' @ str_int (return_code r))"

definition marker_checks :: "string \<Rightarrow> string list \<Rightarrow> string \<Rightarrow> check list" where
  "marker_checks stage markers out = map (\<lambda>m. bad_when (\<not> py_in m out) stage (''missing-'' @ m)) markers"

definition conclude :: "check \<Rightarrow> int io \<Rightarrow> int io" where
  "conclude c k = (case c of Inl e \<Rightarrow> io_raise e
     | Inr (Some (ls, stage, detail)) \<Rightarrow> io_then (print_all ls) (fail stage detail)
     | Inr None \<Rightarrow> k)"

definition pass :: "string \<Rightarrow> int io" where
  "pass line = io_then (py_print line) (io_return 0)"

section \<open>Preflight\<close>

definition check_verdict :: "command_result \<Rightarrow> check" where
  "check_verdict r = (let out = cmd_output r in first_problem
     [rc_check ''interface-check'' r,
      bad_when (\<not> py_in ''MICRONUX:M9:DISPLAY-TEST:PASS mode=check'' out) ''interface-check'' ''pass-marker-missing'',
      bad_when (\<not> py_in ''ready product=9271'' out \<and> \<not> py_in ''touch=unavailable'' out \<and>
          \<not> py_in ''input=unavailable'' out) ''touch-status'' ''ready-or-unavailable-marker-missing'',
      bad_when (py_in ''ready product=9271'' out \<and> \<not> py_in ''errors=0'' out) ''touch-status'' ''ready-status-has-errors''])"

definition sysfs_verdict :: "command_result \<Rightarrow> check" where
  "sysfs_verdict r = (let out = cmd_output r in first_problem
     [rc_check ''display-sysfs'' r,
      bad_when (py_search OWNERSHIP_LINE_RE out = None) ''display-sysfs'' ''native-ownership-missing'',
      bad_when (py_search TOUCH_LINE_RE out = None) ''display-sysfs'' ''touch-state-invalid'',
      problem_at ''display-sysfs'' (runtime_status_problem out 1),
      problem_at ''display-sysfs'' (display_health_problem out 1 False False)])"

definition vpg_verdict :: "command_result \<Rightarrow> check" where
  "vpg_verdict r = (let out = cmd_output r in first_problem
     [rc_check ''native-vpg-unavailable'' r,
      result_at ''native-vpg-unavailable'' (framebuffer_hash_problem out [''vpg-reject-before'', ''vpg-reject-after'']),
      bad_when (\<not> py_in ''MICRONUX:M9:VPG-UNAVAILABLE absent=1'' out) ''native-vpg-unavailable'' ''absence-marker-missing'',
      problem_at ''native-vpg-unavailable'' (runtime_status_problem out 1),
      problem_at ''native-vpg-unavailable'' (display_health_problem out 2 False True)])"

definition presentation_verdict :: "command_result \<Rightarrow> check" where
  "presentation_verdict r = (let out = cmd_output r in first_problem
     ([rc_check ''presentation'' r,
       result_at ''presentation-framebuffer''
         (framebuffer_hash_problem out [''presentation-before'', ''presentation-after''])] @
      marker_checks ''presentation'' [''MICRONUX:M9:SHELL state=responsive'', ''MICRONUX:M9:DRAW rc=0'',
        ''MICRONUX:M9:DISPLAY-TEST:PASS mode=draw console=restored''] out @
      [problem_at ''presentation'' (runtime_status_problem out 1),
       problem_at ''presentation-health'' (display_health_problem out 3 True True)]))"

definition signal_verdict :: "command_result \<Rightarrow> check" where
  "signal_verdict r = (let out = cmd_output r in first_problem
     ([rc_check ''signal-recovery'' r,
       result_at ''signal-framebuffer'' (framebuffer_hash_problem out [''signal-before'', ''signal-after''])] @
      marker_checks ''signal-recovery'' [''MICRONUX:M9:SIGNAL rc=143'', ''MICRONUX:M9:SIGNAL-SHELL state=responsive''] out @
      [problem_at ''signal-recovery'' (runtime_status_problem out 1),
       problem_at ''signal-health'' (display_health_problem out 2 True True)]))"

text \<open>One step of a mode: a command, its verdict, and what follows when there is no problem.\<close>

definition judged_step ::
    "string \<Rightarrow> string \<Rightarrow> rat \<Rightarrow> (command_result \<Rightarrow> check) \<Rightarrow> (command_result \<Rightarrow> int io) \<Rightarrow> int io" where
  "judged_step command label timeout verdict k =
     io_bind (run_command command label timeout) (\<lambda>r. conclude (verdict r) (k r))"

definition run_preflight :: "string \<Rightarrow> int io" where
  "run_preflight boot_log = conclude (problem_at ''boot-markers'' (boot_contract_problem boot_log))
     (judged_step ''micronux-display-test check'' ''CHECK'' 30 check_verdict (\<lambda>_.
      judged_step sysfs_command ''DISPLAY_SYSFS'' 20 sysfs_verdict (\<lambda>_.
      judged_step vpg_unavailable_command ''VPG_UNAVAILABLE'' 20 vpg_verdict (\<lambda>_.
      judged_step presentation_command ''PRESENTATION'' 45 presentation_verdict (\<lambda>_.
      judged_step signal_command ''SIGNAL'' 45 signal_verdict (\<lambda>_.
      pass preflight_pass))))))"

section \<open>Touch\<close>

definition touch_verdict :: "command_result \<Rightarrow> check" where
  "touch_verdict r = (let out = cmd_output r in first_problem
     [rc_check ''five-point-touch'' r,
      result_at ''touch-framebuffer'' (framebuffer_hash_problem out [''touch-before'', ''touch-after'']),
      bad_when (\<not> py_in ''MICRONUX:M9:DISPLAY-TEST:PASS mode=touch points=5'' out) ''five-point-touch'' ''pass-marker-missing'',
      bad_when (length (groups_of (Lit ''MICRONUX:M9:TOUCH-TARGET:PASS'') out) \<noteq> 5) ''five-point-touch'' ''point-count'',
      bad_when (groups_of (Cat Bol (Cats ([touch_ready_re] @ line_end))) out = [] \<or>
          \<not> py_in ''MICRONUX:M9:TOUCH-READY ready=1'' out) ''five-point-touch'' ''ready-timeout'',
      problem_at ''touch-runtime'' (runtime_status_problem out 1),
      problem_at ''touch-health'' (display_health_problem out 2 True True)])"

definition run_touch :: "int \<Rightarrow> int io" where
  "run_touch point_timeout_ms =
     judged_step (touch_command point_timeout_ms) ''TOUCH'' (of_int point_timeout_ms * 5 / 1000 + 65) touch_verdict
       (\<lambda>_. pass touch_pass)"

section \<open>Soak\<close>

definition soak_sample_count :: "int \<Rightarrow> int \<Rightarrow> int" where
  "soak_sample_count soak_seconds sample_seconds = soak_seconds div sample_seconds + 1"

definition soak_commands :: "int \<Rightarrow> int \<Rightarrow> string list" where
  "soak_commands soak_seconds sample_seconds =
     (let sample_count = soak_sample_count soak_seconds sample_seconds in
      soak_setup @
      concat (map (\<lambda>index. soak_sample_commands index @
        (if int index + 1 < sample_count then [''sleep '' @ str_int sample_seconds] else [])) [0..<nat sample_count]) @
      [''[ '' @ [CHR 0x22] @ ''$m9_soak_rc'' @ [CHR 0x22] @ '' -eq 0 ]''])"

definition soak_index :: "string \<Rightarrow> string \<Rightarrow> string \<Rightarrow> string list" where
  "soak_index before after out = map (\<lambda>gs. snd (hd gs)) (groups_of (line_re ([L before, Fld ''1'' Dec] @
     (if after = [] then [] else [L after]))) out)"

definition soak_verdict :: "int \<Rightarrow> command_result \<Rightarrow> check" where
  "soak_verdict sample_count r = (let out = cmd_output r; expected = map str_nat [0..<nat sample_count] in first_problem
     [rc_check ''soak'' r,
      bad_when (soak_index ''MICRONUX:M9:SOAK-SAMPLE index='' [] out \<noteq> expected) ''soak'' ''sample-count'',
      bad_when (soak_index ''MICRONUX:M9:SOAK-SHELL state=responsive index='' [] out \<noteq> expected) ''soak'' ''shell-count'',
      result_at ''soak-framebuffer'' (framebuffer_hash_problem out (map (\<lambda>i. ''soak-'' @ str_nat i) [0..<nat sample_count])),
      bad_when (soak_index ''MICRONUX:M9:SOAK-STATUS index=''
          ('' pattern=framebuffer boot_ready=1 native_state=RUNTIME_REVEALED brightness=63 '' @
           ''bl_power=0 actual_brightness=63'') out \<noteq> expected) ''soak'' ''source-or-backlight-state'',
      bad_when (int (length (diagnostics_samples out)) \<noteq> sample_count) ''soak-diagnostics'' ''sample-count'',
      bad_when (int (length (scanout_samples out)) \<noteq> sample_count) ''soak-scanout'' ''sample-count'',
      bad_when (int (length (py_finditer TOUCH_LINE_RE out)) \<noteq> sample_count) ''soak-touch'' ''ready-or-unavailable-sample-count'',
      problem_at ''soak-health'' (display_health_problem out (nat sample_count) False True)])"

definition run_soak :: "int \<Rightarrow> int \<Rightarrow> int io" where
  "run_soak soak_seconds sample_seconds =
     (if sample_seconds = 0 then io_raise ZeroDivisionError
      else let sample_count = soak_sample_count soak_seconds sample_seconds in
        judged_step (join ''; '' (soak_commands soak_seconds sample_seconds)) ''SOAK'' (of_int soak_seconds + 60)
          (soak_verdict sample_count) (\<lambda>_. pass (soak_pass soak_seconds sample_count)))"

section \<open>Stress\<close>

definition is_stage_char :: "char \<Rightarrow> bool" where
  "is_stage_char c \<longleftrightarrow> c \<in> set ''abcdefghijklmnopqrstuvwxyz-''"

definition stress_snapshots :: "string \<Rightarrow> string list" where
  "stress_snapshots out = map (\<lambda>gs. snd (hd gs))
     (groups_of (line_re [L ''MICRONUX:M9.2:STRESS:SNAPSHOT stage='', Fld ''1'' (Run is_stage_char)]) out)"

definition memory_re :: regex where
  "memory_re = Cat Bol (Cats ([Lit ''MICRONUX:M9.2:STRESS:MEM stage='', Grp ''1'' (Plus (Cls is_stage_char)),
     Opt (Lit [carriage_return]), Lit [newline], Lit ''MemFree:'', Plus (Cls is_space), Grp ''2'' (Plus digit),
     Lit '' kB'', Opt (Lit [carriage_return]), Lit [newline], Lit ''MemAvailable:'', Plus (Cls is_space),
     Grp ''3'' (Plus digit), Lit '' kB''] @ line_end))"

definition memory_samples :: "string \<Rightarrow> (string \<times> int \<times> int) list" where
  "memory_samples out = map (\<lambda>gs. (snd (gs ! 0), int_str (snd (gs ! 1)), int_str (snd (gs ! 2)))) (groups_of memory_re out)"

definition memory_problem :: "string \<Rightarrow> check" where
  "memory_problem out = (let ms = memory_samples out in
     if map fst ms \<noteq> expected_stages then bad_when True ''stress-memory'' ''missing-duplicate-or-out-of-order''
     else first_problem
       [bad_when (fst (snd (hd ms)) - fst (snd (last ms)) > 512) ''stress-memory'' ''memfree-loss-over-512-kib'',
        bad_when (snd (snd (hd ms)) - snd (snd (last ms)) > 512) ''stress-memory'' ''memavailable-loss-over-512-kib''])"

definition stress_status_re :: regex where
  "stress_status_re = line_re [L (''MICRONUX:M9.2:STRESS:STATUS pattern=framebuffer boot_ready=1 '' @
     ''native_state=RUNTIME_REVEALED brightness=63 bl_power=0 actual_brightness=63'')]"

definition stress_verdict :: "int \<Rightarrow> command_result \<Rightarrow> check" where
  "stress_verdict stress_cycles r = (let out = cmd_output r; n = length expected_stages in first_problem
     ([rc_check ''stress'' r,
       result_at ''stress-framebuffer'' (framebuffer_hash_problem out [''stress-before'', ''stress-after'']),
       bad_when (stress_snapshots out \<noteq> expected_stages) ''stress-snapshots'' ''missing-duplicate-or-out-of-order'',
       memory_problem out] @
      marker_checks ''stress-workload'' (stress_markers stress_cycles) out @
      [bad_when (py_search stress_status_re out = None) ''stress-restore'' ''source-or-backlight-state'',
       problem_at ''stress-health'' (display_health_problem out n True True),
       bad_when (length (diagnostics_samples out) \<noteq> n) ''stress-diagnostics'' ''snapshot-count'',
       bad_when (length (scanout_samples out) \<noteq> n) ''stress-scanout'' ''snapshot-count'',
       bad_when (length (py_finditer TOUCH_LINE_RE out) \<noteq> n) ''stress-touch'' ''ready-or-unavailable-snapshot-count'']))"

definition run_stress :: "int \<Rightarrow> int io" where
  "run_stress stress_cycles =
     judged_step (join ''; '' (stress_commands stress_cycles)) ''STRESS'' 520 (stress_verdict stress_cycles)
       (\<lambda>r. let ms = memory_samples (cmd_output r) in
          pass (stress_pass stress_cycles (fst (snd (hd ms))) (fst (snd (last ms)))
            (snd (snd (hd ms))) (snd (snd (last ms)))))"

end
