(* ===== verification/M9_Reconnect.thy ===== *)
theory M9_Reconnect
  imports M9_Gate
begin

text \<open>
  The two modes of \<^verbatim>\<open>m9-hardware-test.py\<close> that lose or join a running target: \<^verbatim>\<open>run_disconnect\<close>, which
  closes the port, lets the target record evidence by itself, reopens and compares three points
  in time; and \<^verbatim>\<open>run_snapshot\<close>, which attaches without a reset.
\<close>

section \<open>Evidence before the disconnect\<close>

definition hex_run :: "nat \<Rightarrow> regex" where
  "hex_run n = Rep n (Cls is_hexdigit)"

definition boot_id_re :: regex where
  "boot_id_re = Grp ''1'' (Cats [hex_run 8, Lit ''-'', Rep 3 (Cat (hex_run 4) (Lit ''-'')), hex_run 12])"

definition boot_ids_after :: "string \<Rightarrow> string \<Rightarrow> string list" where
  "boot_ids_after marker out = map (\<lambda>gs. snd (hd gs)) (groups_of (Cat (Lit (marker @ '' boot_id='')) boot_id_re) out)"

definition status_seen :: "string \<Rightarrow> string \<Rightarrow> bool" where
  "status_seen which out \<longleftrightarrow> py_search (Lit (''MICRONUX:M9:USB-DISCONNECT:STATUS-'' @ which @
     '' pattern=framebuffer boot_ready=1 native_state=RUNTIME_REVEALED brightness=63 '' @
     ''bl_power=0 actual_brightness=63'')) out \<noteq> None"

definition policy_verdict :: "command_result \<Rightarrow> check" where
  "policy_verdict r = bad_when (return_code r \<noteq> 0 \<or> \<not> py_in ''disabled'' (cmd_output r))
     ''disconnect-policy'' ''reset-protection-not-active''"

definition before_ids :: "string \<Rightarrow> string list" where
  "before_ids out = boot_ids_after ''MICRONUX:M9:USB-DISCONNECT:BEFORE'' out"

definition before_verdict :: "command_result \<Rightarrow> check" where
  "before_verdict r = (let out = cmd_output r in first_problem
     [rc_check ''disconnect-before'' r,
      result_at ''disconnect-before-framebuffer'' (framebuffer_hash_problem out [''disconnect-before'']),
      problem_at ''disconnect-before-telemetry'' (diagnostics_phase_problem out [''BEFORE-PREHASH'', ''BEFORE-POSTHASH'']),
      bad_when (\<not> status_seen ''BEFORE'' out) ''disconnect-before'' ''source-or-backlight'',
      problem_at ''disconnect-before'' (display_health_problem out 1 False False),
      bad_when (length (py_finditer TOUCH_LINE_RE out) \<noteq> 1) ''disconnect-before'' ''touch-state-invalid'',
      bad_when (before_ids out = []) ''disconnect-before'' ''boot-id-missing''])"

definition armed_re :: "int \<Rightarrow> regex" where
  "armed_re boundary_delay = line_re [L (''MICRONUX:M9:USB-DISCONNECT:BOUNDARY:ARMED delay_seconds='' @
     str_int boundary_delay @ '' pid=''), Fld ''pid'' Dec]"

definition arm_verdict :: "int \<Rightarrow> command_result \<Rightarrow> check" where
  "arm_verdict boundary_delay r = bad_when (return_code r \<noteq> 0 \<or> py_search (armed_re boundary_delay) (cmd_output r) = None)
     ''disconnect-boundary'' ''arm-failed''"

section \<open>Evidence after the reconnect\<close>

definition classification :: "string \<Rightarrow> string \<Rightarrow> string" where
  "classification phase reason =
     ''MICRONUX:M9:USB-DISCONNECT:CLASSIFICATION phase='' @ phase @ '' result=fail reason='' @ reason"

definition classified_when :: "bool \<Rightarrow> string \<Rightarrow> string \<Rightarrow> string \<Rightarrow> check" where
  "classified_when b phase stage detail =
     Inr (if b then Some ([classification phase detail], stage, detail) else None)"

definition reboot_when :: "bool \<Rightarrow> check" where
  "reboot_when b = classified_when b ''disconnect'' ''disconnect-after'' ''unexpected-reboot''"

fun or_else :: "string option list \<Rightarrow> string \<Rightarrow> string" where
  "or_else [] d = d"
| "or_else (p # ps) d = (case p of Some x \<Rightarrow> x | None \<Rightarrow> or_else ps d)"

definition lines_joined :: "string list \<Rightarrow> string" where
  "lines_joined ss = join [newline] ss"

definition boundary_phases :: "string list" where
  "boundary_phases = [''BEFORE-PREHASH'', ''BEFORE-POSTHASH'', ''BOUNDARY-PREHASH'', ''BOUNDARY-POSTHASH'']"

definition boundary_check :: "string \<Rightarrow> string \<Rightarrow> check" where
  "boundary_check before boundary = (let both = before @ [newline] @ boundary in
     rbind (framebuffer_hash_problem both [''disconnect-before'', ''disconnect-boundary'']) (\<lambda>framebuffer_problem.
     let problems = [diagnostics_phase_problem both boundary_phases, display_health_problem both 2 False True,
           fst (disconnect_progress_rate before ''BEFORE-POSTHASH'' boundary ''BOUNDARY-PREHASH''), framebuffer_problem];
         status_ok = status_seen ''BOUNDARY'' boundary in
     classified_when (list_ex (\<lambda>p. p \<noteq> None) problems \<or> \<not> status_ok \<or>
         length (diagnostics_samples before) \<noteq> 2 \<or> length (diagnostics_samples boundary) \<noteq> 2 \<or>
         length (py_finditer TOUCH_LINE_RE boundary) \<noteq> 1 \<or>
         length (scanout_samples before) \<noteq> 1 \<or> length (scanout_samples boundary) \<noteq> 1 \<or>
         dict_get (last (scanout_samples boundary)) ''after'' \<le> dict_get (last (scanout_samples before)) ''after'')
       ''disconnect'' ''disconnect-failure''
       (or_else problems (if \<not> status_ok then ''source-or-backlight'' else ''scanout-did-not-continue''))))"

definition full_health_output :: "string \<Rightarrow> string \<Rightarrow> string \<Rightarrow> string \<Rightarrow> string" where
  "full_health_output before boundary after_state after_scanout =
     lines_joined [before, boundary, after_state, after_scanout]"

definition after_check :: "string \<Rightarrow> string \<Rightarrow> string \<Rightarrow> string \<Rightarrow> string \<Rightarrow> check" where
  "after_check before boundary after_state after_scanout evidence =
     (let full = full_health_output before boundary after_state after_scanout in
     rbind (framebuffer_hash_problem (lines_joined [before, boundary, after_state])
         [''disconnect-before'', ''disconnect-boundary'', ''disconnect-after'']) (\<lambda>framebuffer_problem.
     let problems = [diagnostics_phase_problem full (boundary_phases @ [''AFTER-PREHASH'', ''AFTER-POSTHASH'']),
           display_health_problem full 3 False True,
           fst (disconnect_progress_rate boundary ''BOUNDARY-POSTHASH'' after_state ''AFTER-PREHASH''), framebuffer_problem];
         status_ok = status_seen ''AFTER'' after_state in
     classified_when (list_ex (\<lambda>p. p \<noteq> None) problems \<or> \<not> status_ok \<or>
         length (diagnostics_samples after_state) \<noteq> 2 \<or> length (py_finditer TOUCH_LINE_RE after_state) \<noteq> 1 \<or>
         length (scanout_samples after_scanout) \<noteq> 1 \<or>
         dict_get (last (scanout_samples after_scanout)) ''after'' \<le> dict_get (last (scanout_samples boundary)) ''after'')
       ''reconnect'' ''reconnect-driver-fault''
       (if py_in ''MICRONUX:M9:DISPLAY-FAULT'' evidence then ''display-fault-after-usb-reopen''
        else or_else problems (if \<not> status_ok then ''source-or-backlight'' else ''scanout-did-not-continue''))))"

definition reconnect_verdict ::
    "string \<Rightarrow> command_result \<Rightarrow> command_result \<Rightarrow> command_result \<Rightarrow> command_result \<Rightarrow> command_result \<Rightarrow> check" where
  "reconnect_verdict reconnect_log before boundary after_id after_state after_scanout =
     (let ids = before_ids (cmd_output before);
          after_ids = boot_ids_after ''MICRONUX:M9:USB-DISCONNECT:AFTER'' (cmd_output after_id);
          boundary_ids = boot_ids_after ''MICRONUX:M9:USB-DISCONNECT:BOUNDARY:BEGIN'' (cmd_output boundary) in
      first_problem
        [bad_when (return_code after_id \<noteq> 0) ''disconnect-evidence'' ''after-boot-id-command-failed'',
         bad_when (after_ids = []) ''disconnect-evidence'' ''after-boot-id-missing'',
         reboot_when (last ids \<noteq> last after_ids),
         bad_when (list_ex (\<lambda>r. return_code r \<noteq> 0) [boundary, after_state, after_scanout])
           ''disconnect-evidence'' ''post-command-failed'',
         bad_when (\<not> py_in ''MICRONUX:M9:USB-DISCONNECT:BOUNDARY:COMPLETE'' (cmd_output boundary))
           ''disconnect-boundary'' ''evidence-incomplete'',
         bad_when (boundary_ids = []) ''disconnect-boundary'' ''boot-id-missing'',
         reboot_when (last ids \<noteq> last boundary_ids),
         boundary_check (cmd_output before) (cmd_output boundary),
         after_check (cmd_output before) (cmd_output boundary) (cmd_output after_state) (cmd_output after_scanout)
           (reconnect_log @ cmd_output after_id @ cmd_output after_state @ cmd_output after_scanout)])"

text \<open>The first and the last sample of the phases, for the line printed at the end.\<close>

definition phase_ends :: "string \<Rightarrow> (sample \<times> sample) result" where
  "phase_ends out = (let groups = diagnostics_phase_groups out in
     if groups = [] \<or> list_ex (\<lambda>g. snd g = []) groups then Inl IndexError
     else Inr (hd (snd (hd groups)), hd (snd (last groups))))"

definition reconnect_report ::
    "int \<Rightarrow> command_result \<Rightarrow> command_result \<Rightarrow> command_result \<Rightarrow> command_result \<Rightarrow> int io" where
  "reconnect_report disconnect_seconds before boundary after_state after_scanout =
     io_bind (io_result (phase_ends (full_health_output (cmd_output before) (cmd_output boundary)
         (cmd_output after_state) (cmd_output after_scanout)))) (\<lambda>(a, b).
     case (snd (disconnect_progress_rate (cmd_output before) ''BEFORE-POSTHASH'' (cmd_output boundary) ''BOUNDARY-PREHASH''),
           snd (disconnect_progress_rate (cmd_output boundary) ''BOUNDARY-POSTHASH'' (cmd_output after_state) ''AFTER-PREHASH'')) of
       (Some disconnect_hz, Some reconnect_hz) \<Rightarrow>
         io_then (py_print (classification_pass disconnect_hz reconnect_hz a b)) (pass (reconnect_pass disconnect_seconds))
     | _ \<Rightarrow> io_raise TypeError)"

section \<open>The disconnect mode\<close>

definition passive_body :: "rat \<Rightarrow> unit \<Rightarrow> (unit + string) io" where
  "passive_body passive_deadline _ = io_catch
     (io_bind (capture_passive_output 2) (\<lambda>passive_log. io_return (Inr passive_log))) is_os_error
     (\<lambda>_. io_then (reopen_reconnect_serial passive_deadline) (io_return (Inl ())))"

definition transport_message :: "string \<Rightarrow> string \<Rightarrow> rat \<Rightarrow> string" where
  "transport_message passive_log reconnect_log closed_seconds =
     ''MICRONUX:M9:USB-RECONNECT:TRANSPORT passive_bytes='' @ str_nat (length passive_log) @
     '' captured_bytes='' @ str_nat (length reconnect_log) @
     '' host_closed_seconds='' @ fixed3 closed_seconds @ '' shell=writable''"

definition reconnect :: "int \<Rightarrow> string io" where
  "reconnect disconnect_seconds =
     io_then dev_control (io_then dev_control (io_then dev_control
     (io_then (py_print (closed_message disconnect_seconds))
     (io_bind monotonic (\<lambda>closed_at. io_bind monotonic (\<lambda>opened_at.
      io_then (open_serial 30 False)
     (io_bind monotonic (\<lambda>now.
      io_bind (io_loop (passive_body (now + 30)) ()) (\<lambda>passive_log.
      io_bind (recover_reconnect_prompt 30) (\<lambda>prompt_log.
      io_then (py_print (transport_message passive_log (passive_log @ prompt_log) (opened_at - closed_at)))
        (io_return (passive_log @ prompt_log))))))))))))"

definition run_disconnect :: "int \<Rightarrow> int io" where
  "run_disconnect disconnect_seconds =
     io_then (py_print (disconnect_visual disconnect_seconds))
     (judged_step ''cat /sys/kernel/micronux/usb_reset'' ''DISCONNECT_POLICY'' 20 policy_verdict (\<lambda>_.
      judged_step before_command ''DISCONNECT_BEFORE'' 20 before_verdict (\<lambda>before.
      judged_step (boundary_arm_command disconnect_seconds) ''DISCONNECT_BOUNDARY_ARM'' 20
        (arm_verdict (disconnect_seconds + 1)) (\<lambda>_.
      io_bind (reconnect disconnect_seconds) (\<lambda>reconnect_log.
      conclude (problem_at ''reconnect-driver-fault'' (map_option terminal_failure (failure_marker reconnect_log)))
     (io_bind (run_command boundary_command ''DISCONNECT_BOUNDARY_READ'' 20) (\<lambda>boundary.
      io_bind (run_command after_id_command ''DISCONNECT_AFTER_ID'' 20) (\<lambda>after_id.
      io_bind (run_command after_state_command ''DISCONNECT_AFTER_STATE'' 20) (\<lambda>after_state.
      io_bind (run_command after_scanout_command ''DISCONNECT_AFTER_SCANOUT'' 20) (\<lambda>after_scanout.
      conclude (reconnect_verdict reconnect_log before boundary after_id after_state after_scanout)
        (reconnect_report disconnect_seconds before boundary after_state after_scanout)))))))))))"

section \<open>The snapshot mode\<close>

definition snapshot_verdict :: "command_result \<Rightarrow> check" where
  "snapshot_verdict r = (let out = cmd_output r in first_problem
     [rc_check ''snapshot'' r,
      problem_at ''snapshot-telemetry'' (diagnostics_phase_problem out
        [''SNAPSHOT-A-PREHASH'', ''SNAPSHOT-A-POSTHASH'', ''SNAPSHOT-B-PREHASH'', ''SNAPSHOT-B-POSTHASH'']),
      result_at ''snapshot-framebuffer'' (framebuffer_hash_problem out [''snapshot-a'', ''snapshot-b'']),
      bad_when (py_search OWNERSHIP_LINE_RE out = None) ''snapshot'' ''native-ownership-missing'',
      bad_when (py_search TOUCH_LINE_RE out = None) ''snapshot'' ''touch-state-invalid'',
      problem_at ''snapshot'' (runtime_status_problem out 1),
      problem_at ''snapshot-health'' (display_health_problem out 2 False True)])"

definition snapshot_message :: "string \<Rightarrow> string \<Rightarrow> string" where
  "snapshot_message state captured =
     ''MICRONUX:M9:SNAPSHOT state='' @ state @ '' bytes='' @ str_nat (length captured)"

definition dashed :: "string \<Rightarrow> string" where
  "dashed s = replace_char (CHR '' '') (CHR ''-'') s"

definition take_snapshot :: "(command_result + int) io" where
  "take_snapshot = io_catch
     (io_bind (run_command snapshot_command ''SNAPSHOT'' 30) (\<lambda>r. io_return (Inl r))) is_os_error
     (\<lambda>e. io_bind (fail ''serial'' (dashed (error_message e))) (\<lambda>code. io_return (Inr code)))"

definition snapshot_report :: "command_result \<Rightarrow> int io" where
  "snapshot_report r = io_bind (io_result (phase_ends (cmd_output r))) (\<lambda>(a, b). pass (snapshot_pass a b))"

definition run_snapshot :: "int \<Rightarrow> int io" where
  "run_snapshot snapshot_seconds =
     io_bind (capture_passive_output (of_int snapshot_seconds)) (\<lambda>captured.
     io_then (py_print (snapshot_message ''passive-capture-complete'' captured))
     (conclude (problem_at ''snapshot-passive'' (map_option terminal_failure (failure_marker captured)))
     (io_bind (recover_reconnect_prompt 45) (\<lambda>recovered.
      io_then (py_print (snapshot_message ''prompt-recovered'' recovered))
     (conclude (problem_at ''snapshot-reconnect'' (map_option terminal_failure (failure_marker recovered)))
     (io_bind wait_for_touch_terminal (\<lambda>touch_problem.
      conclude (problem_at ''snapshot-touch'' touch_problem)
     (io_bind take_snapshot (\<lambda>r. case r of
        Inr code \<Rightarrow> io_return code
      | Inl snapshot \<Rightarrow> conclude (snapshot_verdict snapshot) (snapshot_report snapshot))))))))))"

end
