(* ===== verification/Py_Sha256.thy ===== *)
theory Py_Sha256
  imports Py_Struct
begin

text \<open>
  \<^verbatim>\<open>hashlib.sha256\<close>: the hash function of FIPS 180-4 on byte strings, and \<^verbatim>\<open>hexdigest\<close>.
\<close>

unbundle bit_operations_syntax

text \<open>
  The constants are what the standard says they are: the first 32 bits of the fractional parts
  of the cube roots of the first 64 primes, and of the square roots of the first 8.  A root
  scaled by \<open>2 ^ 32\<close> is found bit by bit, and reading it as a word drops its integral part.
\<close>

definition small_primes :: "int list" where
  "small_primes = [2, 3, 5, 7, 11, 13, 17, 19, 23, 29, 31, 37, 41, 43, 47, 53, 59, 61, 67, 71,
     73, 79, 83, 89, 97, 101, 103, 107, 109, 113, 127, 131, 137, 139, 149, 151, 157, 163, 167, 173,
     179, 181, 191, 193, 197, 199, 211, 223, 227, 229, 233, 239, 241, 251, 257, 263, 269, 271, 277, 281,
     283, 293, 307, 311]"

definition scaled_root :: "(int \<Rightarrow> int) \<Rightarrow> int \<Rightarrow> int" where
  "scaled_root pw n = foldl (\<lambda>r b. if pw (r + b) \<le> n then r + b else r) 0 (map (\<lambda>k. 2 ^ k) (rev [0..<37]))"

definition sha_K :: "32 word list" where
  "sha_K = map (\<lambda>p. word_of_int (scaled_root (\<lambda>r. r * r * r) (p * 2 ^ 96))) small_primes"

definition sha_H :: "32 word list" where
  "sha_H = map (\<lambda>p. word_of_int (scaled_root (\<lambda>r. r * r) (p * 2 ^ 64))) (take 8 small_primes)"

definition sha_pad :: "bytes \<Rightarrow> bytes" where
  "sha_pad m = m @ [0x80] @ replicate ((119 - length m mod 64) mod 64) 0 @ be_bytes 8 (8 * length m)"

definition rotr :: "nat \<Rightarrow> 32 word \<Rightarrow> 32 word" where
  "rotr n x = drop_bit n x OR push_bit (32 - n) x"

definition sha_s0 :: "32 word \<Rightarrow> 32 word" where "sha_s0 x = rotr 7 x XOR rotr 18 x XOR drop_bit 3 x"
definition sha_s1 :: "32 word \<Rightarrow> 32 word" where "sha_s1 x = rotr 17 x XOR rotr 19 x XOR drop_bit 10 x"
definition sha_S0 :: "32 word \<Rightarrow> 32 word" where "sha_S0 x = rotr 2 x XOR rotr 13 x XOR rotr 22 x"
definition sha_S1 :: "32 word \<Rightarrow> 32 word" where "sha_S1 x = rotr 6 x XOR rotr 11 x XOR rotr 25 x"

text \<open>The message schedule, latest word first.\<close>

primrec sha_schedule :: "nat \<Rightarrow> 32 word list \<Rightarrow> 32 word list" where
  "sha_schedule 0 ws = ws"
| "sha_schedule (Suc n) ws = sha_schedule n ((sha_s1 (ws ! 1) + ws ! 6 + sha_s0 (ws ! 14) + ws ! 15) # ws)"

fun sha_round :: "32 word list \<Rightarrow> 32 word \<times> 32 word \<Rightarrow> 32 word list" where
  "sha_round [a, b, c, d, e, f, g, h] (k, w) =
     (let t1 = h + sha_S1 e + ((e AND f) XOR (NOT e AND g)) + k + w;
          t2 = sha_S0 a + ((a AND b) XOR (a AND c) XOR (b AND c)) in [t1 + t2, a, b, c, d + t1, e, f, g])"
| "sha_round hs kw = hs"

fun be_word :: "bytes \<Rightarrow> 32 word" where
  "be_word [a, b, c, d] = push_bit 24 (ucast a) OR push_bit 16 (ucast b) OR push_bit 8 (ucast c) OR ucast d"
| "be_word b = 0"

primrec words_of :: "nat \<Rightarrow> bytes \<Rightarrow> 32 word list" where
  "words_of 0 b = []"
| "words_of (Suc n) b = be_word (take 4 b) # words_of n (drop 4 b)"

definition sha_block :: "32 word list \<Rightarrow> bytes \<Rightarrow> 32 word list" where
  "sha_block hs b = map2 (+) hs (foldl sha_round hs (zip sha_K (rev (sha_schedule 48 (rev (words_of 16 b))))))"

primrec sha_blocks :: "nat \<Rightarrow> 32 word list \<Rightarrow> bytes \<Rightarrow> 32 word list" where
  "sha_blocks 0 hs b = hs"
| "sha_blocks (Suc n) hs b = sha_blocks n (sha_block hs (take 64 b)) (drop 64 b)"

definition word_bytes :: "32 word \<Rightarrow> bytes" where
  "word_bytes h = map (\<lambda>n. ucast (drop_bit n h)) [24, 16, 8, 0]"

text \<open>\<^verbatim>\<open>digest\<close> and \<^verbatim>\<open>hexdigest\<close>.\<close>

definition sha256 :: "bytes \<Rightarrow> bytes" where
  "sha256 m = concat (map word_bytes (sha_blocks (length (sha_pad m) div 64) sha_H (sha_pad m)))"

definition byte_hex :: "byte \<Rightarrow> string" where
  "byte_hex b = map (\<lambda>n. ''0123456789abcdef'' ! unat (drop_bit n b AND 15)) [4, 0]"

definition sha256_hex :: "bytes \<Rightarrow> string" where
  "sha256_hex m = concat (map byte_hex (sha256 m))"

section \<open>Sizes\<close>

lemma length_sha_round [simp]: "length (sha_round hs kw) = length hs"
  by (cases "(hs, kw)" rule: sha_round.cases) (simp_all add: Let_def)

lemma length_foldl_round: "length (foldl sha_round hs kws) = length hs"
  by (induction kws arbitrary: hs) simp_all

lemma length_sha_blocks [simp]: "length (sha_blocks n hs b) = length hs"
  by (induction n arbitrary: hs b) (simp_all add: sha_block_def length_foldl_round)

lemma length_sha_H [simp]: "length sha_H = 8"
  by (simp add: sha_H_def small_primes_def)

lemma length_concat_const: "list_all (\<lambda>xs. length xs = k) xss \<Longrightarrow> length (concat xss) = k * length xss"
  by (induction xss) simp_all

lemma length_sha256 [simp]: "length (sha256 m) = 32"
  unfolding sha256_def by (subst length_concat_const [where k = 4]) (simp_all add: list_all_iff word_bytes_def)

lemma length_sha256_hex [simp]: "length (sha256_hex m) = 64"
  unfolding sha256_hex_def by (subst length_concat_const [where k = 2]) (simp_all add: list_all_iff byte_hex_def)

text \<open>The padded message is a whole number of blocks.\<close>

lemma sha_pad_blocks: "length (sha_pad m) mod 64 = 0"
proof -
  define q r where "q = length m div 64" and "r = length m mod 64"
  have r: "r < 64" and m: "length m = 64 * q + r" by (simp_all add: q_def r_def)
  have len: "length (sha_pad m) = 64 * q + (r + 9 + (119 - r) mod 64)"
    by (simp add: sha_pad_def m [symmetric] r_def [symmetric] be_bytes_def)
  show ?thesis
  proof (cases "r \<le> 55")
    case True
    then have "(119 - r) mod 64 = (55 - r + 64) mod 64" by (intro arg_cong2 [where f = "(mod)"]) simp_all
    also have "\<dots> = 55 - r" by (subst mod_add_self2) simp
    finally have "(119 - r) mod 64 = 55 - r" .
    with True len show ?thesis by simp
  next
    case False
    with r have "(119 - r) mod 64 = 119 - r" by simp
    with False r have "length (sha_pad m) = 64 * (q + 2)" using len by simp
    then show ?thesis by simp
  qed
qed

end
