(* ===== verification/M3_Pack.thy ===== *)
theory M3_Pack
  imports Py_Sha256
begin

text \<open>
  \<^verbatim>\<open>m3-pack.py\<close>: the check of a kernel image and a device tree and the 128-byte manifest the loader
  reads.  A path is read through a function from paths to contents, \<^verbatim>\<open>None\<close> where no file is.
\<close>

section \<open>Operations\<close>

definition MANIFEST_MAGIC :: int where "MANIFEST_MAGIC = 0x33584E4D"
definition MANIFEST_ABI :: int where "MANIFEST_ABI = 1"
definition MANIFEST_SIZE :: int where "MANIFEST_SIZE = 128"
definition MANIFEST_FLAG_DTB :: int where "MANIFEST_FLAG_DTB = 1"
definition KERNEL_LOAD_ADDRESS_M3 :: int where "KERNEL_LOAD_ADDRESS_M3 = 0x48400000"
definition COMMS_RESERVE_ADDRESS_M3 :: int where "COMMS_RESERVE_ADDRESS_M3 = 0x49F00000"
definition RISCV_IMAGE_MAGIC :: bytes where "RISCV_IMAGE_MAGIC = [0x52, 0x49, 0x53, 0x43, 0x56, 0, 0, 0]"
definition FDT_MAGIC :: bytes where "FDT_MAGIC = [0xd0, 0x0d, 0xfe, 0xed]"

type_synonym files = "string \<Rightarrow> bytes option"

definition read_bytes :: "files \<Rightarrow> string \<Rightarrow> bytes result" where
  "read_bytes fs path = (case fs path of None \<Rightarrow> Inl (FileNotFoundError path) | Some b \<Rightarrow> Inr b)"

definition py_hex :: "int \<Rightarrow> string" where
  "py_hex n = ''0x'' @ str_hex (nat n)"

definition image_guards :: "bytes \<Rightarrow> int \<Rightarrow> int \<Rightarrow> int \<Rightarrow> (bool \<times> string) list" where
  "image_guards img text_offset memory_size max_memory_end =
     [(take 8 (drop 48 img) \<noteq> RISCV_IMAGE_MAGIC, ''Linux Image has no RISC-V Image header magic''),
      (text_offset \<noteq> 0, ''NOMMU Image text offset must be zero, got '' @ py_hex text_offset),
      (memory_size < int (length img),
       ''Image memory span '' @ py_hex memory_size @ '' is smaller than file '' @ py_hex (int (length img))),
      (KERNEL_LOAD_ADDRESS_M3 + memory_size > max_memory_end,
       ''Image memory span ends at 0x'' @ str_hex8 (nat (KERNEL_LOAD_ADDRESS_M3 + memory_size)) @
       '', past the configured boundary 0x'' @ str_hex8 (nat max_memory_end))]"

definition read_image :: "files \<Rightarrow> string \<Rightarrow> int \<Rightarrow> (bytes \<times> int) result" where
  "read_image fs path max_memory_end = rbind (read_bytes fs path) (\<lambda>img.
     if length img < 64 then Inl (ValueError (''Linux Image is too short: '' @ str_nat (length img) @ '' bytes''))
     else rbind (unpack_from_le [8, 8] (drop 8 img)) (\<lambda>fields.
       let text_offset = fields ! 0; memory_size = fields ! 1 in
       rbind (raise_on ValueError (first_reject (image_guards img text_offset memory_size max_memory_end)))
         (\<lambda>_. Inr (img, memory_size))))"

definition read_dtb :: "files \<Rightarrow> string \<Rightarrow> bytes result" where
  "read_dtb fs path = rbind (read_bytes fs path) (\<lambda>dtb.
     if length dtb < 40 \<or> take 4 dtb \<noteq> FDT_MAGIC then Inl (ValueError ''input is not a flattened device tree'')
     else let declared_size = be_nat (take 4 (drop 4 dtb)) in
       if declared_size \<noteq> length dtb
       then Inl (ValueError (''DTB header size '' @ str_nat declared_size @ '' does not match file size '' @ str_nat (length dtb)))
       else Inr dtb)"

definition manifest_fields :: "bytes \<Rightarrow> int \<Rightarrow> bytes \<Rightarrow> int list" where
  "manifest_fields img memory_size dtb = [MANIFEST_MAGIC, MANIFEST_ABI, MANIFEST_SIZE, MANIFEST_FLAG_DTB,
     KERNEL_LOAD_ADDRESS_M3, int (length img), memory_size, int (length dtb)]"

definition make_manifest :: "bytes \<Rightarrow> int \<Rightarrow> bytes \<Rightarrow> bytes result" where
  "make_manifest img memory_size dtb =
     rbind (pack_le (replicate 8 4) (manifest_fields img memory_size dtb)) (\<lambda>pre.
     let payload = pre @ sha256 img @ sha256 dtb @ replicate (7 * 4) 0 in
     if int (length payload) \<noteq> MANIFEST_SIZE - 4
     then Inl (AssertionError (''manifest payload is '' @ str_nat (length payload) @ '' bytes''))
     else rbind (pack_le [4] [crc32 payload]) (\<lambda>crc. Inr (payload @ crc)))"

definition m3_main :: "files \<Rightarrow> string \<Rightarrow> string \<Rightarrow> string \<Rightarrow> int \<Rightarrow> (files \<times> string) result" where
  "m3_main fs image_path dtb_path output_path max_memory_end =
     rbind (read_image fs image_path max_memory_end) (\<lambda>(img, memory_size).
     rbind (read_dtb fs dtb_path) (\<lambda>dtb.
     rbind (make_manifest img memory_size dtb) (\<lambda>manifest.
     Inr (fs(output_path \<mapsto> manifest),
       ''M3 payload: load=0x'' @ str_hex8 (nat KERNEL_LOAD_ADDRESS_M3) @
       '' file='' @ str_nat (length img) @ '' memory='' @ str_int memory_size @
       '' dtb='' @ str_nat (length dtb) @ '' manifest='' @ output_path))))"

lemmas m3_consts = MANIFEST_MAGIC_def MANIFEST_ABI_def MANIFEST_SIZE_def MANIFEST_FLAG_DTB_def
  KERNEL_LOAD_ADDRESS_M3_def COMMS_RESERVE_ADDRESS_M3_def

section \<open>The manifest\<close>

definition manifest_payload :: "bytes \<Rightarrow> bytes \<Rightarrow> bytes \<Rightarrow> bytes" where
  "manifest_payload pre img dtb = pre @ sha256 img @ sha256 dtb @ replicate (7 * 4) 0"

lemma length_manifest_payload [simp]: "length (manifest_payload pre img dtb) = length pre + 92"
  by (simp add: manifest_payload_def)

lemma calcsize_prefix [simp]: "calcsize (replicate 8 4) = 32"
  by (simp add: calcsize_def sum_list_replicate)

lemma length_prefix: "pack_le (replicate 8 4) vs = Inr pre \<Longrightarrow> length pre = 32"
  unfolding pack_le_Inr_iff by (elim conjE) (simp only: calcsize_prefix)

lemma make_manifest_of_prefix:
  assumes "pack_le (replicate 8 4) (manifest_fields img n dtb) = Inr pre"
  shows "make_manifest img n dtb = rbind (pack_le [4] [crc32 (manifest_payload pre img dtb)])
     (\<lambda>crc. Inr (manifest_payload pre img dtb @ crc))"
  unfolding make_manifest_def assms rbind_simps Let_def manifest_payload_def [symmetric]
    length_manifest_payload length_prefix [OF assms] MANIFEST_SIZE_def by simp

text \<open>What a manifest is made of.\<close>

lemma make_manifest_parts:
  assumes "make_manifest img n dtb = Inr b"
  obtains pre crc where "pack_le (replicate 8 4) (manifest_fields img n dtb) = Inr pre"
    and "pack_le [4] [crc32 (manifest_payload pre img dtb)] = Inr crc" and "b = manifest_payload pre img dtb @ crc"
proof -
  from assms obtain pre where pre: "pack_le (replicate 8 4) (manifest_fields img n dtb) = Inr pre"
    unfolding make_manifest_def by (rule rbind_InrE)
  from assms [unfolded make_manifest_of_prefix [OF pre]] obtain crc
    where "pack_le [4] [crc32 (manifest_payload pre img dtb)] = Inr crc" "Inr (manifest_payload pre img dtb @ crc) = (Inr b :: bytes result)"
    by (rule rbind_InrE)
  with pre that show ?thesis by blast
qed

lemma replicate_8: "replicate 8 x = [x, x, x, x, x, x, x, x]"
  by (simp add: numeral_eq_Suc)

lemma manifest_fields_fit:
  "list_all2 fits (replicate 8 4) (manifest_fields img n dtb) \<longleftrightarrow>
     length img < 2 ^ 32 \<and> 0 \<le> n \<and> n < 2 ^ 32 \<and> length dtb < 2 ^ 32"
  unfolding manifest_fields_def m3_consts replicate_8 list.rel_inject by (auto simp: fits_def)

lemma make_manifest_total:
  assumes "length img < 2 ^ 32" and "0 \<le> n" and "n < 2 ^ 32" and "length dtb < 2 ^ 32"
  shows "\<exists>b. make_manifest img n dtb = Inr b"
proof -
  obtain pre where pre: "pack_le (replicate 8 4) (manifest_fields img n dtb) = Inr pre"
    using struct_le.enc_total manifest_fields_fit assms by blast
  have "list_all2 fits [4] [crc32 (manifest_payload pre img dtb)]" by simp
  from struct_le.enc_total [OF this] obtain crc
    where "pack_le [4] [crc32 (manifest_payload pre img dtb)] = Inr crc" by blast
  then show ?thesis unfolding make_manifest_of_prefix [OF pre] by (simp only: rbind_simps) blast
qed

lemma manifest_read_back:
  assumes "length img < 2 ^ 32" and "0 \<le> n" and "n < 2 ^ 32" and "length dtb < 2 ^ 32"
  shows "\<exists>b. make_manifest img n dtb = Inr b \<and> length b = 128 \<and>
     fields_le (replicate 8 4) b = manifest_fields img n dtb \<and>
     take 32 (drop 32 b) = sha256 img \<and> take 32 (drop 64 b) = sha256 dtb \<and>
     fields_le [4] (drop 124 b) = [crc32 (take 124 b)]"
proof -
  obtain b where b: "make_manifest img n dtb = Inr b" using make_manifest_total [OF assms] by blast
  then obtain pre crc where pre: "pack_le (replicate 8 4) (manifest_fields img n dtb) = Inr pre"
    and crc: "pack_le [4] [crc32 (manifest_payload pre img dtb)] = Inr crc"
    and parts: "b = manifest_payload pre img dtb @ crc" by (rule make_manifest_parts)
  have lens: "length pre = 32" "length crc = 4"
    using length_prefix [OF pre] crc [unfolded pack_le_Inr_iff] by (simp_all only: calcsize_simps)
  have f: "fields_le (replicate 8 4) pre = manifest_fields img n dtb" using pre unfolding pack_le_Inr_iff by blast
  have c: "fields_le [4] crc = [crc32 (manifest_payload pre img dtb)]" using crc unfolding pack_le_Inr_iff by blast
  have "fields_le (replicate 8 4) b = manifest_fields img n dtb"
    unfolding parts manifest_payload_def append_assoc f [symmetric]
    by (rule fields_le_append) (simp only: calcsize_prefix lens)
  moreover have "length b = 128" by (simp add: parts lens)
  moreover have "take 32 (drop 32 b) = sha256 img" "take 32 (drop 64 b) = sha256 dtb"
    by (simp_all add: parts manifest_payload_def lens)
  moreover have "take 124 b = manifest_payload pre img dtb" "drop 124 b = crc"
    by (simp_all add: parts lens)
  ultimately show ?thesis using b c by (intro exI [of _ b]) (simp only: simp_thms)
qed



section \<open>The inputs\<close>

lemma image_fields: "64 \<le> length img \<Longrightarrow>
  unpack_from_le [8, 8] (drop 8 img) = Inr [int (le_nat (take 8 (drop 8 img))), int (le_nat (take 8 (drop 16 img)))]"
  by (simp add: unpack_from_le_def)

lemma read_image_accepts:
  "read_image fs path limit = Inr (img, n) \<longleftrightarrow>
     fs path = Some img \<and> 64 \<le> length img \<and> take 8 (drop 48 img) = RISCV_IMAGE_MAGIC \<and>
     le_nat (take 8 (drop 8 img)) = 0 \<and> n = int (le_nat (take 8 (drop 16 img))) \<and>
     int (length img) \<le> n \<and> KERNEL_LOAD_ADDRESS_M3 + n \<le> limit"
proof (cases "fs path")
  case (Some b)
  show ?thesis
  proof (cases "64 \<le> length b")
    case True
    show ?thesis
      unfolding read_image_def read_bytes_def Some option.case rbind_simps image_fields [OF True] image_guards_def Let_def
      using True by (auto simp: rbind_eq_Inr_iff raise_on_def Some)
  next
    case False
    then show ?thesis by (auto simp: read_image_def read_bytes_def Some)
  qed
qed (simp add: read_image_def read_bytes_def)

text \<open>
  C38. The image check, exactly: an image is accepted with its memory span when the file exists,
  has the 64-byte header with the RISC-V magic and text offset zero, declares a span at least
  as long as the file, and the span loaded at the kernel address ends at or below the ceiling.
\<close>

theorem read_image_iff:
  "read_image fs path limit = Inr (img, n) \<longleftrightarrow>
     fs path = Some img \<and> 64 \<le> length img \<and> take 8 (drop 48 img) = RISCV_IMAGE_MAGIC \<and>
     le_nat (take 8 (drop 8 img)) = 0 \<and> n = int (le_nat (take 8 (drop 16 img))) \<and>
     int (length img) \<le> n \<and> KERNEL_LOAD_ADDRESS_M3 + n \<le> limit"
  by (rule read_image_accepts)

end
