(* ===== verification/M9_Main.thy ===== *)
theory M9_Main
  imports M9_Reconnect M3_Pack
begin

text \<open>
  The program of \<^verbatim>\<open>m9-hardware-test.py\<close>: the check that the kernel the target booted is the kernel
  in the artifact directory, and \<^verbatim>\<open>main\<close>, which resets the target, runs the checks every mode
  shares and then the mode asked for.
\<close>

section \<open>The payload that was booted\<close>

definition sha256_file :: "bytes \<Rightarrow> string" where
  "sha256_file content = sha256_hex content"

definition kernel_re :: regex where
  "kernel_re = Cats [Lit ''MICRONUX:M3:KERNEL '', Star (Cls (\<lambda>c. c \<noteq> newline)), Lit '' file='', Grp ''1'' (Plus digit),
     Lit '' memory='', Grp ''2'' (Plus digit), Lit '' sha256='', Grp ''3'' (lowerhex_run 64)]"

definition dtb_re :: regex where
  "dtb_re = Cats [Lit ''MICRONUX:M3:DTB '', Star (Cls (\<lambda>c. c \<noteq> newline)), Lit '' size='', Grp ''1'' (Plus digit),
     Lit '' sha256='', Grp ''2'' (lowerhex_run 64)]"

definition kernel_matches :: "string \<Rightarrow> (string \<times> string \<times> string) list" where
  "kernel_matches boot_log = map (\<lambda>gs. (snd (gs ! 0), snd (gs ! 1), snd (gs ! 2))) (groups_of kernel_re boot_log)"

definition dtb_matches :: "string \<Rightarrow> (string \<times> string) list" where
  "dtb_matches boot_log = map (\<lambda>gs. (snd (gs ! 0), snd (gs ! 1))) (groups_of dtb_re boot_log)"

definition metadata_fields :: "bytes \<Rightarrow> int list" where
  "metadata_fields metadata = map (\<lambda>offset. int (le_nat (take 4 (drop offset metadata)))) [0, 4, 8, 12, 16, 20, 24, 28]"

definition payload_guards ::
    "bytes \<Rightarrow> bytes \<Rightarrow> bytes \<Rightarrow> string \<times> string \<times> string \<Rightarrow> string \<times> string \<Rightarrow> (bool \<times> string) list" where
  "payload_guards img dtb metadata = (\<lambda>(kernel_file_size, kernel_memory_size, kernel_digest) (dtb_size, dtb_digest).
     let logged_file_size = int_str kernel_file_size; logged_memory_size = int_str kernel_memory_size;
         logged_dtb_size = int_str dtb_size; f = metadata_fields metadata in
     [(logged_file_size \<noteq> int (length img), ''kernel-size-mismatch''),
      (logged_memory_size < logged_file_size, ''kernel-memory-size-invalid''),
      (KERNEL_LOAD_ADDRESS_M9 + logged_memory_size > DISPLAY_POOL_ADDRESS, ''kernel-memory-overlaps-display-pool''),
      (logged_dtb_size \<noteq> int (length dtb), ''dtb-size-mismatch''),
      (length metadata \<noteq> 128, ''metadata-size-mismatch''),
      (f ! 0 \<noteq> 0x33584E4D \<or> f ! 1 \<noteq> 1 \<or> f ! 2 \<noteq> 128 \<or> f ! 3 \<noteq> 1 \<or> f ! 4 \<noteq> KERNEL_LOAD_ADDRESS_M9 \<or>
         f ! 5 \<noteq> logged_file_size \<or> f ! 6 \<noteq> logged_memory_size \<or> f ! 7 \<noteq> logged_dtb_size,
       ''metadata-payload-contract-mismatch''),
      (f ! 4 + f ! 6 > DISPLAY_POOL_ADDRESS, ''metadata-memory-overlaps-display-pool''),
      (kernel_digest \<noteq> sha256_file img, ''kernel-sha256-mismatch''),
      (dtb_digest \<noteq> sha256_file dtb, ''dtb-sha256-mismatch'')])"

definition verify_boot_payload :: "string \<Rightarrow> files \<Rightarrow> string option" where
  "verify_boot_payload boot_log artifact_dir =
     (case artifact_dir ''Image'' of None \<Rightarrow> Some ''artifact-missing-Image'' | Some img \<Rightarrow>
      (case artifact_dir ''esp32p4-micronux.dtb'' of None \<Rightarrow> Some ''artifact-missing-esp32p4-micronux.dtb'' | Some dtb \<Rightarrow>
      (case artifact_dir ''metadata.bin'' of None \<Rightarrow> Some ''artifact-missing-metadata.bin'' | Some metadata \<Rightarrow>
       let ks = kernel_matches boot_log; ds = dtb_matches boot_log in
       if length ks \<noteq> 1 then Some (''kernel-marker-count-'' @ str_nat (length ks))
       else if length ds \<noteq> 1 then Some (''dtb-marker-count-'' @ str_nat (length ds))
       else first_reject (payload_guards img dtb metadata (hd ks) (hd ds)))))"

section \<open>The program\<close>

datatype mode = Preflight | Touch | Soak | Stress | Disconnect | Snapshot

record args =
  port :: string
  artifact_dir :: files
  mode :: mode
  point_timeout_ms :: int
  soak_seconds :: int
  sample_seconds :: int
  disconnect_seconds :: int
  snapshot_seconds :: int
  stress_cycles :: int

definition arg_guards :: "args \<Rightarrow> (bool \<times> string) list" where
  "arg_guards a =
     [(point_timeout_ms a < 5000 \<or> point_timeout_ms a > 120000, ''--point-timeout-ms must be between 5000 and 120000''),
      (soak_seconds a < 60 \<or> soak_seconds a > 900, ''--soak-seconds must be between 60 and 900''),
      (sample_seconds a < 5 \<or> sample_seconds a > 60, ''--sample-seconds must be between 5 and 60''),
      (sample_seconds a > soak_seconds a, ''--sample-seconds cannot exceed --soak-seconds''),
      (disconnect_seconds a < 5 \<or> disconnect_seconds a > 900, ''--disconnect-seconds must be between 5 and 900''),
      (snapshot_seconds a < 1 \<or> snapshot_seconds a > 30, ''--snapshot-seconds must be between 1 and 30''),
      (stress_cycles a < 1 \<or> stress_cycles a > 10, ''--stress-cycles must be between 1 and 10'')]"

definition visual_notice :: "mode \<Rightarrow> string list" where
  "visual_notice m = (case m of
     Preflight \<Rightarrow> [''MICRONUX:M9:PREFLIGHT:VISUAL-REQUIRED expect=clean-loader-to-status-and-draw-to-status-transitions'']
   | Disconnect \<Rightarrow> [''MICRONUX:M9:USB-DISCONNECT:VISUAL-REQUIRED expect=clean-loader-to-status-then-status-remains-no-cyan'']
   | Stress \<Rightarrow> [''MICRONUX:M9.2:STRESS:VISUAL-REQUIRED expect=graphics-and-status-remain-complete-no-cyan-no-tearing'']
   | _ \<Rightarrow> [])"

definition digest_of :: "files \<Rightarrow> string \<Rightarrow> string result" where
  "digest_of fs name = rbind (read_bytes fs name) (\<lambda>content. Inr (sha256_file content))"

definition payload_message :: "files \<Rightarrow> string result" where
  "payload_message fs = rbind (digest_of fs ''Image'') (\<lambda>img. rbind (digest_of fs ''esp32p4-micronux.dtb'') (\<lambda>dtb.
     rbind (digest_of fs ''metadata.bin'') (\<lambda>metadata.
       Inr (''MICRONUX:M9.2:PAYLOAD state=verified image='' @ img @ '' dtb='' @ dtb @ '' metadata-host='' @ metadata))))"

definition run_mode :: "args \<Rightarrow> string \<Rightarrow> int io" where
  "run_mode a boot_log = (case mode a of
     Preflight \<Rightarrow> run_preflight boot_log
   | Touch \<Rightarrow> run_touch (point_timeout_ms a)
   | Disconnect \<Rightarrow> run_disconnect (disconnect_seconds a)
   | Stress \<Rightarrow> run_stress (stress_cycles a)
   | _ \<Rightarrow> run_soak (soak_seconds a) (sample_seconds a))"

definition run_booted :: "args \<Rightarrow> int io" where
  "run_booted a = io_bind (wait_for_shell 120) (\<lambda>boot_log.
     conclude (problem_at ''boot-payload'' (verify_boot_payload boot_log (artifact_dir a)))
    (io_bind (io_result (payload_message (artifact_dir a))) (\<lambda>message. io_then (py_print message)
    (conclude (problem_at ''boot-markers'' (boot_contract_problem boot_log))
    (io_bind verify_runtime_identity (\<lambda>identity_problem.
     conclude (problem_at ''runtime-identity'' identity_problem)
    (io_bind wait_for_touch_terminal (\<lambda>touch_problem.
     conclude (problem_at ''touch-terminal'' touch_problem) (run_mode a boot_log)))))))))"

fun is_gate_error :: "py_error \<Rightarrow> bool" where
  "is_gate_error (SerialException m) = True"
| "is_gate_error (CalledProcessError m) = True"
| "is_gate_error (RuntimeError m) = True"
| "is_gate_error (TimeoutError m) = True"
| "is_gate_error _ = False"

definition guarded :: "int io \<Rightarrow> int io" where
  "guarded m = io_catch m is_gate_error (\<lambda>e. fail ''serial'' (dashed (error_message e)))"

text \<open>
  The \<^verbatim>\<open>try\<close> of \<^verbatim>\<open>main\<close>: what runs before the device is assigned, and what runs after, when \<^verbatim>\<open>finally\<close>
  closes it.
\<close>

definition session :: "unit io \<Rightarrow> int io \<Rightarrow> int io" where
  "session opening body w = (case opening w of
     (Done _, w') \<Rightarrow> io_finally (guarded body) close_serial_quietly w'
   | (Raise e, w') \<Rightarrow> guarded (io_raise e) w'
   | (Blocked, w') \<Rightarrow> (Blocked, w'))"

definition main :: "string \<Rightarrow> string \<Rightarrow> args \<Rightarrow> int io" where
  "main executable usb_reset_arm a = (case first_reject (arg_guards a) of
     Some message \<Rightarrow> io_raise (SystemExit message)
   | None \<Rightarrow>
     if mode a = Snapshot then session (open_serial 30 False) (run_snapshot (snapshot_seconds a))
     else session
       (io_then (print_all (visual_notice (mode a)))
         (io_then (rom_reset executable usb_reset_arm (port a)) (open_serial 30 True)))
       (run_booted a))"

section \<open>The payload check\<close>

lemma metadata_fields_le: "metadata_fields md = fields_le (replicate 8 4) md"
  unfolding metadata_fields_def replicate_8 by (simp add: add.commute)

lemma manifest_fields_nth:
  assumes "length f = 8"
  shows "f ! 0 = 0x33584E4D \<and> f ! 1 = 1 \<and> f ! 2 = 128 \<and> f ! 3 = 1 \<and> f ! 4 = KERNEL_LOAD_ADDRESS_M9 \<and>
     f ! 5 = int (length img) \<and> f ! 6 = n \<and> f ! 7 = int (length dtb) \<longleftrightarrow> f = manifest_fields img n dtb"
proof -
  have "f = map ((!) f) [0, 1, 2, 3, 4, 5, 6, 7]"
    using assms by (intro nth_equalityI) (auto simp: nth_Cons numeral_eq_Suc less_Suc_eq split: nat.splits)
  then have "f = manifest_fields img n dtb \<longleftrightarrow> map ((!) f) [0, 1, 2, 3, 4, 5, 6, 7] = manifest_fields img n dtb" by metis
  then show ?thesis unfolding manifest_fields_def m3_consts KERNEL_LOAD_ADDRESS_M9_def list.map list.inject by blast
qed


definition payload_spec :: "string \<Rightarrow> bytes \<Rightarrow> bytes \<Rightarrow> int \<Rightarrow> bool" where
  "payload_spec boot_log img dtb n \<longleftrightarrow>
     (\<exists>a b c. kernel_matches boot_log = [(a, b, sha256_hex img)] \<and> dtb_matches boot_log = [(c, sha256_hex dtb)] \<and>
        int_str a = int (length img) \<and> int_str b = n \<and> int_str c = int (length dtb))"

lemma payload_guards_pass:
  "first_reject (payload_guards img dtb md (a, b, k) (c, d)) = None \<longleftrightarrow>
     int_str a = int (length img) \<and> int_str c = int (length dtb) \<and> k = sha256_hex img \<and> d = sha256_hex dtb \<and>
     length md = 128 \<and> metadata_fields md = manifest_fields img (int_str b) dtb \<and>
     int (length img) \<le> int_str b \<and> KERNEL_LOAD_ADDRESS_M9 + int_str b \<le> DISPLAY_POOL_ADDRESS"
proof -
  have len: "length (metadata_fields md) = 8" by (simp add: metadata_fields_def)
  show ?thesis
    unfolding payload_guards_def Let_def prod.case first_reject_None_simps sha256_file_def
      manifest_fields_nth [OF len, symmetric]
    by (auto simp: not_less)
qed

lemma verify_boot_payload_None:
  "verify_boot_payload boot_log fs = None \<longleftrightarrow>
     (\<exists>img dtb md n. fs ''Image'' = Some img \<and> fs ''esp32p4-micronux.dtb'' = Some dtb \<and> fs ''metadata.bin'' = Some md \<and>
        payload_spec boot_log img dtb n \<and> length md = 128 \<and> fields_le (replicate 8 4) md = manifest_fields img n dtb \<and>
        int (length img) \<le> n \<and> KERNEL_LOAD_ADDRESS_M9 + n \<le> DISPLAY_POOL_ADDRESS)"
proof -
  have inner: "(if length ks \<noteq> 1 then Some x else if length ds \<noteq> 1 then Some y
      else first_reject (payload_guards img dtb md (hd ks) (hd ds))) = None \<longleftrightarrow>
     (\<exists>a b k c d. ks = [(a, b, k)] \<and> ds = [(c, d)] \<and> first_reject (payload_guards img dtb md (a, b, k) (c, d)) = None)"
    for ks ds img dtb md and x y :: string
    by (cases ks; cases ds) auto
  show ?thesis
  proof (cases "fs ''Image'' = None \<or> fs ''esp32p4-micronux.dtb'' = None \<or> fs ''metadata.bin'' = None")
    case True
    then show ?thesis by (auto simp: verify_boot_payload_def split: option.splits)
  next
    case False
    then obtain img dtb md where at: "fs ''Image'' = Some img" "fs ''esp32p4-micronux.dtb'' = Some dtb"
      "fs ''metadata.bin'' = Some md" by auto
    show ?thesis
      unfolding verify_boot_payload_def Let_def at option.case inner payload_guards_pass payload_spec_def
        metadata_fields_le [symmetric] option.inject by blast
  qed
qed

text \<open>
  C12. The payload check, exactly: the target booted the packed kernel when the three artifacts
  exist, the boot log has one kernel line and one device tree line, both naming the size and
  the SHA-256 digest of the artifact, the metadata is a 128-byte manifest of these sizes, and
  the kernel's memory is at least its file and ends below the display pool.
\<close>

theorem boot_payload_iff:
  "verify_boot_payload boot_log fs = None \<longleftrightarrow>
     (\<exists>img dtb md n. fs ''Image'' = Some img \<and> fs ''esp32p4-micronux.dtb'' = Some dtb \<and> fs ''metadata.bin'' = Some md \<and>
        payload_spec boot_log img dtb n \<and> length md = 128 \<and> fields_le (replicate 8 4) md = manifest_fields img n dtb \<and>
        int (length img) \<le> n \<and> KERNEL_LOAD_ADDRESS_M9 + n \<le> DISPLAY_POOL_ADDRESS)"
  by (rule verify_boot_payload_None)


lemma m3_main_Inr:
  "m3_main fs ip dp op limit = Inr (fs', line) \<Longrightarrow>
     \<exists>img n dtb md. read_image fs ip limit = Inr (img, n) \<and> fs dp = Some dtb \<and> make_manifest img n dtb = Inr md \<and>
       fs' = fs(op \<mapsto> md)"
  unfolding m3_main_def rbind_eq_Inr_iff
  by (auto simp: rbind_eq_Inr_iff read_dtb_def read_bytes_def Let_def split: option.splits if_splits)

lemma make_manifest_fields:
  assumes "make_manifest img n dtb = Inr md"
  shows "length md = 128 \<and> fields_le (replicate 8 4) md = manifest_fields img n dtb"
proof -
  obtain pre where "pack_le (replicate 8 4) (manifest_fields img n dtb) = Inr pre"
    using assms by (rule make_manifest_parts)
  then have "list_all2 fits (replicate 8 4) (manifest_fields img n dtb)" unfolding pack_le_Inr_iff by blast
  with manifest_fields_fit have "length img < 2 ^ 32" "0 \<le> n" "n < 2 ^ 32" "length dtb < 2 ^ 32" by blast+
  from manifest_read_back [OF this] assms show ?thesis by auto
qed

text \<open>
  C3. The packer and the hardware test agree: when \<^verbatim>\<open>m3-pack.py\<close> has packed an image and a device
  tree below the display pool, as the build does, the payload check asks nothing further of
  the artifacts: it succeeds exactly when the boot log names the packed sizes and digests.
\<close>

theorem packed_payload_verified:
  "case m3_main fs ''Image'' ''esp32p4-micronux.dtb'' ''metadata.bin'' DISPLAY_POOL_ADDRESS of
     Inl e \<Rightarrow> True
   | Inr (fs', line) \<Rightarrow> verify_boot_payload boot_log fs' = None \<longleftrightarrow>
       (\<exists>img n dtb. read_image fs ''Image'' DISPLAY_POOL_ADDRESS = Inr (img, n) \<and>
          fs ''esp32p4-micronux.dtb'' = Some dtb \<and> payload_spec boot_log img dtb n)"
proof (cases "m3_main fs ''Image'' ''esp32p4-micronux.dtb'' ''metadata.bin'' DISPLAY_POOL_ADDRESS")
  case (Inr r)
  obtain fs' line where r: "r = (fs', line)" by (cases r)
  from m3_main_Inr [OF Inr [unfolded r]] obtain img n dtb md
    where img: "read_image fs ''Image'' DISPLAY_POOL_ADDRESS = Inr (img, n)"
      and dtb: "fs ''esp32p4-micronux.dtb'' = Some dtb" and md: "make_manifest img n dtb = Inr md"
      and fs': "fs' = fs(''metadata.bin'' \<mapsto> md)" by blast
  note facts = img [unfolded read_image_accepts]
  have same: "manifest_fields img n dtb = manifest_fields img n' dtb \<longleftrightarrow> n' = n" for n'
    by (auto simp: manifest_fields_def)
  have fs'_at: "fs' ''Image'' = Some img" "fs' ''esp32p4-micronux.dtb'' = Some dtb" "fs' ''metadata.bin'' = Some md"
    using facts dtb by (simp_all add: fs')
  have "verify_boot_payload boot_log fs' = None \<longleftrightarrow> payload_spec boot_log img dtb n"
    unfolding verify_boot_payload_None fs'_at option.inject
    using make_manifest_fields [OF md] facts same
    by (auto simp: KERNEL_LOAD_ADDRESS_M3_def KERNEL_LOAD_ADDRESS_M9_def)
  then show ?thesis using img dtb by (simp add: Inr r)
qed simp

end
