(* ===== verification/M9_Safety.thy ===== *)
theory M9_Safety
  imports M9_Main
begin

text \<open>
  The program of \<^verbatim>\<open>m9-hardware-test.py\<close> as a whole: no index, lookup, division or formatting
  error of its own can end it, and its exit status and last line tell the same.
\<close>


section \<open>Errors that cannot happen\<close>

fun internal_error :: "py_error \<Rightarrow> bool" where
  "internal_error IndexError = True"
| "internal_error TypeError = True"
| "internal_error KeyError = True"
| "internal_error AttributeError = True"
| "internal_error StructError = True"
| "internal_error StopIteration = True"
| "internal_error ZeroDivisionError = True"
| "internal_error _ = False"

definition answers_ok :: "'a result list \<Rightarrow> bool" where
  "answers_ok rs = list_all (\<lambda>r. case r of Inl e \<Rightarrow> \<not> internal_error e | Inr _ \<Rightarrow> True) rs"

definition world_ok :: "world \<Rightarrow> bool" where
  "world_ok w \<longleftrightarrow> answers_ok (w_reads w) \<and> answers_ok (w_writes w) \<and> answers_ok (w_opens w) \<and>
     answers_ok (w_controls w) \<and> answers_ok (w_processes w)"

definition safe :: "'a io \<Rightarrow> bool" where
  "safe m \<longleftrightarrow> (\<forall>w. world_ok w \<longrightarrow> world_ok (snd (m w)) \<and> (\<forall>e. fst (m w) = Raise e \<longrightarrow> \<not> internal_error e))"

named_theorems safe_intros \<open>procedures without internal errors\<close>

lemma safe_return [safe_intros]: "safe (io_return x)"
  by (simp add: safe_def io_return_def)

lemma safe_raise [safe_intros]: "\<not> internal_error e \<Longrightarrow> safe (io_raise e)"
  by (simp add: safe_def io_raise_def)

lemma safe_bind [safe_intros]:
  assumes "safe m" and "\<And>x. safe (f x)"
  shows "safe (io_bind m f)"
  unfolding safe_def
proof (intro allI impI)
  fix w assume "world_ok w"
  with assms(1) have m: "world_ok (snd (m w))" "\<And>e. fst (m w) = Raise e \<Longrightarrow> \<not> internal_error e"
    unfolding safe_def by blast+
  show "world_ok (snd (io_bind m f w)) \<and> (\<forall>e. fst (io_bind m f w) = Raise e \<longrightarrow> \<not> internal_error e)"
  proof (cases "m w")
    case (Pair r w')
    with m assms(2) show ?thesis by (cases r) (auto simp: io_bind_def safe_def)
  qed
qed

lemma safe_then [safe_intros]: "safe m \<Longrightarrow> safe k \<Longrightarrow> safe (io_then m k)"
  unfolding io_then_def by (rule safe_bind)

lemma safe_catch [safe_intros]:
  assumes "safe m" and "\<And>e. \<not> internal_error e \<Longrightarrow> safe (h e)"
  shows "safe (io_catch m c h)"
  unfolding safe_def
proof (intro allI impI)
  fix w assume "world_ok w"
  with assms(1) have m: "world_ok (snd (m w))" "\<And>e. fst (m w) = Raise e \<Longrightarrow> \<not> internal_error e"
    unfolding safe_def by blast+
  show "world_ok (snd (io_catch m c h w)) \<and> (\<forall>e. fst (io_catch m c h w) = Raise e \<longrightarrow> \<not> internal_error e)"
  proof (cases "m w")
    case (Pair r w')
    with m assms(2) show ?thesis by (cases r) (auto simp: io_catch_def safe_def)
  qed
qed

lemma safe_if [safe_intros]: "(b \<Longrightarrow> safe m) \<Longrightarrow> (\<not> b \<Longrightarrow> safe k) \<Longrightarrow> safe (if b then m else k)"
  by simp

lemma safe_sum [safe_intros]: "(\<And>a. safe (f a)) \<Longrightarrow> (\<And>b. safe (g b)) \<Longrightarrow> safe (case x of Inl a \<Rightarrow> f a | Inr b \<Rightarrow> g b)"
  by (cases x) simp_all

lemma safe_option [safe_intros]: "safe f \<Longrightarrow> (\<And>b. safe (g b)) \<Longrightarrow> safe (case x of None \<Rightarrow> f | Some b \<Rightarrow> g b)"
  by (cases x) simp_all

lemma safe_prod [safe_intros]: "(\<And>a b. safe (f a b)) \<Longrightarrow> safe (case x of (a, b) \<Rightarrow> f a b)"
  by (cases x) simp

lemma safe_rounds: "(\<And>s. safe (body s)) \<Longrightarrow> safe (io_rounds n body s)"
proof (induction n arbitrary: s)
  case 0
  show ?case by (simp add: safe_def)
next
  case (Suc n)
  then show ?case by (auto intro!: safe_intros)
qed

lemma safe_loop [safe_intros]: "(\<And>s. safe (body s)) \<Longrightarrow> safe (io_loop body s)"
  using safe_rounds [of body] unfolding safe_def io_loop_def by blast

lemma safe_primitives [safe_intros]:
  "safe monotonic" "safe monotonic_ns" "safe dev_read" "safe (dev_write s)" "safe dev_open" "safe dev_control"
  "safe (run_process as chk)" "safe (py_print s)"
  by (auto simp: safe_def world_ok_def answers_ok_def monotonic_def monotonic_ns_def dev_read_def dev_write_def
    dev_open_def dev_control_def run_process_def py_print_def io_result_def io_raise_def io_return_def rbind_def
    split: list.splits sum.splits if_splits)

lemma safe_poll [safe_intros]:
  assumes "\<And>t e. judge t = Some (Inl e) \<Longrightarrow> \<not> internal_error e"
  shows "safe (poll deadline judge s)"
proof -
  have "safe (case judge t of None \<Rightarrow> io_return (Inl t) | Some (Inl e) \<Rightarrow> io_raise e | Some (Inr x) \<Rightarrow> io_return (Inr (Inr x)))" for t
    using assms [of t] by (auto intro!: safe_intros split: option.split sum.split)
  note judged = this
  show ?thesis unfolding poll_def poll_body_def
    by (rule safe_loop, rule safe_bind, rule safe_primitives, rule safe_if, rule safe_bind, rule safe_primitives,
      rule safe_if, rule safe_return, rule safe_then, rule safe_primitives, rule judged, rule safe_return)
qed

lemma judges_ok:
  "failure_judge p t = Some (Inl e) \<Longrightarrow> \<not> internal_error e"
  "shell_judge t = Some (Inl e) \<Longrightarrow> \<not> internal_error e"
  "prompt_judge t = Some (Inl e) \<Longrightarrow> \<not> internal_error e"
  "command_judge token label t = Some (Inl e) \<Longrightarrow> \<not> internal_error e"
  by (auto simp: failure_judge_def shell_judge_def prompt_judge_def command_judge_def split: option.splits if_splits)

lemma safe_fail [safe_intros]: "safe (fail stage detail)"
  unfolding fail_def by (intro safe_intros)

lemma safe_port [safe_intros]:
  "safe (rom_reset x y z)" "safe (open_serial t c)" "safe close_serial_quietly"
  unfolding rom_reset_def open_serial_def close_serial_quietly_def quietly_def open_body_def
  by (intro safe_intros; simp)+


lemma safe_waits [safe_intros]:
  "safe (wait_for_shell t)" "safe (capture_passive_output t)" "safe (run_command c l t)"
  unfolding wait_for_shell_def capture_passive_output_def run_command_def await_end_def Let_def
  by (intro safe_intros; (erule judges_ok)?; simp)+

lemma safe_recovery [safe_intros]:
  "safe (reopen_reconnect_serial t)" "safe (recover_reconnect_prompt t)"
  unfolding reopen_reconnect_serial_def recover_reconnect_prompt_def recovery_body_def recovery_attempt_def
    timed_capture_def Let_def
  by (intro safe_intros; simp)+

lemma safe_probes [safe_intros]: "safe verify_runtime_identity" "safe wait_for_touch_terminal"
  unfolding verify_runtime_identity_def wait_for_touch_terminal_def by (intro safe_intros; simp)+

section \<open>Verdicts are total\<close>

definition total :: "check \<Rightarrow> bool" where
  "total c \<longleftrightarrow> (\<exists>p. c = Inr p)"

lemma total_checks [simp]:
  "total (bad_when b s d)" "total (problem_at s p)" "total (rc_check s r)" "total (classified_when b ph s d)" "total (reboot_when b)"
  by (simp_all add: total_def bad_when_def problem_at_def rc_check_def classified_when_def reboot_when_def)

lemma total_hashes [simp]: "phases \<noteq> [] \<Longrightarrow> total (result_at s (framebuffer_hash_problem out phases))"
  using framebuffer_hash_results [of out phases]
  by (cases "framebuffer_hash_problem out phases") (auto simp: total_def result_at_def problem_at_def)

lemma total_markers [simp]: "list_all total (marker_checks s ms out)"
  by (simp add: marker_checks_def list_all_iff)

lemma total_first [simp]: "list_all total cs \<Longrightarrow> total (first_problem cs)"
  by (induction cs) (auto simp: total_def split: option.splits)

lemma total_if [simp]: "total c \<Longrightarrow> total d \<Longrightarrow> total (if b then c else d)"
  by simp

lemma total_verdicts [simp]:
  "total (check_verdict r)" "total (sysfs_verdict r)" "total (vpg_verdict r)" "total (presentation_verdict r)"
  "total (signal_verdict r)" "total (touch_verdict r)" "total (stress_verdict n r)" "total (policy_verdict r)"
  "total (before_verdict r)" "total (arm_verdict n r)" "total (snapshot_verdict r)"
  unfolding check_verdict_def sysfs_verdict_def vpg_verdict_def presentation_verdict_def signal_verdict_def
    touch_verdict_def stress_verdict_def memory_problem_def policy_verdict_def before_verdict_def arm_verdict_def
    snapshot_verdict_def Let_def
  by (rule total_first total_checks
    | simp only: list_all_append list.pred_inject simp_thms total_checks total_markers append.simps
    | rule total_hashes list.distinct conjI TrueI total_if)+

lemma total_soak [simp]: "0 < n \<Longrightarrow> total (soak_verdict n r)"
  unfolding soak_verdict_def Let_def by (rule total_first) simp

lemma framebuffer_total: "phases \<noteq> [] \<Longrightarrow> \<exists>p. framebuffer_hash_problem out phases = Inr p"
  using framebuffer_hash_results [of out phases] by (cases "framebuffer_hash_problem out phases") auto

lemma total_rbind:
  assumes "phases \<noteq> []" and "\<And>p. total (f p)"
  shows "total (rbind (framebuffer_hash_problem out phases) f)"
proof -
  obtain p where "framebuffer_hash_problem out phases = Inr p" using framebuffer_total [OF assms(1)] by blast
  then show ?thesis by (simp only: rbind_simps assms(2))
qed

lemma total_evidence [simp]: "total (boundary_check a b)" "total (after_check a b c d e)"
  unfolding boundary_check_def after_check_def Let_def
  by (rule total_rbind, rule list.distinct, rule total_checks)+

lemma total_reconnect [simp]: "total (reconnect_verdict l a b c d e)"
  unfolding reconnect_verdict_def Let_def by (rule total_first) simp

lemma first_problem_None: "first_problem cs = Inr None \<longleftrightarrow> list_all (\<lambda>c. c = Inr None) cs"
  by (induction cs) (auto split: sum.splits option.splits)

lemma safe_print_all [safe_intros]: "safe (print_all ls)"
  by (induction ls) (auto intro: safe_intros)

lemma safe_pass [safe_intros]: "safe (pass l)"
  unfolding pass_def by (intro safe_intros)

lemma safe_conclude [safe_intros]: "total c \<Longrightarrow> (c = Inr None \<Longrightarrow> safe k) \<Longrightarrow> safe (conclude c k)"
proof -
  assume t: "total c" and k: "c = Inr None \<Longrightarrow> safe k"
  from t obtain p where p: "c = Inr p" unfolding total_def by blast
  show ?thesis
  proof (cases p)
    case None
    then show ?thesis using k by (simp add: p conclude_def)
  next
    case (Some q)
    obtain ls stage detail where q: "q = (ls, stage, detail)" by (cases q)
    have "conclude c k = io_then (print_all ls) (fail stage detail)" by (simp add: conclude_def p Some q)
    then show ?thesis by (simp only: safe_then safe_print_all safe_fail)
  qed
qed

lemma safe_step [safe_intros]:
  "(\<And>r. total (v r)) \<Longrightarrow> (\<And>r. v r = Inr None \<Longrightarrow> safe (k r)) \<Longrightarrow> safe (judged_step c l t v k)"
  unfolding judged_step_def by (intro safe_intros)

section \<open>The modes\<close>

lemma phase_ends_ok:
  assumes "diagnostics_phase_problem out phases = None" and "phases \<noteq> []"
  shows "\<exists>p. phase_ends out = Inr p"
proof -
  from assms(1) [unfolded diagnostics_phase_None] obtain ss
    where g: "diagnostics_phase_groups out = zip phases (map (\<lambda>s. [s]) ss)" "length ss = length phases" by blast
  have "diagnostics_phase_groups out \<noteq> []" using g assms(2) by (cases phases; cases ss) auto
  moreover have "\<not> list_ex (\<lambda>g. snd g = []) (diagnostics_phase_groups out)"
    unfolding g(1) list_ex_iff by (auto simp: set_zip)
  ultimately show ?thesis by (simp add: phase_ends_def Let_def)
qed

lemma rate_of_pass: "fst (disconnect_progress_rate a p b q) = None \<Longrightarrow> \<exists>hz. snd (disconnect_progress_rate a p b q) = Some hz"
  by (auto simp: disconnect_progress_rate_def Let_def split: if_splits)

lemma safe_result [safe_intros]: "safe (io_result (Inr x))"
  by (simp add: io_result_def safe_return)

lemma pass_None [simp]:
  "bad_when b s d = Inr None \<longleftrightarrow> \<not> b" "problem_at s p = Inr None \<longleftrightarrow> p = None"
  "classified_when b ph s d = Inr None \<longleftrightarrow> \<not> b"
  by (simp_all add: bad_when_def problem_at_def classified_when_def)

lemma result_at_None [simp]: "result_at s r = Inr None \<longleftrightarrow> r = Inr None"
  by (cases r) (simp_all add: result_at_def)

lemma snapshot_verdict_pass:
  "snapshot_verdict r = Inr None \<Longrightarrow> diagnostics_phase_problem (cmd_output r)
     [''SNAPSHOT-A-PREHASH'', ''SNAPSHOT-A-POSTHASH'', ''SNAPSHOT-B-PREHASH'', ''SNAPSHOT-B-POSTHASH''] = None"
  unfolding snapshot_verdict_def Let_def first_problem_None list.pred_inject by (elim conjE) (simp only: pass_None)

lemma boundary_pass:
  assumes "boundary_check before boundary = Inr None"
  shows "fst (disconnect_progress_rate before ''BEFORE-POSTHASH'' boundary ''BOUNDARY-PREHASH'') = None"
  using assms unfolding boundary_check_def Let_def rbind_eq_Inr_iff pass_None by auto

lemma after_pass:
  assumes "after_check before boundary after_state after_scanout evidence = Inr None"
  shows "fst (disconnect_progress_rate boundary ''BOUNDARY-POSTHASH'' after_state ''AFTER-PREHASH'') = None \<and>
    diagnostics_phase_problem (full_health_output before boundary after_state after_scanout)
      (boundary_phases @ [''AFTER-PREHASH'', ''AFTER-POSTHASH'']) = None"
  using assms unfolding after_check_def Let_def rbind_eq_Inr_iff pass_None by auto

lemma reconnect_verdict_pass:
  assumes "reconnect_verdict l before boundary after_id after_state after_scanout = Inr None"
  shows "boundary_check (cmd_output before) (cmd_output boundary) = Inr None \<and>
    after_check (cmd_output before) (cmd_output boundary) (cmd_output after_state) (cmd_output after_scanout)
      (l @ cmd_output after_id @ cmd_output after_state @ cmd_output after_scanout) = Inr None"
  using assms unfolding reconnect_verdict_def Let_def first_problem_None list.pred_inject by blast

lemma safe_reconnect_report:
  assumes "reconnect_verdict l before boundary after_id after_state after_scanout = Inr None"
  shows "safe (reconnect_report n before boundary after_state after_scanout)"
proof -
  from reconnect_verdict_pass [OF assms] have b: "boundary_check (cmd_output before) (cmd_output boundary) = Inr None"
    and a: "after_check (cmd_output before) (cmd_output boundary) (cmd_output after_state) (cmd_output after_scanout)
      (l @ cmd_output after_id @ cmd_output after_state @ cmd_output after_scanout) = Inr None" by blast+
  from rate_of_pass [OF boundary_pass [OF b]] rate_of_pass [OF conjunct1 [OF after_pass [OF a]]]
  obtain hz hz' where hz: "snd (disconnect_progress_rate (cmd_output before) ''BEFORE-POSTHASH'' (cmd_output boundary) ''BOUNDARY-PREHASH'') = Some hz"
    "snd (disconnect_progress_rate (cmd_output boundary) ''BOUNDARY-POSTHASH'' (cmd_output after_state) ''AFTER-PREHASH'') = Some hz'" by blast
  from phase_ends_ok [OF conjunct2 [OF after_pass [OF a]]] obtain p
    where p: "phase_ends (full_health_output (cmd_output before) (cmd_output boundary) (cmd_output after_state) (cmd_output after_scanout)) = Inr p"
    by auto
  show ?thesis unfolding reconnect_report_def p hz prod.case option.case by (intro safe_intros)
qed

lemma safe_reconnect [safe_intros]: "safe (reconnect n)"
  unfolding reconnect_def passive_body_def by (intro safe_intros)

lemma safe_modes [safe_intros]:
  "safe (run_preflight l)" "safe (run_touch n)" "safe (run_stress c)"
  unfolding run_preflight_def run_touch_def run_stress_def Let_def
  by (intro safe_intros total_verdicts total_checks)+

lemma safe_soak:
  assumes "0 < sample" and "0 \<le> secs"
  shows "safe (run_soak secs sample)"
proof -
  have "0 < soak_sample_count secs sample" using assms by (simp add: soak_sample_count_def pos_imp_zdiv_nonneg_iff)
  with assms show ?thesis unfolding run_soak_def Let_def by (intro safe_intros total_soak) simp_all
qed

lemma safe_disconnect [safe_intros]: "safe (run_disconnect n)"
  unfolding run_disconnect_def
  by (intro safe_intros total_verdicts total_checks total_reconnect) (erule safe_reconnect_report)

lemma safe_snapshot [safe_intros]: "safe (run_snapshot n)"
proof -
  have "safe (snapshot_report r)" if v: "snapshot_verdict r = Inr None" for r
  proof -
    from phase_ends_ok [OF snapshot_verdict_pass [OF v]] obtain p where "phase_ends (cmd_output r) = Inr p" by blast
    then show ?thesis by (simp only: snapshot_report_def) (intro safe_intros)
  qed
  then show ?thesis unfolding run_snapshot_def take_snapshot_def
    by (intro safe_intros total_verdicts total_checks) simp_all
qed

section \<open>The program\<close>

lemma payload_message_ok:
  assumes "verify_boot_payload l fs = None"
  shows "\<exists>m. payload_message fs = Inr m"
  using assms unfolding verify_boot_payload_None by (auto simp: payload_message_def digest_of_def read_bytes_def)

lemma safe_booted:
  assumes "first_reject (arg_guards a) = None"
  shows "safe (run_booted a)"
proof -
  have soak: "safe (run_soak (soak_seconds a) (sample_seconds a))"
    using assms unfolding arg_guards_def first_reject_None_simps by (intro safe_soak) linarith+
  have mode: "safe (run_mode a l)" for l
    unfolding run_mode_def by (cases "mode a") (auto intro: safe_intros soak)
  have message: "safe (io_result (payload_message (artifact_dir a)))" if "verify_boot_payload l (artifact_dir a) = None" for l
    using payload_message_ok [OF that] by (auto intro: safe_intros)
  show ?thesis unfolding run_booted_def
    by (rule safe_bind, rule safe_waits, rule safe_conclude, rule total_checks, rule safe_bind)
      (simp only: pass_None, erule message, intro safe_intros total_checks mode)
qed

lemma safe_finally: "safe m \<Longrightarrow> safe h \<Longrightarrow> safe (io_finally m h)"
  unfolding safe_def io_finally_def
  by (auto split: prod.splits outcome.splits)

lemma safe_session:
  assumes "safe opening" and "safe body"
  shows "safe (session opening body)"
proof -
  have body: "safe (io_finally (guarded body) close_serial_quietly)"
    unfolding guarded_def using assms(2) by (intro safe_finally safe_intros)
  have failed: "safe (guarded (io_raise e))" if "\<not> internal_error e" for e
    unfolding guarded_def using that by (intro safe_intros)
  show ?thesis unfolding safe_def
  proof (intro allI impI)
    fix w assume "world_ok w"
    with assms(1) have o: "world_ok (snd (opening w))" "\<And>e. fst (opening w) = Raise e \<Longrightarrow> \<not> internal_error e"
      unfolding safe_def by blast+
    show "world_ok (snd (session opening body w)) \<and> (\<forall>e. fst (session opening body w) = Raise e \<longrightarrow> \<not> internal_error e)"
    proof (cases "opening w")
      case (Pair r w')
      show ?thesis
      proof (cases r)
        case (Done u)
        with Pair have "session opening body w = io_finally (guarded body) close_serial_quietly w'" by (simp add: session_def)
        with body o(1) Pair show ?thesis unfolding safe_def by simp
      next
        case (Raise e)
        with Pair have "session opening body w = guarded (io_raise e) w'" by (simp add: session_def)
        with failed [of e] o Pair Raise show ?thesis unfolding safe_def by simp
      next
        case Blocked
        with o(1) Pair show ?thesis by (simp add: session_def)
      qed
    qed
  qed
qed

lemma safe_main: "safe (main executable usb_reset_arm a)"
proof (cases "first_reject (arg_guards a)")
  case None
  then show ?thesis unfolding main_def option.case
    by (simp only: option.case) (intro safe_if safe_session safe_intros safe_booted)
next
  case (Some m)
  then show ?thesis by (simp add: main_def safe_raise)
qed



section \<open>Exit status and last line\<close>

definition fail_head :: string where
  "fail_head = ''MICRONUX:M9:HARDWARE-TEST:FAIL stage=''"

fun pass_head :: "mode \<Rightarrow> string" where
  "pass_head Preflight = ''MICRONUX:M9:PREFLIGHT:PASS ''"
| "pass_head Touch = ''MICRONUX:M9:TOUCH-GATE:PASS ''"
| "pass_head Soak = ''MICRONUX:M9:SOAK:PASS ''"
| "pass_head Stress = ''MICRONUX:M9.2:STRESS:PASS ''"
| "pass_head Disconnect = ''MICRONUX:M9:USB-RECONNECT:PASS ''"
| "pass_head Snapshot = ''MICRONUX:M9:SNAPSHOT:CAPTURED ''"

definition reported :: "string \<Rightarrow> int \<Rightarrow> world \<Rightarrow> bool" where
  "reported head c w \<longleftrightarrow> w_printed w \<noteq> [] \<and>
     (c = 0 \<and> prefix head (last (w_printed w)) \<or> c = 1 \<and> prefix fail_head (last (w_printed w)))"

definition reports :: "string \<Rightarrow> int io \<Rightarrow> bool" where
  "reports head m \<longleftrightarrow> (\<forall>w c w'. m w = (Done c, w') \<longrightarrow> reported head c w')"

named_theorems reports_intros \<open>procedures whose status and last line agree\<close>

lemma fail_run: "fail stage detail w = (Done 1, w\<lparr>w_printed := w_printed w @ [fail_head @ stage @ '' detail='' @ detail]\<rparr>)"
  by (simp add: fail_def fail_head_def io_then_def io_bind_def py_print_def io_return_def)

lemma reports_fail [reports_intros]: "reports head (fail stage detail)"
  by (simp add: reports_def reported_def fail_run)

lemma reports_pass [reports_intros]: "prefix head line \<Longrightarrow> reports head (pass line)"
  by (simp add: reports_def reported_def pass_def io_then_def io_bind_def py_print_def io_return_def)

lemma reports_raise [reports_intros]: "reports head (io_raise e)"
  by (simp add: reports_def io_raise_def)

lemma reports_bind [reports_intros]: "(\<And>x. reports head (f x)) \<Longrightarrow> reports head (io_bind m f)"
  unfolding reports_def io_bind_def by (auto split: prod.splits outcome.splits)

lemma reports_then [reports_intros]: "reports head k \<Longrightarrow> reports head (io_then m k)"
  unfolding io_then_def by (rule reports_bind)

lemma reports_catch [reports_intros]:
  "reports head m \<Longrightarrow> (\<And>e. reports head (h e)) \<Longrightarrow> reports head (io_catch m c h)"
  unfolding reports_def io_catch_def by (auto split: prod.splits outcome.splits if_splits)

lemma reports_conclude [reports_intros]: "reports head k \<Longrightarrow> reports head (conclude c k)"
  unfolding conclude_def
  by (auto intro: reports_intros split: sum.split option.split)

lemma reports_step [reports_intros]: "(\<And>r. reports head (k r)) \<Longrightarrow> reports head (judged_step c l t v k)"
  unfolding judged_step_def by (intro reports_intros)

lemma reports_cases [reports_intros]:
  "(\<And>a b. reports head (f a b)) \<Longrightarrow> reports head (case p of (a, b) \<Rightarrow> f a b)"
  "reports head m \<Longrightarrow> (\<And>x. reports head (g x)) \<Longrightarrow> reports head (case q of None \<Rightarrow> m | Some x \<Rightarrow> g x)"
  "reports head m \<Longrightarrow> reports head m' \<Longrightarrow> reports head (if b then m else m')"
  by (cases p, simp, cases q, simp, simp, simp)

lemma heads:
  "prefix (pass_head Preflight) preflight_pass" "prefix (pass_head Touch) touch_pass"
  "prefix (pass_head Soak) (soak_pass a b)" "prefix (pass_head Stress) (stress_pass a b c d e)"
  "prefix (pass_head Disconnect) (reconnect_pass a)" "prefix (pass_head Snapshot) (snapshot_pass p q)"
  unfolding preflight_pass_def touch_pass_def soak_pass_def stress_pass_def reconnect_pass_def snapshot_pass_def
    append.simps pass_head.simps by simp_all

lemma reports_snapshot_taken:
  assumes "\<And>r. reports head (k r)"
  shows "reports head (io_bind take_snapshot (\<lambda>r. case r of Inr code \<Rightarrow> io_return code | Inl s \<Rightarrow> k s))"
  unfolding reports_def
proof (intro allI impI)
  fix w c w'
  assume run: "io_bind take_snapshot (\<lambda>r. case r of Inr code \<Rightarrow> io_return code | Inl s \<Rightarrow> k s) w = (Done c, w')"
  obtain r w1 where t: "take_snapshot w = (Done r, w1)" and rest: "(case r of Inr code \<Rightarrow> io_return code | Inl s \<Rightarrow> k s) w1 = (Done c, w')"
    using run by (auto simp: io_bind_def split: prod.splits outcome.splits)
  show "reported head c w'"
  proof (cases r)
    case (Inl s)
    with rest assms [of s] show ?thesis unfolding reports_def by simp
  next
    case (Inr code)
    with t have "reported head code w1"
      unfolding take_snapshot_def io_catch_def io_bind_def
      by (auto simp: io_return_def fail_run reported_def split: prod.splits outcome.splits if_splits)
    with rest Inr show ?thesis by (simp add: io_return_def)
  qed
qed

lemma reports_modes:
  "reports (pass_head Preflight) (run_preflight l)" "reports (pass_head Touch) (run_touch n)"
  "reports (pass_head Soak) (run_soak n m)" "reports (pass_head Stress) (run_stress n)"
  "reports (pass_head Disconnect) (run_disconnect n)" "reports (pass_head Snapshot) (run_snapshot n)"
  unfolding run_preflight_def run_touch_def run_soak_def run_stress_def run_disconnect_def run_snapshot_def
    reconnect_report_def snapshot_report_def Let_def
  by (intro reports_intros reports_snapshot_taken heads)+

definition keeps :: "(world \<Rightarrow> 'b) \<Rightarrow> 'a io \<Rightarrow> bool" where
  "keeps f m \<longleftrightarrow> (\<forall>w. f (snd (m w)) = f w)"

lemma keeps_bind: "keeps f m \<Longrightarrow> (\<And>x. keeps f (k x)) \<Longrightarrow> keeps f (io_bind m k)"
  unfolding keeps_def io_bind_def by (auto split: prod.splits outcome.splits) (metis snd_conv)+

lemma keeps_then: "keeps f m \<Longrightarrow> keeps f k \<Longrightarrow> keeps f (io_then m k)"
  unfolding io_then_def by (rule keeps_bind)

lemma keeps_catch: "keeps f m \<Longrightarrow> (\<And>x. keeps f (h x)) \<Longrightarrow> keeps f (io_catch m c h)"
  unfolding keeps_def io_catch_def by (auto split: prod.splits outcome.splits if_splits) (metis snd_conv)+

lemma keeps_return: "keeps f (io_return x)" "keeps f (io_raise e)"
  by (simp_all add: keeps_def io_return_def io_raise_def)

lemma keeps_if: "keeps f m \<Longrightarrow> keeps f k \<Longrightarrow> keeps f (if b then m else k)"
  by simp

lemma keeps_rounds: "(\<And>s. keeps f (body s)) \<Longrightarrow> keeps f (io_rounds n body s)"
proof (induction n arbitrary: s)
  case 0
  show ?case by (simp add: keeps_def)
next
  case (Suc n)
  have "keeps f (case r of Inl s' \<Rightarrow> io_rounds n body s' | Inr x \<Rightarrow> io_return x)" for r
    using Suc keeps_return by (cases r) auto
  with Suc.prems show ?case by (auto intro: keeps_bind)
qed

lemma keeps_loop: "(\<And>s. keeps f (body s)) \<Longrightarrow> keeps f (io_loop body s)"
  using keeps_rounds [of f body] unfolding keeps_def io_loop_def by blast

lemma keeps_primitives:
  "keeps w_printed dev_control" "keeps w_reads dev_control" "keeps w_reads dev_open" "keeps w_reads monotonic"
  "keeps w_reads (py_print s)" "keeps w_reads (run_process as chk)"
  by (auto simp: keeps_def monotonic_def dev_open_def dev_control_def run_process_def py_print_def io_result_def
    io_raise_def io_return_def split: list.splits sum.splits)

lemmas keeps_intros = keeps_bind keeps_then keeps_catch keeps_return keeps_if keeps_loop keeps_primitives

lemma close_keeps_printed: "keeps w_printed close_serial_quietly"
  unfolding close_serial_quietly_def quietly_def by (intro keeps_intros)

lemma print_all_keeps_reads: "keeps w_reads (print_all ls)"
  by (induction ls) (auto intro: keeps_intros)

lemma opening_keeps_reads:
  "keeps w_reads (io_then (print_all ls) (io_then (rom_reset x y z) (open_serial t c)))"
  unfolding rom_reset_def open_serial_def open_body_def by (intro keeps_intros print_all_keeps_reads)

lemma session_Done:
  assumes "session opening body w = (Done c, w')"
  obtains (closed) w1 w2 where "opening w = (Done (), w1)" and "guarded body w1 = (Done c, w2)" and "w_printed w' = w_printed w2"
  | (failed) e w1 where "opening w = (Raise e, w1)" and "guarded (io_raise e) w1 = (Done c, w')"
proof (cases "opening w")
  case (Pair r w1)
  show ?thesis
  proof (cases r)
    case (Done u)
    with assms Pair have "io_finally (guarded body) close_serial_quietly w1 = (Done c, w')" by (simp add: session_def)
    then obtain w2 where w2: "guarded body w1 = (Done c, w2)" "w' = snd (close_serial_quietly w2)"
      unfolding io_finally_def by (auto split: prod.splits outcome.splits)
    with close_keeps_printed have "w_printed w' = w_printed w2" unfolding keeps_def by simp
    with Pair Done w2(1) closed show ?thesis by simp
  next
    case (Raise e)
    with assms Pair failed show ?thesis by (simp add: session_def)
  next
    case Blocked
    with assms Pair show ?thesis by (simp add: session_def)
  qed
qed

lemma reports_guarded: "reports head m \<Longrightarrow> reports head (guarded m)"
  unfolding guarded_def by (intro reports_intros)

lemma reports_session: "reports head body \<Longrightarrow> reports head (session opening body)"
  unfolding reports_def [of _ "session opening body"]
proof (intro allI impI)
  fix w c w'
  assume b: "reports head body" and "session opening body w = (Done c, w')"
  from this(2) show "reported head c w'"
  proof (cases rule: session_Done)
    case (closed w1 w2)
    with reports_guarded [OF b] have "reported head c w2" unfolding reports_def by blast
    with closed(3) show ?thesis unfolding reported_def by simp
  next
    case (failed e w1)
    have "reports head (guarded (io_raise e))" by (rule reports_guarded) (rule reports_raise)
    with failed(2) show ?thesis unfolding reports_def by blast
  qed
qed

lemma reports_booted: "mode a \<noteq> Snapshot \<Longrightarrow> reports (pass_head (mode a)) (run_booted a)"
  unfolding run_booted_def run_mode_def
  by (cases "mode a") (auto intro!: reports_intros reports_modes simp del: pass_head.simps)

text \<open>
  C9. Exit status and transcript agree: when the program returns, its status is 0 and the last
  line it printed is the pass line of the mode it ran, or its status is 1 and the last line is
  the failure line.
\<close>

theorem main_status:
  assumes "main executable usb_reset_arm a w = (Done c, w')"
  shows "w_printed w' \<noteq> [] \<and>
     (c = 0 \<and> prefix (pass_head (mode a)) (last (w_printed w')) \<or> c = 1 \<and> prefix fail_head (last (w_printed w')))"
proof -
  have "reports (pass_head (mode a)) (main executable usb_reset_arm a)"
    unfolding main_def
    by (cases "mode a = Snapshot")
      (auto intro!: reports_intros reports_session reports_modes reports_booted simp del: pass_head.simps split: option.split)
  with assms show ?thesis unfolding reports_def reported_def by blast
qed


theorem main_status_witness:
  "let a = \<lparr>port = ''COM14'', artifact_dir = (\<lambda>_. None), mode = Snapshot, point_timeout_ms = 60000, soak_seconds = 240,
       sample_seconds = 15, disconnect_seconds = 600, snapshot_seconds = 2, stress_cycles = 3\<rparr>;
     w = \<lparr>w_clock = [0, 31], w_clock_ns = [], w_reads = [], w_writes = [], w_opens = [Inl (SerialException ''no port'')],
       w_controls = [], w_processes = [], w_sent = [], w_printed = []\<rparr>;
     w' = snd (main ''python'' ''usb-reset-arm.py'' a w) in
   fst (main ''python'' ''usb-reset-arm.py'' a w) = Done 1 \<and> prefix fail_head (last (w_printed w'))"
proof -
  let ?a = "\<lparr>port = ''COM14'', artifact_dir = (\<lambda>_. None), mode = Snapshot, point_timeout_ms = 60000, soak_seconds = 240,
       sample_seconds = 15, disconnect_seconds = 600, snapshot_seconds = 2, stress_cycles = 3\<rparr>"
  let ?w = "\<lparr>w_clock = [0, 31], w_clock_ns = [], w_reads = [], w_writes = [], w_opens = [Inl (SerialException ''no port'')],
       w_controls = [], w_processes = [], w_sent = [], w_printed = []\<rparr>"
  have run: "fst (main ''python'' ''usb-reset-arm.py'' ?a ?w) = Done 1" by code_simp
  then have "main ''python'' ''usb-reset-arm.py'' ?a ?w = (Done 1, snd (main ''python'' ''usb-reset-arm.py'' ?a ?w))"
    by (simp add: prod_eq_iff)
  from main_status [OF this] have "prefix fail_head (last (w_printed (snd (main ''python'' ''usb-reset-arm.py'' ?a ?w))))" by simp
  with run show ?thesis unfolding Let_def by (rule conjI)
qed

section \<open>No pass without a verified boot\<close>

lemma conclude_0:
  assumes "conclude c k w = (Done 0, w')"
  shows "c = Inr None \<and> k w = (Done 0, w')"
proof -
  have "c = Inr None"
  proof (rule ccontr)
    assume "c \<noteq> Inr None"
    then consider e where "c = Inl e" | ls stage detail where "c = Inr (Some (ls, stage, detail))"
      by (metis option.exhaust prod_cases3 sum.exhaust)
    then show False
    proof cases
      case 1
      with assms show False by (simp add: conclude_def io_raise_def)
    next
      case 2
      with assms have "io_then (print_all ls) (fail stage detail) w = (Done 0, w')" by (simp add: conclude_def)
      then show False by (auto simp: io_then_def io_bind_def fail_run split: prod.splits outcome.splits)
    qed
  qed
  with assms show ?thesis by (simp add: conclude_def)
qed

lemma wait_for_shell_text:
  assumes "wait_for_shell t w = (Done boot_log, w')"
  shows "prefix boot_log (received (w_reads w))"
proof -
  obtain now ts where c: "w_clock w = now # ts"
    using assms by (cases "w_clock w") (simp_all add: wait_for_shell_def io_bind_def monotonic_def)
  let ?w = "w\<lparr>w_clock := ts\<rparr>"
  obtain r w1 where p: "poll (now + t) shell_judge [] ?w = (Done r, w1)" and
    rest: "(case r of Inr x \<Rightarrow> io_then dev_control (io_return x)
      | Inl _ \<Rightarrow> io_raise (TimeoutError ''Linux USB shell did not become ready'')) w1 = (Done boot_log, w')"
    using assms unfolding wait_for_shell_def monotonic_answer [OF c] by (rule io_bind_DoneE)
  obtain x where x: "r = Inr x" "x = boot_log"
    using rest by (cases r) (auto simp: io_raise_def io_then_def io_bind_def io_return_def split: prod.splits outcome.splits)
  from poll_judged [OF p [unfolded x(1)]] obtain u
    where "prefix u (received (w_reads w))" "shell_judge u = Some (Inr x)" by auto
  then show ?thesis using x(2)
    by (auto simp: shell_judge_def failure_judge_def split: if_splits option.splits)
qed

lemma guarded_0: "guarded m w = (Done 0, w') \<Longrightarrow> m w = (Done 0, w')"
  unfolding guarded_def io_catch_def by (auto simp: fail_run split: prod.splits outcome.splits if_splits)

lemma run_booted_0:
  assumes "run_booted a w = (Done 0, w')"
  shows "\<exists>boot_log. prefix boot_log (received (w_reads w)) \<and>
     verify_boot_payload boot_log (artifact_dir a) = None \<and> boot_contract_problem boot_log = None"
proof -
  obtain boot_log w1 where shell: "wait_for_shell 120 w = (Done boot_log, w1)"
    and c: "conclude (problem_at ''boot-payload'' (verify_boot_payload boot_log (artifact_dir a)))
    (io_bind (io_result (payload_message (artifact_dir a))) (\<lambda>message. io_then (py_print message)
    (conclude (problem_at ''boot-markers'' (boot_contract_problem boot_log))
    (io_bind verify_runtime_identity (\<lambda>identity_problem.
     conclude (problem_at ''runtime-identity'' identity_problem)
    (io_bind wait_for_touch_terminal (\<lambda>touch_problem.
     conclude (problem_at ''touch-terminal'' touch_problem) (run_mode a boot_log)))))))) w1 = (Done 0, w')"
    using assms unfolding run_booted_def by (rule io_bind_DoneE)
  note c1 = conclude_0 [OF c]
  from conjunct2 [OF c1] obtain m w2 where "io_then (py_print m)
    (conclude (problem_at ''boot-markers'' (boot_contract_problem boot_log))
    (io_bind verify_runtime_identity (\<lambda>identity_problem.
     conclude (problem_at ''runtime-identity'' identity_problem)
    (io_bind wait_for_touch_terminal (\<lambda>touch_problem.
     conclude (problem_at ''touch-terminal'' touch_problem) (run_mode a boot_log)))))) w2 = (Done 0, w')"
    by (rule io_bind_DoneE)
  then obtain w3 where "conclude (problem_at ''boot-markers'' (boot_contract_problem boot_log))
    (io_bind verify_runtime_identity (\<lambda>identity_problem.
     conclude (problem_at ''runtime-identity'' identity_problem)
    (io_bind wait_for_touch_terminal (\<lambda>touch_problem.
     conclude (problem_at ''touch-terminal'' touch_problem) (run_mode a boot_log))))) w3 = (Done 0, w')"
    unfolding io_then_def by (rule io_bind_DoneE)
  from conclude_0 [OF this] c1 wait_for_shell_text [OF shell] show ?thesis by auto
qed

text \<open>
  C1. No false pass: in every mode that resets the target, if no prefix of what the target sends
  is a boot log that both names the packed payload and fulfils the boot contract, the program
  does not return 0, whatever else happens.
\<close>

theorem no_pass_without_boot:
  assumes "mode a \<noteq> Snapshot"
    and "\<And>boot_log. prefix boot_log (received (w_reads w)) \<Longrightarrow>
      verify_boot_payload boot_log (artifact_dir a) \<noteq> None \<or> boot_contract_problem boot_log \<noteq> None"
  shows "fst (main executable usb_reset_arm a w) \<noteq> Done 0"
proof
  assume "fst (main executable usb_reset_arm a w) = Done 0"
  then obtain w' where "main executable usb_reset_arm a w = (Done 0, w')" by (metis prod.collapse)
  then have s: "session (io_then (print_all (visual_notice (mode a)))
      (io_then (rom_reset executable usb_reset_arm (port a)) (open_serial 30 True))) (run_booted a) w = (Done 0, w')"
    using assms(1) by (auto simp: main_def io_raise_def split: option.splits)
  then show False
  proof (cases rule: session_Done)
    case (closed w1 w2)
    from run_booted_0 [OF guarded_0 [OF closed(2)]] obtain boot_log where b: "prefix boot_log (received (w_reads w1))"
      "verify_boot_payload boot_log (artifact_dir a) = None" "boot_contract_problem boot_log = None" by blast
    have "w_reads w1 = w_reads w" using opening_keeps_reads closed(1) unfolding keeps_def by (metis snd_conv)
    with b assms(2) [of boot_log] show False by simp
  next
    case (failed e w1)
    from guarded_0 [OF failed(2)] show False by (simp add: io_raise_def)
  qed
qed

theorem no_pass_without_boot_witness:
  "fst (main ''python'' ''usb-reset-arm.py''
     \<lparr>port = ''COM14'', artifact_dir = (\<lambda>_. None), mode = Preflight, point_timeout_ms = 60000, soak_seconds = 240,
       sample_seconds = 15, disconnect_seconds = 600, snapshot_seconds = 2, stress_cycles = 3\<rparr>
     \<lparr>w_clock = [0, 1, 2, 3], w_clock_ns = [7], w_reads = [Inr ''MICRONUX:M6:COMBINED:SHELL ready''], w_writes = [Inr 76],
       w_opens = [Inr ()], w_controls = [Inr ()], w_processes = [Inr 0, Inr 0], w_sent = [], w_printed = []\<rparr>) \<noteq> Done 0"
  by (rule no_pass_without_boot) (simp_all add: verify_boot_payload_def)

section \<open>Quoting\<close>

text \<open>
  What a POSIX shell makes of a word: plain characters stand for themselves, single and double
  quotes protect what is between them.  A character the shell would interpret outside quotes,
  or an unclosed quote, is no plain word.
\<close>

datatype quoting = Plain | Single | Double

fun shell_word :: "quoting \<Rightarrow> string \<Rightarrow> string option" where
  "shell_word Plain [] = Some []"
| "shell_word q [] = None"
| "shell_word Plain (c # cs) = (if c = CHR 0x27 then shell_word Single cs
     else if c = CHR 0x22 then shell_word Double cs
     else if shell_safe c then map_option ((#) c) (shell_word Plain cs) else None)"
| "shell_word Single (c # cs) = (if c = CHR 0x27 then shell_word Plain cs
     else map_option ((#) c) (shell_word Single cs))"
| "shell_word Double (c # cs) = (if c = CHR 0x22 then shell_word Plain cs
     else if c = CHR 0x5C \<or> c = CHR ''$'' \<or> c = CHR 0x60 then None
     else map_option ((#) c) (shell_word Double cs))"

lemma shell_word_safe: "list_all shell_safe s \<Longrightarrow> shell_word Plain s = Some s"
proof (induction s)
  case (Cons c s)
  moreover from Cons.prems have "c \<noteq> CHR 0x27" "c \<noteq> CHR 0x22" by (auto simp: shell_safe_def is_digit_def)
  ultimately show ?case by simp
qed simp

lemma shell_word_quoted:
  "shell_word Single (concat (map (\<lambda>c. if c = CHR 0x27
       then [CHR 0x27, CHR 0x22, CHR 0x27, CHR 0x22, CHR 0x27] else [c]) s) @ [CHR 0x27]) = Some s"
  by (induction s) simp_all


section \<open>The length of a soak\<close>

definition sleeps :: "int \<Rightarrow> string list \<Rightarrow> nat" where
  "sleeps n cs = length (filter (\<lambda>c. c = ''sleep '' @ str_int n) cs)"

lemma sleeps_append [simp]: "sleeps n (xs @ ys) = sleeps n xs + sleeps n ys"
  by (simp add: sleeps_def)

lemma sleeps_none: "list_all (\<lambda>c. \<not> prefix ''sleep '' c) cs \<Longrightarrow> sleeps n cs = 0"
  by (auto simp: sleeps_def list_all_iff filter_empty_conv)

lemma sample_no_sleep: "sleeps n (soak_sample_commands i) = 0" "sleeps n soak_setup = 0"
  by (rule sleeps_none, simp add: soak_sample_commands_def soak_setup_def removesuffix_semi_def framebuffer_hash_shell_def DISPLAY_SYSFS_def)+

lemma sleeps_concat: "sleeps n (concat xss) = sum_list (map (sleeps n) xss)"
  by (induction xss) (simp_all add: sleeps_def)

lemma soak_sleeps:
  assumes "0 \<le> secs div n"
  shows "sleeps n (soak_commands secs n) = nat (secs div n)"
proof -
  define k where "k = nat (secs div n)"
  have k: "soak_sample_count secs n = int k + 1" using assms by (simp add: soak_sample_count_def k_def)
  have one: "sleeps n (soak_sample_commands i @ (if int i + 1 < int k + 1 then [''sleep '' @ str_int n] else [])) =
      (if i < k then 1 else 0)" for i
    by (simp add: sample_no_sleep) (simp add: sleeps_def)
  have "map (\<lambda>i. if i < k then 1 else 0) [0..<k] = replicate k (1 :: nat)" by (intro nth_equalityI) simp_all
  then have total: "sum_list (map (\<lambda>i. if i < k then 1 else 0) [0..<Suc k]) = (k :: nat)" by (simp add: sum_list_replicate)
  have last: "sleeps n [''[ '' @ [CHR 0x22] @ ''$m9_soak_rc'' @ [CHR 0x22] @ '' -eq 0 ]''] = 0" by (rule sleeps_none) simp
  have count: "nat (int k + 1) = Suc k" by simp
  show ?thesis
    unfolding soak_commands_def Let_def k sleeps_append sleeps_concat map_map comp_def one [unfolded sleeps_append] last
      sample_no_sleep(2) count total k_def [symmetric] by simp
qed



end
