(* ===== verification/Boot_Gates.thy ===== *)
theory Boot_Gates
  imports M9_Serial M3_Pack
begin

text \<open>
  The boot gates \<^verbatim>\<open>m2-test.py\<close> to \<^verbatim>\<open>m5-test.py\<close>: each resets the board a number of times, captures
  the serial log of every boot while typing its probe commands, and judges the log.  A judge
  takes the number of the boot, what earlier boots established and the log, and gives the
  lines of its complaint or the state for the next boot; \<open>run_boots\<close> is the loop over the boots
  that the four programs share.  Standard output and standard error are one sequence of lines.
  The locale \<open>boot_gate\<close> says what such a judge promises, and every gate interprets it.
\<close>

unbundle bit_operations_syntax

section \<open>What the gates share\<close>

definition esptool_reset :: "string \<Rightarrow> string \<Rightarrow> unit io" where
  "esptool_reset executable port =
     run_process [executable, ''-m'', ''esptool'', ''--chip'', ''esp32p4'', ''--port'', port,
       ''--before'', ''default-reset'', ''--after'', ''hard-reset'', ''chip-id''] True"

text \<open>\<^verbatim>\<open>device.dtr = False; device.rts = False; device.close()\<close>\<close>

definition release_port :: "unit io" where
  "release_port = io_then dev_control (io_then dev_control dev_control)"

definition write_lines :: "string list \<Rightarrow> unit io" where
  "write_lines ls = foldr (\<lambda>line k. io_bind (dev_write line) (\<lambda>_. io_then dev_control k)) ls (io_return ())"

definition missing :: "string list \<Rightarrow> string \<Rightarrow> string list" where
  "missing markers console = filter (\<lambda>marker. \<not> py_in marker console) markers"

definition forbidden :: "string list \<Rightarrow> string \<Rightarrow> string list" where
  "forbidden markers console = filter (\<lambda>marker. py_in marker console) markers"

definition any_but_newline :: regex where
  "any_but_newline = Star (Cls (\<lambda>c. c \<noteq> newline))"

definition group_of :: "regex \<Rightarrow> string \<Rightarrow> string option" where
  "group_of r console = map_option (\<lambda>(_, _, gs). snd (hd gs)) (py_search r console)"

definition payload_re :: "string \<Rightarrow> regex" where
  "payload_re part = Cats [Lit (''MICRONUX:M3:'' @ part @ '' ''), any_but_newline, Lit '' sha256='', Grp ''1'' (lowerhex_run 64)]"

definition payload_hashes :: "string \<Rightarrow> (string \<times> string) option" where
  "payload_hashes console = (case group_of (payload_re ''KERNEL'') console of None \<Rightarrow> None
     | Some kernel_hash \<Rightarrow> (case group_of (payload_re ''DTB'') console of None \<Rightarrow> None | Some dtb \<Rightarrow> Some (kernel_hash, dtb)))"

definition lines_with :: "(string \<Rightarrow> bool) \<Rightarrow> string \<Rightarrow> string list" where
  "lines_with P console = map strip (filter P (splitlines console))"

definition boot_header :: "string \<Rightarrow> string \<Rightarrow> nat \<Rightarrow> nat \<Rightarrow> string list \<Rightarrow> string list" where
  "boot_header name nothing boots boot ls =
     [''--- '' @ name @ '' boot '' @ str_nat boot @ ''/'' @ str_nat boots @ '' ---'',
      if ls = [] then nothing else join [newline] ls]"

definition marker_complaint :: "string \<Rightarrow> nat \<Rightarrow> string \<Rightarrow> string list \<Rightarrow> string list \<Rightarrow> string list" where
  "marker_complaint name boot console miss forb =
     [''--- complete serial log ---'', console] @
     (if miss \<noteq> [] then [name @ '' boot '' @ str_nat boot @ '' missing: '' @ join '', '' miss] else []) @
     (if forb \<noteq> [] then [name @ '' boot '' @ str_nat boot @ '' rejected: '' @ join '', '' forb] else [])"

definition artifact_record :: "string \<Rightarrow> files \<Rightarrow> string \<Rightarrow> string list \<Rightarrow> string result" where
  "artifact_record name fs directory names =
     rbind (map_result (\<lambda>n. case fs n of
         None \<Rightarrow> Inl (FileNotFoundError (''missing '' @ name @ '' artifact: '' @ directory @ ''/'' @ n))
       | Some b \<Rightarrow> Inr (n @ ''='' @ str_nat (length b) @ ''B:'' @ sha256_hex b)) names) (\<lambda>entries.
     Inr (join '' '' entries))"

type_synonym 's judging = "nat \<Rightarrow> 's \<Rightarrow> string \<Rightarrow> string list + 's"

fun run_boots :: "string io \<Rightarrow> (nat \<Rightarrow> string \<Rightarrow> string list) \<Rightarrow> 's judging \<Rightarrow> nat list \<Rightarrow> 's \<Rightarrow> (int + 's) io" where
  "run_boots capture header judge [] s = io_return (Inr s)"
| "run_boots capture header judge (b # bs) s = io_bind capture (\<lambda>console. io_then (print_all (header b console))
     (case judge b s console of
        Inl complaint \<Rightarrow> io_then (print_all complaint) (io_return (Inl 1))
      | Inr s' \<Rightarrow> run_boots capture header judge bs s'))"

text \<open>Checking that the value of this boot is the value of the boots before.\<close>

definition same_as :: "'i option \<Rightarrow> 'i \<Rightarrow> bool" where
  "same_as expected i \<longleftrightarrow> expected = None \<or> expected = Some i"

section \<open>M2\<close>

definition M2_REQUIRED :: "string list" where
  \<open>M2_REQUIRED = [
     ''MICRONUX:M2:BOOT'',
     ''MICRONUX:M2:PSRAM '',
     ''MICRONUX:M2:PSRAM_TEST'',
     ''MICRONUX:M2:KERNEL'',
     ''MICRONUX:M2:HANDOFF'',
     ''MICRONUX:M2:JUMP'',
     ''MICRONUX:M2:ENTRY'',
     ''MICRONUX:M2:PASS'']\<close>

definition m2_capture_body :: "rat \<Rightarrow> string \<Rightarrow> (string + string) io" where
  "m2_capture_body deadline captured = io_bind monotonic (\<lambda>now.
     if now < deadline
     then io_bind dev_read (\<lambda>chunk.
       if chunk = [] then io_return (Inl captured)
       else let text = captured @ chunk in
         if py_in ''MICRONUX:M2:PASS'' text \<or> py_in ''MICRONUX:M2:FAIL'' text
         then io_bind dev_read (\<lambda>rest. io_return (Inr (text @ rest)))
         else io_return (Inl text))
     else io_return (Inr captured))"

definition m2_reset_and_capture :: "rat \<Rightarrow> string io" where
  "m2_reset_and_capture timeout = io_then dev_open (io_finally
     (io_then dev_control (io_then dev_control (io_then dev_control (io_then dev_control
       (io_bind monotonic (\<lambda>now. io_loop (m2_capture_body (now + timeout)) []))))))
     release_port)"

definition m2_marker_lines :: "string \<Rightarrow> string list" where
  "m2_marker_lines console = lines_with (py_in ''MICRONUX:M2:'') console"

definition m2_crc_re :: regex where
  "m2_crc_re = Cats [Lit ''MICRONUX:M2:HANDOFF '', any_but_newline, Lit ''crc32='', Grp ''1'' (Rep 8 hexdigit)]"

definition m2_token_re :: regex where
  "m2_token_re = Cats [Lit ''MICRONUX:M2:PASS token='', Grp ''1'' (Rep 8 hexdigit)]"

definition m2_judge :: "(string \<times> string) option judging" where
  "m2_judge boot expected console =
     (let miss = missing M2_REQUIRED console; name = ''M2 boot '' @ str_nat boot in
      if miss \<noteq> [] then Inl [''--- complete serial log ---'', console, name @ '' missing markers: '' @ join '', '' miss]
      else if py_in ''MICRONUX:M2:FAIL'' console then Inl [name @ '' reported failure'']
      else case group_of m2_crc_re console of None \<Rightarrow> Inl [name @ '' did not expose its CRC/token'']
      | Some c \<Rightarrow> (case group_of m2_token_re console of None \<Rightarrow> Inl [name @ '' did not expose its CRC/token'']
      | Some t \<Rightarrow> (let crc = lower c; token = lower t in
         case expected of None \<Rightarrow> Inr (Some (crc, token))
         | Some (expected_crc, expected_token) \<Rightarrow>
             if crc \<noteq> expected_crc \<or> token \<noteq> expected_token
             then Inl [''M2 handoff changed across resets: expected crc='' @ expected_crc @ '' token='' @ expected_token @
               '', got crc='' @ crc @ '' token='' @ token]
             else Inr expected)))"

definition m2_main :: "int \<Rightarrow> rat \<Rightarrow> int io" where
  "m2_main boots timeout =
     (if boots < 1 then io_raise (SystemExit ''--boots must be at least 1'')
      else io_bind (run_boots (m2_reset_and_capture timeout)
          (\<lambda>boot console. boot_header ''M2'' ''(no MicroNUX markers captured)'' (nat boots) boot (m2_marker_lines console))
          m2_judge [1..<Suc (nat boots)] None) (\<lambda>r. case r of
        Inl code \<Rightarrow> io_return code
      | Inr expected \<Rightarrow> io_then (py_print (''M2 repeated-handoff test passed: boots='' @ str_int boots @
          (case expected of None \<Rightarrow> '' crc32=None token=None''
           | Some (crc, token) \<Rightarrow> '' crc32='' @ crc @ '' token='' @ token))) (io_return 0)))"

section \<open>M3\<close>

definition M3_REQUIRED :: "string list" where
  \<open>M3_REQUIRED = [
     ''MICRONUX:M3:BOOT'',
     ''MICRONUX:M3:CLINT'',
     ''MICRONUX:M3:MANIFEST'',
     ''MICRONUX:M3:KERNEL'',
     ''MICRONUX:M3:DTB'',
     ''MICRONUX:M3:JUMP'',
     ''MICRONUX:M3:PMP entries=13,14 linux=[48400000,49f00000) config=8f'',
     ''Linux version 6.12.27'',
     ''timer running at 360000000 Hz'',
     ''Run /init as init process'']\<close>

definition M3_FORBIDDEN :: "string list" where
  \<open>M3_FORBIDDEN = [
     ''MICRONUX:M3:FAIL'',
     ''Kernel panic'',
     ''Oops:'',
     ''BUG:'',
     ''Unhandled'',
     ''timer stall'']\<close>

definition m3_capture_body :: "rat \<Rightarrow> string \<times> rat option \<Rightarrow> (string \<times> rat option + string) io" where
  "m3_capture_body deadline = (\<lambda>(captured, init_seen_at). io_bind monotonic (\<lambda>now.
     if now < deadline
     then io_bind dev_read (\<lambda>chunk. let text = captured @ chunk in
       io_bind (if chunk \<noteq> [] \<and> py_in ''Run /init as init process'' text \<and> init_seen_at = None
           then io_bind monotonic (\<lambda>t. io_return (Some t)) else io_return init_seen_at) (\<lambda>seen.
       case seen of None \<Rightarrow> io_return (Inl (text, seen))
       | Some t \<Rightarrow> io_bind monotonic (\<lambda>later.
           if 2 \<le> later - t then io_return (Inr text) else io_return (Inl (text, seen)))))
     else io_return (Inr captured)))"

definition m3_reset_and_capture :: "string \<Rightarrow> string \<Rightarrow> rat \<Rightarrow> bool \<Rightarrow> string io" where
  "m3_reset_and_capture executable port timeout reset =
     io_then (if reset then esptool_reset executable port else io_return ()) (io_then dev_open (io_finally
       (io_then dev_control (io_bind monotonic (\<lambda>now. io_loop (m3_capture_body (now + timeout)) ([], None))))
       release_port))"

definition m3_milestone_lines :: "string \<Rightarrow> string list" where
  "m3_milestone_lines console = lines_with (\<lambda>line. list_ex (\<lambda>x. py_in x line)
     [''MICRONUX:M3:'', ''Linux version'', ''timer running at'', ''initramfs'', ''Run /init'']) console"

definition m3_judge :: "(string \<times> string) option judging" where
  "m3_judge boot expected console =
     (let miss = missing M3_REQUIRED console; forb = forbidden M3_FORBIDDEN console in
      if miss \<noteq> [] \<or> forb \<noteq> [] then Inl (marker_complaint ''M3'' boot console miss forb)
      else case payload_hashes console of
        None \<Rightarrow> Inl [''M3 boot '' @ str_nat boot @ '' did not report payload hashes'']
      | Some hashes \<Rightarrow> if same_as expected hashes then Inr (Some hashes)
          else Inl [''M3 payload changed across reset boot '' @ str_nat boot])"

definition m3_gate_main :: "string \<Rightarrow> string \<Rightarrow> int \<Rightarrow> rat \<Rightarrow> bool \<Rightarrow> int io" where
  "m3_gate_main executable port boots timeout skip_reset =
     (if boots < 1 then io_raise (SystemExit ''--boots must be at least 1'')
      else if skip_reset \<and> boots \<noteq> 1 then io_raise (SystemExit ''--skip-reset is diagnostic-only and requires --boots 1'')
      else io_bind (run_boots (m3_reset_and_capture executable port timeout (\<not> skip_reset))
          (\<lambda>boot console. boot_header ''M3'' ''(no M3/Linux milestones captured)'' (nat boots) boot (m3_milestone_lines console))
          m3_judge [1..<Suc (nat boots)] None) (\<lambda>r. case r of
        Inl code \<Rightarrow> io_return code
      | Inr expected \<Rightarrow> io_then (py_print (''M3 hardware gate passed: boots='' @ str_int boots @
          (case expected of None \<Rightarrow> '' kernel_sha256=None dtb_sha256=None''
           | Some (kernel_hash, dtb) \<Rightarrow> '' kernel_sha256='' @ kernel_hash @ '' dtb_sha256='' @ dtb))) (io_return 0)))"

section \<open>M4\<close>

definition M4_REQUIRED :: "string list" where
  \<open>M4_REQUIRED = [
     ''MICRONUX:M3:BOOT'',
     ''MICRONUX:M3:JUMP'',
     ''MICRONUX:M4:IRQ source=22 matrix=500d6058 clic=16 handoff=armed'',
     ''Linux version 6.12.27'',
     ''console [ttyGS0] enabled'',
     ''USB Serial/JTAG ttyGS0'',
     ''MICRONUX:M4:SHELL ready console=ttyGS0'',
     ''MICRONUX:M4:PROBE:BEGIN'',
     ''MICRONUX:M4:MEMINFO'',
     ''MICRONUX:M4:FREE'',
     ''MICRONUX:M4:UNAME'',
     ''MICRONUX:M4:PROBE:DONE'']\<close>

definition M4_FORBIDDEN :: "string list" where
  \<open>M4_FORBIDDEN = [
     ''MICRONUX:M3:FAIL'',
     ''MICRONUX:M4:FAIL'',
     ''Kernel panic'',
     ''Oops:'',
     ''BUG:'',
     ''Unhandled'',
     ''unhandled signal'',
     ''timer stall'',
     ''can'' @ [CHR 0x27] @ ''t open /dev/ttyGS0'']\<close>

definition M4_PROBE_LINES :: "string list" where
  \<open>M4_PROBE_LINES = [
     ''TAG=BEGIN; echo MICRONUX:M4:PROBE:$TAG'' @ [CHR 0x0A],
     ''TAG=MEMINFO; echo MICRONUX:M4:$TAG'' @ [CHR 0x0A],
     ''cat /proc/meminfo'' @ [CHR 0x0A],
     ''TAG=FREE; echo MICRONUX:M4:$TAG'' @ [CHR 0x0A],
     ''free'' @ [CHR 0x0A],
     ''TAG=UNAME; echo MICRONUX:M4:$TAG'' @ [CHR 0x0A],
     ''uname -a'' @ [CHR 0x0A],
     ''TAG=DONE; echo MICRONUX:M4:PROBE:$TAG'' @ [CHR 0x0A]]\<close>

text \<open>Waiting some time, 0.4 seconds here, after the last marker was first seen.\<close>

definition linger_for :: "rat \<Rightarrow> rat option \<Rightarrow> (rat option + unit) io" where
  "linger_for seconds done_seen_at = io_bind monotonic (\<lambda>t. case done_seen_at of
     None \<Rightarrow> io_return (Inl (Some t))
   | Some seen \<Rightarrow> if seconds \<le> t - seen then io_return (Inr ()) else io_return (Inl done_seen_at))"

definition linger :: "rat option \<Rightarrow> (rat option + unit) io" where
  "linger = linger_for (2 / 5)"

definition m4_capture_body :: "rat \<Rightarrow> string \<times> bool \<times> rat option \<Rightarrow> (string \<times> bool \<times> rat option + string) io" where
  "m4_capture_body deadline = (\<lambda>(captured, probe_sent, done_seen_at). io_bind monotonic (\<lambda>now.
     if now < deadline
     then io_bind dev_read (\<lambda>chunk. let text = captured @ chunk;
           probe = \<not> probe_sent \<and> py_in ''MICRONUX:M4:SHELL ready'' text in
       io_then (if probe then write_lines M4_PROBE_LINES else io_return ())
       (if (probe_sent \<or> probe) \<and> py_in ''MICRONUX:M4:PROBE:DONE'' text
        then io_bind (linger done_seen_at) (\<lambda>r. case r of
            Inr _ \<Rightarrow> io_return (Inr text)
          | Inl seen \<Rightarrow> io_return (Inl (text, probe_sent \<or> probe, seen)))
        else io_return (Inl (text, probe_sent \<or> probe, done_seen_at))))
     else io_return (Inr captured)))"

definition m4_reset_probe_and_capture :: "string \<Rightarrow> string \<Rightarrow> rat \<Rightarrow> string io" where
  "m4_reset_probe_and_capture executable port timeout =
     io_then (esptool_reset executable port) (io_then dev_open (io_finally
       (io_then dev_control (io_bind monotonic (\<lambda>now. io_loop (m4_capture_body (now + timeout)) ([], False, None))))
       release_port))"

definition M4_ARTIFACTS :: "string list" where
  "M4_ARTIFACTS = [''Image'', ''rootfs.cpio'', ''esp32p4-micronux.dtb'', ''metadata.bin'']"

definition m4_milestone_lines :: "string \<Rightarrow> string list" where
  "m4_milestone_lines console = lines_with (\<lambda>line. list_ex (\<lambda>x. py_in x line)
     [''MICRONUX:M3:KERNEL'', ''MICRONUX:M3:DTB'', ''MICRONUX:M4:'', ''Linux version'', ''console [ttyGS0]'',
      ''USB Serial/JTAG ttyGS0'', ''MemFree:'', ''Memory:'', ''GNU/Linux'']) console"

definition init_re :: regex where
  "init_re = Cats [Lit ''['', Star (Cls is_space), Grp ''1'' number_re, Lit ''] Run /init as init process'']"

definition jump_re :: regex where
  "jump_re = Cats [Lit ''I ('', Grp ''1'' (Plus digit), Lit '') micronux_m3: MICRONUX:M3:JUMP'']"

definition mem_free_re :: regex where
  "mem_free_re = Cat Bol (Cats ([Lit ''MemFree:'', Plus (Cls is_space), Grp ''1'' (Plus digit), Lit '' kB''] @ line_end))"

definition parse_measurements :: "string \<Rightarrow> (rat \<times> rat \<times> int) option" where
  "parse_measurements console = (case group_of init_re console of None \<Rightarrow> None
     | Some init_text \<Rightarrow> (case group_of jump_re console of None \<Rightarrow> None
     | Some jump_text \<Rightarrow> (case group_of mem_free_re console of None \<Rightarrow> None
     | Some mem_text \<Rightarrow> (let init_time = float_str init_text in
         Some (init_time, of_int (int_str jump_text) / 1000 + init_time, int_str mem_text)))))"

type_synonym m4_state = "(string \<times> string) option \<times> (rat \<times> rat \<times> int) list"

definition m4_judge :: "m4_state judging" where
  "m4_judge boot = (\<lambda>(expected, measured) console.
     (let miss = missing M4_REQUIRED console; forb = forbidden M4_FORBIDDEN console in
      if miss \<noteq> [] \<or> forb \<noteq> [] then Inl (marker_complaint ''M4'' boot console miss forb)
      else case payload_hashes console of
        None \<Rightarrow> Inl [''M4 boot '' @ str_nat boot @ '' did not report payload hashes'']
      | Some hashes \<Rightarrow>
          if \<not> same_as expected hashes then Inl [''M4 payload changed across reset boot '' @ str_nat boot]
          else case parse_measurements console of
            None \<Rightarrow> Inl [''M4 boot '' @ str_nat boot @ '': boot did not report loader time, init time, and MemFree'']
          | Some m \<Rightarrow> Inr (Some hashes, measured @ [m])))"

definition fixed2 :: "rat \<Rightarrow> string" where
  "fixed2 x = (let n = nat (round_even (x * 100)) in
     str_nat (n div 100) @ ''.'' @ zero_pad 2 (str_nat (n mod 100)))"

definition hashes_text :: "(string \<times> string) option \<Rightarrow> string" where
  "hashes_text expected = (case expected of None \<Rightarrow> '' kernel_sha256=None dtb_sha256=None''
     | Some (kernel_hash, dtb) \<Rightarrow> '' kernel_sha256='' @ kernel_hash @ '' dtb_sha256='' @ dtb)"

definition m4_main :: "string \<Rightarrow> string \<Rightarrow> int \<Rightarrow> rat \<Rightarrow> files \<Rightarrow> string \<Rightarrow> int io" where
  "m4_main executable port boots timeout fs directory =
     (if boots < 1 then io_raise (SystemExit ''--boots must be at least 1'')
      else case artifact_record ''M4'' fs directory M4_ARTIFACTS of
        Inl e \<Rightarrow> io_then (py_print (error_message e)) (io_return 1)
      | Inr artifacts \<Rightarrow> io_bind (run_boots (m4_reset_probe_and_capture executable port timeout)
          (\<lambda>boot console. boot_header ''M4'' ''(no M4/Linux milestones captured)'' (nat boots) boot (m4_milestone_lines console))
          m4_judge [1..<Suc (nat boots)] (None, [])) (\<lambda>r. case r of
        Inl code \<Rightarrow> io_return code
      | Inr (expected, measured) \<Rightarrow> io_then (py_print (''M4 artifacts: '' @ artifacts)) (io_then
          (py_print (''M4 hardware gate passed: boots='' @ str_int boots @
            '' init_time_s='' @ join '','' (map (fixed2 \<circ> fst) measured) @
            '' reset_to_shell_s='' @ join '','' (map (fixed2 \<circ> fst \<circ> snd) measured) @
            '' mem_free_kb='' @ join '','' (map (str_int \<circ> snd \<circ> snd) measured) @ hashes_text expected))
          (io_return 0))))"

section \<open>M5\<close>

definition M5_REQUIRED :: "string list" where
  \<open>M5_REQUIRED = [
     ''MICRONUX:M3:BOOT'',
     ''MICRONUX:M3:JUMP'',
     ''MICRONUX:M4:IRQ source=22 matrix=500d6058 clic=16 handoff=armed'',
     ''Linux version 6.12.27'',
     ''console [ttyGS0] enabled'',
     ''USB Serial/JTAG ttyGS0'',
     ''MICRONUX:M4:SHELL ready console=ttyGS0'',
     ''MICRONUX:M5:BASELINE'',
     ''MICRONUX:M5:RUN'',
     ''MICRONUX:M5:SIGNALS pass count=64'',
     ''MICRONUX:M5:TIMERS pass count=32'',
     ''MICRONUX:M5:EXEC pass count=64'',
     ''MICRONUX:M5:MEMORY pass kib=4096'',
     ''MICRONUX:M5:STACK pass depth=8'',
     ''MICRONUX:M5:CONSOLE seq=63'',
     ''MICRONUX:M5:PASS'',
     ''MICRONUX:M5:AFTER'',
     ''MICRONUX:M5:PROBE:DONE'']\<close>

definition M5_FORBIDDEN :: "string list" where
  \<open>M5_FORBIDDEN = [
     ''MICRONUX:M3:FAIL'',
     ''MICRONUX:M4:FAIL'',
     ''MICRONUX:M5:FAIL'',
     ''Kernel panic'',
     ''Oops:'',
     ''BUG:'',
     ''Unhandled'',
     ''unhandled signal'',
     ''timer stall'',
     ''stack smashing detected'',
     ''can'' @ [CHR 0x27] @ ''t open /dev/ttyGS0'']\<close>

definition M5_START_LINES :: "string list" where
  \<open>M5_START_LINES = [
     ''TAG=BASELINE; echo MICRONUX:M5:$TAG'' @ [CHR 0x0A],
     ''cat /proc/meminfo'' @ [CHR 0x0A],
     ''TAG=RUN; echo MICRONUX:M5:$TAG'' @ [CHR 0x0A],
     ''/usr/bin/micronux-selftest'' @ [CHR 0x0A]]\<close>

definition M5_FINISH_LINES :: "string list" where
  \<open>M5_FINISH_LINES = [
     ''TAG=AFTER; echo MICRONUX:M5:$TAG'' @ [CHR 0x0A],
     ''cat /proc/meminfo'' @ [CHR 0x0A],
     ''TAG=DONE; echo MICRONUX:M5:PROBE:$TAG'' @ [CHR 0x0A]]\<close>

definition m5_passed_re :: regex where
  "m5_passed_re = Cats [Lit ''MICRONUX:M5:PASS '', any_but_newline, Lit '' elapsed_ms='', Plus digit,
     Opt (Lit [carriage_return]), Lit [newline]]"

definition m5_capture_body ::
    "rat \<Rightarrow> string \<times> bool \<times> bool \<times> rat option \<Rightarrow> (string \<times> bool \<times> bool \<times> rat option + string) io" where
  "m5_capture_body deadline = (\<lambda>(captured, was_started, was_finished, done_seen_at). io_bind monotonic (\<lambda>now.
     if now < deadline
     then io_bind dev_read (\<lambda>chunk. let text = captured @ chunk;
           begin_now = \<not> was_started \<and> py_in ''MICRONUX:M4:SHELL ready'' text; started = was_started \<or> begin_now;
           finish_now = started \<and> \<not> was_finished \<and> py_search m5_passed_re text \<noteq> None;
           finished = was_finished \<or> finish_now in
       io_then (if begin_now then write_lines M5_START_LINES else io_return ())
       (io_then (if finish_now then write_lines M5_FINISH_LINES else io_return ())
       (if finished \<and> py_in ''MICRONUX:M5:PROBE:DONE'' text
        then io_bind (linger done_seen_at) (\<lambda>r. case r of
            Inr _ \<Rightarrow> io_return (Inr text)
          | Inl seen \<Rightarrow> io_return (Inl (text, started, finished, seen)))
        else io_return (Inl (text, started, finished, done_seen_at)))))
     else io_return (Inr captured)))"

definition m5_reset_probe_and_capture :: "string \<Rightarrow> string \<Rightarrow> rat \<Rightarrow> string io" where
  "m5_reset_probe_and_capture executable port timeout =
     io_then (esptool_reset executable port) (io_then dev_open (io_finally
       (io_then dev_control (io_bind monotonic (\<lambda>now. io_loop (m5_capture_body (now + timeout)) ([], False, False, None))))
       release_port))"

definition M5_ARTIFACTS :: "string list" where
  "M5_ARTIFACTS = [''Image'', ''rootfs.cpio'', ''esp32p4-micronux.dtb'', ''metadata.bin'', ''micronux-selftest'', ''micronux-exec-child'']"

definition m5_milestone_lines :: "string \<Rightarrow> string list" where
  "m5_milestone_lines console = lines_with (\<lambda>line.
     \<not> (py_in ''MICRONUX:M5:CONSOLE'' line \<and> \<not> (py_in ''seq=0 '' line \<or> py_in ''seq=63 '' line)) \<and>
     list_ex (\<lambda>x. py_in x line)
       [''MICRONUX:M3:KERNEL'', ''MICRONUX:M3:DTB'', ''MICRONUX:M4:SHELL'', ''MICRONUX:M5:'', ''Linux version'',
        ''console [ttyGS0]'', ''USB Serial/JTAG ttyGS0'', ''MemFree:'']) console"

definition m5_pass_re :: regex where
  "m5_pass_re = Cats [Lit (''MICRONUX:M5:PASS exec=64 signals=64 timers=32 memory_kib=4096 stack_depth=8 '' @
     ''console=64 elapsed_ms=''), Grp ''1'' (Plus digit)]"

definition m5_measurements :: "string \<Rightarrow> (int \<times> int \<times> int) option" where
  "m5_measurements console = (let memory_matches = map (\<lambda>gs. snd (hd gs)) (groups_of mem_free_re console) in
     if length memory_matches < 2 then None
     else map_option (\<lambda>t. (int_str (hd memory_matches), int_str (last memory_matches), int_str t)) (group_of m5_pass_re console))"

definition CONSOLE_LINES :: nat where "CONSOLE_LINES = 64"

definition console_line :: "piece list" where
  "console_line = [L ''MICRONUX:M5:CONSOLE seq='', Fld ''1'' Dec, L '' checksum='', Fld ''2'' (Exact 8 is_lowerhex)]"

definition console_matches :: "string \<Rightarrow> (string \<times> string) list" where
  "console_matches console = map pair_of (groups_of (line_re console_line) console)"

definition next_checksum :: "32 word \<Rightarrow> 32 word" where
  "next_checksum c0 = (let c1 = c0 XOR push_bit 13 c0; c2 = c1 XOR drop_bit 17 c1 in c2 XOR push_bit 5 c2)"

fun check_console :: "nat \<Rightarrow> 32 word \<Rightarrow> (string \<times> string) list \<Rightarrow> unit result" where
  "check_console n c [] = Inr ()"
| "check_console n c ((sequence_text, checksum_text) # ms) = (let c' = next_checksum c in
     if int_str sequence_text \<noteq> int n \<or> int (base_val 16 checksum_text) \<noteq> uint c'
     then Inl (ValueError (''console sequence/checksum mismatch at line '' @ str_nat n @
       '': seq='' @ sequence_text @ '' checksum='' @ checksum_text))
     else check_console (n + 1) c' ms)"

definition verify_console :: "string \<Rightarrow> unit result" where
  "verify_console console = (let matches = console_matches console in
     if length matches \<noteq> CONSOLE_LINES
     then Inl (ValueError (''console reported '' @ str_nat (length matches) @ '' complete lines, expected '' @ str_nat CONSOLE_LINES))
     else check_console 0 0x6D696372 matches)"

type_synonym m5_state = "(string \<times> string) option \<times> (int \<times> int \<times> int) list"

definition m5_judge :: "int \<Rightarrow> m5_state judging" where
  "m5_judge max_memory_loss_kib boot = (\<lambda>(expected, measured) console.
     (let miss = missing M5_REQUIRED console; forb = forbidden M5_FORBIDDEN console; name = ''M5 boot '' @ str_nat boot in
      if miss \<noteq> [] \<or> forb \<noteq> [] then Inl (marker_complaint ''M5'' boot console miss forb)
      else case payload_hashes console of None \<Rightarrow> Inl [name @ '': boot did not report payload hashes'']
      | Some hashes \<Rightarrow> (case m5_measurements console of
          None \<Rightarrow> Inl [name @ '': self-test did not report memory and elapsed-time metrics'']
        | Some (memory_before, memory_after, elapsed_ms) \<Rightarrow> (case verify_console console of
            Inl e \<Rightarrow> Inl [name @ '': '' @ error_message e]
          | Inr _ \<Rightarrow>
              if \<not> same_as expected hashes then Inl [''M5 payload changed across reset boot '' @ str_nat boot]
              else if memory_before - memory_after > max_memory_loss_kib
              then Inl [name @ '': memory loss '' @ str_int (memory_before - memory_after) @ '' KiB exceeds '' @
                str_int max_memory_loss_kib @ '' KiB'']
              else Inr (Some hashes, measured @ [(memory_before, memory_after, elapsed_ms)])))))"

definition m5_main :: "string \<Rightarrow> string \<Rightarrow> int \<Rightarrow> rat \<Rightarrow> files \<Rightarrow> string \<Rightarrow> int \<Rightarrow> int io" where
  "m5_main executable port boots timeout fs directory max_memory_loss_kib =
     (if boots < 1 then io_raise (SystemExit ''--boots must be at least 1'')
      else if max_memory_loss_kib < 0 then io_raise (SystemExit ''--max-memory-loss-kib cannot be negative'')
      else case artifact_record ''M5'' fs directory M5_ARTIFACTS of
        Inl e \<Rightarrow> io_then (py_print (error_message e)) (io_return 1)
      | Inr artifacts \<Rightarrow> io_bind (run_boots (m5_reset_probe_and_capture executable port timeout)
          (\<lambda>boot console. boot_header ''M5'' ''(no M5/Linux milestones captured)'' (nat boots) boot (m5_milestone_lines console))
          (m5_judge max_memory_loss_kib) [1..<Suc (nat boots)] (None, [])) (\<lambda>r. case r of
        Inl code \<Rightarrow> io_return code
      | Inr (None, measured) \<Rightarrow> io_raise (AssertionError '''')
      | Inr (Some (kernel_hash, dtb), measured) \<Rightarrow> io_then (py_print (''M5 artifacts: '' @ artifacts)) (io_then
          (py_print (''M5 hardware gate passed: boots='' @ str_int boots @ '' exec_per_boot=64'' @
            '' elapsed_ms='' @ join '','' (map (str_int \<circ> snd \<circ> snd) measured) @
            '' mem_before_kib='' @ join '','' (map (str_int \<circ> fst) measured) @
            '' mem_after_kib='' @ join '','' (map (str_int \<circ> fst \<circ> snd) measured) @
            '' kernel_sha256='' @ kernel_hash @ '' dtb_sha256='' @ dtb))
          (io_return 0))))"

section \<open>The capture loops\<close>

text \<open>Every round of a capture loop asks the clock, so no loop ends for want of rounds.\<close>

lemma write_lines_keeps_clock [clock_intros]: "keeps_clock (write_lines ls)"
  unfolding write_lines_def by (induction ls) (simp_all only: foldr.simps o_apply id_apply, intro clock_intros, intro clock_intros)

lemma capture_asks:
  "asks_clock (m2_capture_body deadline s2)" "asks_clock (m3_capture_body deadline s3)"
  "asks_clock (m4_capture_body deadline s4)" "asks_clock (m5_capture_body deadline s5)"
  unfolding m2_capture_body_def m3_capture_body_def m4_capture_body_def m5_capture_body_def linger_def linger_for_def case_prod_beta
  by (intro asks_clock_monotonic clock_intros)+

lemmas capture_loop_unfold = capture_asks [THEN io_loop_unfold]

section \<open>The contract of a judge\<close>

text \<open>Judging captured logs one after the other, as the loop over the boots does.\<close>

fun judge_logs :: "'s judging \<Rightarrow> nat list \<Rightarrow> string list \<Rightarrow> 's \<Rightarrow> string list + 's" where
  "judge_logs judge (b # bs) (l # ls) s = (case judge b s l of Inl complaint \<Rightarrow> Inl complaint | Inr s' \<Rightarrow> judge_logs judge bs ls s')"
| "judge_logs judge _ _ s = Inr s"

text \<open>The same boots captured and announced, with no judging.\<close>

fun capture_boots :: "string io \<Rightarrow> (nat \<Rightarrow> string \<Rightarrow> string list) \<Rightarrow> nat list \<Rightarrow> string list io" where
  "capture_boots capture header [] = io_return []"
| "capture_boots capture header (b # bs) = io_bind capture (\<lambda>l. io_then (print_all (header b l))
     (io_bind (capture_boots capture header bs) (\<lambda>ls. io_return (l # ls))))"

definition identical :: "'i list \<Rightarrow> bool" where
  "identical xs \<longleftrightarrow> list_all (\<lambda>x. x = hd xs) xs"

lemma identical_Cons [simp]: "identical (x # xs) \<longleftrightarrow> list_all (\<lambda>y. y = x) xs"
  by (simp add: identical_def)

lemma identical_Nil [simp]: "identical []"
  by (simp add: identical_def)

lemma print_all_run: "print_all ls w = (Done (), w\<lparr>w_printed := w_printed w @ ls\<rparr>)"
  by (induction ls arbitrary: w) (simp_all add: io_return_def io_then_def io_bind_def py_print_def)

lemma run_boots_accepts:
  "run_boots capture header judge bs s w = (Done (Inr s'), w') \<longleftrightarrow>
     (\<exists>ls. capture_boots capture header bs w = (Done ls, w') \<and> judge_logs judge bs ls s = Inr s')"
proof (induction bs arbitrary: s w)
  case (Cons b bs)
  show ?case
  proof (cases "capture w")
    case (Pair r w1)
    show ?thesis
    proof (cases r)
      case (Done l)
      let ?w2 = "w1\<lparr>w_printed := w_printed w1 @ header b l\<rparr>"
      have run: "run_boots capture header judge (b # bs) s w = (case judge b s l of
          Inl complaint \<Rightarrow> io_then (print_all complaint) (io_return (Inl 1)) ?w2
        | Inr s1 \<Rightarrow> run_boots capture header judge bs s1 ?w2)"
        using Pair Done by (simp add: io_bind_def io_then_def print_all_run split: sum.split)
      have cap: "capture_boots capture header (b # bs) w = io_bind (capture_boots capture header bs) (\<lambda>ls. io_return (l # ls)) ?w2"
        using Pair Done by (simp add: io_bind_def io_then_def print_all_run)
      show ?thesis
      proof (cases "judge b s l")
        case (Inl complaint)
        then show ?thesis unfolding run cap
          by (auto simp: io_then_def io_bind_def print_all_run io_return_def split: prod.splits outcome.splits)
      next
        case (Inr s1)
        then show ?thesis unfolding run cap
          by (auto simp: Cons.IH io_bind_def io_return_def split: prod.splits outcome.splits)
      qed
    qed (use Pair in \<open>simp_all add: io_bind_def\<close>)
  qed
qed (auto simp: io_return_def)

lemma run_boots_status:
  "run_boots capture header judge bs s w = (Done (Inl c), w') \<Longrightarrow> c = 1"
proof (induction bs arbitrary: s w)
  case (Cons b bs)
  then show ?case
    by (auto simp: io_bind_def io_then_def print_all_run io_return_def split: prod.splits outcome.splits sum.splits)
qed (simp add: io_return_def)

lemma capture_boots_length:
  "capture_boots capture header bs w = (Done ls, w') \<Longrightarrow> length ls = length bs"
proof (induction bs arbitrary: ls w w')
  case (Cons b bs)
  then show ?case
    by (auto simp: io_bind_def io_then_def print_all_run io_return_def split: prod.splits outcome.splits)
qed (simp add: io_return_def)

text \<open>
  A judge accepts a log by itself (\<open>ok\<close>), reads off it what must not change between the boots
  (\<open>ident\<close>), and remembers that in the state it passes on (\<open>seen\<close>), whose parts agree (\<open>inv\<close>).
\<close>

locale boot_gate =
  fixes judge :: "nat \<Rightarrow> 's \<Rightarrow> string \<Rightarrow> string list + 's" and ok :: "string \<Rightarrow> bool"
    and ident :: "string \<Rightarrow> 'i option" and seen :: "'s \<Rightarrow> 'i option" and inv :: "'s \<Rightarrow> bool"
  assumes accepts: "inv s \<Longrightarrow> (\<exists>s'. judge b s l = Inr s') \<longleftrightarrow> ok l \<and> (seen s = None \<or> seen s = ident l)"
    and remembers: "inv s \<Longrightarrow> judge b s l = Inr s' \<Longrightarrow> seen s' = ident l \<and> inv s'"
    and identified: "ok l \<Longrightarrow> ident l \<noteq> None"
begin

lemma judge_logs_iff:
  assumes "length bs = length ls" and "inv s"
  shows "(\<exists>s'. judge_logs judge bs ls s = Inr s') \<longleftrightarrow>
     list_all ok ls \<and> identical (map ident ls) \<and> list_all (\<lambda>l. seen s = None \<or> seen s = ident l) ls"
  using assms
proof (induction bs ls arbitrary: s rule: list_induct2)
  case (Cons b bs l ls)
  show ?case
  proof (cases "judge b s l")
    case (Inl c)
    then have "\<not> (ok l \<and> (seen s = None \<or> seen s = ident l))" using accepts [OF Cons.prems, of b l] by simp
    with Inl show ?thesis by auto
  next
    case (Inr s1)
    then have ok: "ok l" "seen s = None \<or> seen s = ident l" using accepts [OF Cons.prems, of b l] by blast+
    have s1: "seen s1 = ident l" "inv s1" "ident l \<noteq> None"
      using remembers [OF Cons.prems Inr] identified [OF ok(1)] by auto
    then show ?thesis using Inr ok Cons.IH [OF s1(2)] by (cases ls) (auto simp: list_all_iff)
  qed
qed simp

lemma judge_logs_seen:
  assumes "length bs = length ls" and "judge_logs judge bs ls s = Inr s'" and "bs \<noteq> []" and "inv s"
  shows "seen s' \<noteq> None \<and> inv s'"
  using assms
proof (induction bs ls arbitrary: s rule: list_induct2)
  case (Cons b bs l ls)
  then obtain s1 where j: "judge b s l = Inr s1" by (auto split: sum.splits)
  then have "ok l" using accepts [OF Cons.prems(3), of b l] by blast
  with remembers [OF Cons.prems(3) j] identified have "seen s1 \<noteq> None \<and> inv s1" by metis
  with Cons j show ?case by (cases bs) (auto split: sum.splits)
qed simp

lemma passed_seen:
  assumes "run_boots capture header judge bs s0 w = (Done (Inr s'), w')" and "bs \<noteq> []" and "inv s0"
  shows "seen s' \<noteq> None \<and> inv s'"
  using assms judge_logs_seen capture_boots_length unfolding run_boots_accepts by metis

lemma passes_iff:
  assumes "seen s0 = None" and "inv s0"
  shows "(\<exists>s' w'. run_boots capture header judge bs s0 w = (Done (Inr s'), w')) \<longleftrightarrow>
     (\<exists>ls w'. capture_boots capture header bs w = (Done ls, w') \<and> list_all ok ls \<and> identical (map ident ls))"
proof -
  have "(\<exists>s'. judge_logs judge bs ls s0 = Inr s') \<longleftrightarrow> list_all ok ls \<and> identical (map ident ls)"
    if "capture_boots capture header bs w = (Done ls, w')" for ls w'
    using judge_logs_iff [of bs ls s0] capture_boots_length [OF that] assms by (simp add: list_all_iff)
  then show ?thesis unfolding run_boots_accepts by blast
qed

end

section \<open>The gates keep the contract\<close>

lemma same_as_iff: "same_as e i \<longleftrightarrow> e = None \<or> e = Some i"
  by (simp add: same_as_def)

lemma marker_lists_empty:
  "missing ms l = [] \<longleftrightarrow> list_all (\<lambda>m. py_in m l) ms" "forbidden ms l = [] \<longleftrightarrow> list_all (\<lambda>m. \<not> py_in m l) ms"
  by (simp_all add: missing_def forbidden_def filter_empty_conv list_all_iff)

definition markers_ok :: "string list \<Rightarrow> string list \<Rightarrow> string \<Rightarrow> bool" where
  "markers_ok required rejected l \<longleftrightarrow> list_all (\<lambda>m. py_in m l) required \<and> list_all (\<lambda>m. \<not> py_in m l) rejected"

definition handoff_ident :: "string \<Rightarrow> (string \<times> string) option" where
  "handoff_ident l = (case (group_of m2_crc_re l, group_of m2_token_re l) of
     (Some c, Some t) \<Rightarrow> Some (lower c, lower t) | _ \<Rightarrow> None)"

definition m2_ok :: "string \<Rightarrow> bool" where
  "m2_ok l \<longleftrightarrow> markers_ok M2_REQUIRED [''MICRONUX:M2:FAIL''] l \<and> handoff_ident l \<noteq> None"

definition m3_ok :: "string \<Rightarrow> bool" where
  "m3_ok l \<longleftrightarrow> markers_ok M3_REQUIRED M3_FORBIDDEN l \<and> payload_hashes l \<noteq> None"

definition m4_ok :: "string \<Rightarrow> bool" where
  "m4_ok l \<longleftrightarrow> markers_ok M4_REQUIRED M4_FORBIDDEN l \<and> payload_hashes l \<noteq> None \<and> parse_measurements l \<noteq> None"

text \<open>
  The console stress of M5: the lines number themselves from 0 to 63, and line \<open>k\<close> carries the
  \<open>k + 1\<close>-st iterate of the generator on its seed.
\<close>

definition console_ok :: "string \<Rightarrow> bool" where
  "console_ok l \<longleftrightarrow> map (int_str \<circ> fst) (console_matches l) = map int [0..<64] \<and>
     map (int \<circ> base_val 16 \<circ> snd) (console_matches l) = map (\<lambda>k. uint ((next_checksum ^^ Suc k) 0x6D696372)) [0..<64]"

definition memory_ok :: "int \<Rightarrow> string \<Rightarrow> bool" where
  "memory_ok limit l \<longleftrightarrow> (case m5_measurements l of None \<Rightarrow> False | Some (before, after, _) \<Rightarrow> before - after \<le> limit)"

definition m5_ok :: "int \<Rightarrow> string \<Rightarrow> bool" where
  "m5_ok limit l \<longleftrightarrow> markers_ok M5_REQUIRED M5_FORBIDDEN l \<and> payload_hashes l \<noteq> None \<and> memory_ok limit l \<and> console_ok l"

lemma check_console_iff:
  "check_console n c ms = Inr () \<longleftrightarrow> map (int_str \<circ> fst) ms = map int [n..<n + length ms] \<and>
     map (int \<circ> base_val 16 \<circ> snd) ms = map (\<lambda>k. uint ((next_checksum ^^ Suc k) c)) [0..<length ms]"
proof (induction ms arbitrary: n c)
  case (Cons m ms)
  obtain sq ck where m: "m = (sq, ck)" by (cases m)
  have up: "[n..<n + length ((sq, ck) # ms)] = n # [n + 1..<n + 1 + length ms]" by (subst upt_conv_Cons) simp_all
  have it: "map (\<lambda>k. uint ((next_checksum ^^ Suc k) c)) [0..<length ((sq, ck) # ms)] =
      uint (next_checksum c) # map (\<lambda>k. uint ((next_checksum ^^ Suc k) (next_checksum c))) [0..<length ms]"
    by (simp add: upt_conv_Cons map_Suc_upt [symmetric] funpow_swap1 del: upt_Suc)
  show ?case unfolding m up it by (auto simp: Let_def Cons.IH simp del: upt_Suc)
qed simp

lemma verify_console_iff: "verify_console l = Inr () \<longleftrightarrow> console_ok l"
proof -
  have "length (console_matches l) = 64" if "console_ok l"
  proof -
    have "length (map (int_str \<circ> fst) (console_matches l)) = length (map int [0..<64])"
      using that unfolding console_ok_def by presburger
    then show ?thesis by simp
  qed
  then show ?thesis
    by (auto simp: verify_console_def Let_def CONSOLE_LINES_def check_console_iff console_ok_def)
qed

interpretation m2: boot_gate m2_judge m2_ok handoff_ident id "\<lambda>_. True"
proof
  show "(\<exists>s'. m2_judge b s l = Inr s') \<longleftrightarrow> m2_ok l \<and> (id s = None \<or> id s = handoff_ident l)" for b s l
    by (cases s) (auto simp: m2_judge_def m2_ok_def Let_def marker_lists_empty markers_ok_def handoff_ident_def split: option.splits if_splits)
  show "id s' = handoff_ident l \<and> True" if "m2_judge b s l = Inr s'" for b s l s'
    using that by (auto simp: m2_judge_def Let_def handoff_ident_def split: option.splits if_splits)
qed (simp add: m2_ok_def)

interpretation m3: boot_gate m3_judge m3_ok payload_hashes id "\<lambda>_. True"
proof
  show "(\<exists>s'. m3_judge b s l = Inr s') \<longleftrightarrow> m3_ok l \<and> (id s = None \<or> id s = payload_hashes l)" for b s l
    by (auto simp: m3_judge_def m3_ok_def Let_def marker_lists_empty markers_ok_def same_as_iff split: option.splits)
  show "id s' = payload_hashes l \<and> True" if "m3_judge b s l = Inr s'" for b s l s'
    using that by (auto simp: m3_judge_def Let_def split: option.splits if_splits)
qed (simp add: m3_ok_def)

interpretation m4: boot_gate m4_judge m4_ok payload_hashes fst "\<lambda>_. True"
proof
  show "(\<exists>s'. m4_judge b s l = Inr s') \<longleftrightarrow> m4_ok l \<and> (fst s = None \<or> fst s = payload_hashes l)" for b s l
    by (cases s; cases "fst s") (auto simp: m4_judge_def m4_ok_def Let_def marker_lists_empty markers_ok_def same_as_iff split: option.splits)
  show "fst s' = payload_hashes l \<and> True" if "m4_judge b s l = Inr s'" for b s l s'
    using that by (cases s) (auto simp: m4_judge_def Let_def split: option.splits if_splits)
qed (simp add: m4_ok_def)

lemma verify_console_cases: "(case verify_console l of Inl e \<Rightarrow> Inl (f e) | Inr u \<Rightarrow> r) =
    (if console_ok l then r else Inl (f (case verify_console l of Inl e \<Rightarrow> e)))"
  using verify_console_iff [of l] by (auto split: sum.split)

interpretation m5: boot_gate "m5_judge limit" "m5_ok limit" payload_hashes fst "\<lambda>_. True" for limit
proof
  show "(\<exists>s'. m5_judge limit b s l = Inr s') \<longleftrightarrow> m5_ok limit l \<and> (fst s = None \<or> fst s = payload_hashes l)" for b s l
    by (cases s; cases "fst s") (auto simp: m5_judge_def m5_ok_def memory_ok_def Let_def marker_lists_empty markers_ok_def same_as_iff
        verify_console_cases split: option.splits)
  show "fst s' = payload_hashes l \<and> True" if "m5_judge limit b s l = Inr s'" for b s l s'
    using that by (cases s) (auto simp: m5_judge_def Let_def split: option.splits if_splits sum.splits)
qed (simp add: m5_ok_def)

section \<open>When a gate passes\<close>

lemma artifact_record_iff:
  "(\<exists>r. artifact_record name fs directory names = Inr r) \<longleftrightarrow> list_all (\<lambda>n. fs n \<noteq> None) names"
  unfolding artifact_record_def
proof (induction names)
  case (Cons n names)
  then show ?case by (auto split: option.split simp: rbind_def split: sum.splits)
qed simp

text \<open>After an accepted sequence of boots the gates print and return 0, and in no other way.\<close>

lemma after_boots:
  assumes "\<And>s' w1. run_boots capture header judge bs s w = (Done (Inr s'), w1) \<Longrightarrow> \<exists>w'. k s' w1 = (Done (0 :: int), w')"
  shows "(\<exists>w'. io_bind (run_boots capture header judge bs s) (\<lambda>r. case r of Inl code \<Rightarrow> io_return code | Inr s' \<Rightarrow> k s') w = (Done 0, w'))
    \<longleftrightarrow> (\<exists>s' w'. run_boots capture header judge bs s w = (Done (Inr s'), w'))"
proof (cases "run_boots capture header judge bs s w")
  case (Pair r w1)
  show ?thesis
  proof (cases r)
    case (Done x)
    then show ?thesis using Pair assms run_boots_status [of capture header judge bs s w]
      by (cases x) (auto simp: io_bind_def io_return_def)
  qed (use Pair in \<open>simp_all add: io_bind_def\<close>)
qed

lemma print_return: "\<exists>w'. io_then (py_print x) (io_return 0) w = (Done (0 :: int), w')"
  "\<exists>w'. io_then (py_print x) (io_then (py_print y) (io_return 0)) w = (Done (0 :: int), w')"
  by (simp_all add: io_then_def io_bind_def py_print_def io_return_def)

text \<open>The boots of a gate, captured and announced: what it judges.\<close>

definition m2_boots :: "int \<Rightarrow> rat \<Rightarrow> string list io" where
  "m2_boots boots timeout = capture_boots (m2_reset_and_capture timeout)
     (\<lambda>boot l. boot_header ''M2'' ''(no MicroNUX markers captured)'' (nat boots) boot (m2_marker_lines l)) [1..<Suc (nat boots)]"

definition m3_boots :: "string \<Rightarrow> string \<Rightarrow> int \<Rightarrow> rat \<Rightarrow> bool \<Rightarrow> string list io" where
  "m3_boots executable port boots timeout skip_reset = capture_boots (m3_reset_and_capture executable port timeout (\<not> skip_reset))
     (\<lambda>boot l. boot_header ''M3'' ''(no M3/Linux milestones captured)'' (nat boots) boot (m3_milestone_lines l)) [1..<Suc (nat boots)]"

definition m4_boots :: "string \<Rightarrow> string \<Rightarrow> int \<Rightarrow> rat \<Rightarrow> string list io" where
  "m4_boots executable port boots timeout = capture_boots (m4_reset_probe_and_capture executable port timeout)
     (\<lambda>boot l. boot_header ''M4'' ''(no M4/Linux milestones captured)'' (nat boots) boot (m4_milestone_lines l)) [1..<Suc (nat boots)]"

definition m5_boots :: "string \<Rightarrow> string \<Rightarrow> int \<Rightarrow> rat \<Rightarrow> string list io" where
  "m5_boots executable port boots timeout = capture_boots (m5_reset_probe_and_capture executable port timeout)
     (\<lambda>boot l. boot_header ''M5'' ''(no M5/Linux milestones captured)'' (nat boots) boot (m5_milestone_lines l)) [1..<Suc (nat boots)]"

text \<open>Every boot is accepted by itself, and nothing that identifies the payload changes.\<close>

definition repeats :: "string list io \<Rightarrow> (string \<Rightarrow> bool) \<Rightarrow> (string \<Rightarrow> 'i option) \<Rightarrow> world \<Rightarrow> bool" where
  "repeats run ok ident w \<longleftrightarrow> (case run w of (Done logs, _) \<Rightarrow> list_all ok logs \<and> identical (map ident logs) | _ \<Rightarrow> False)"

lemma repeats_iff:
  "repeats run ok ident w \<longleftrightarrow> (\<exists>logs w'. run w = (Done logs, w') \<and> list_all ok logs \<and> identical (map ident logs))"
  by (auto simp: repeats_def split: prod.splits outcome.splits)

lemma m2_main_iff:
  "(\<exists>w'. m2_main boots timeout w = (Done 0, w')) \<longleftrightarrow> 1 \<le> boots \<and> repeats (m2_boots boots timeout) m2_ok handoff_ident w"
proof (cases "boots < 1")
  case False
  have "id None = (None :: (string \<times> string) option)" by simp
  from m2.passes_iff [OF this TrueI] False show ?thesis
    unfolding m2_main_def if_not_P [OF False] repeats_iff m2_boots_def after_boots [OF print_return(1)] by (simp del: upt_Suc)
qed (simp add: m2_main_def io_raise_def)

lemma m3_gate_main_iff:
  "(\<exists>w'. m3_gate_main executable port boots timeout skip_reset w = (Done 0, w')) \<longleftrightarrow>
     1 \<le> boots \<and> (boots = 1 \<or> skip_reset = False) \<and> repeats (m3_boots executable port boots timeout skip_reset) m3_ok payload_hashes w"
proof (cases "boots < 1 \<or> skip_reset \<and> boots \<noteq> 1")
  case False
  then have main: "\<not> boots < 1" "\<not> (skip_reset \<and> boots \<noteq> 1)" by blast+
  have "id None = (None :: (string \<times> string) option)" by simp
  from m3.passes_iff [OF this TrueI] main show ?thesis
    unfolding m3_gate_main_def if_not_P [OF main(1)] if_not_P [OF main(2)] repeats_iff m3_boots_def after_boots [OF print_return(1)]
    by (auto simp del: upt_Suc)
qed (auto simp: m3_gate_main_def io_raise_def)

lemma m4_main_iff:
  "(\<exists>w'. m4_main executable port boots timeout fs directory w = (Done 0, w')) \<longleftrightarrow>
     1 \<le> boots \<and> list_all (\<lambda>n. fs n \<noteq> None) M4_ARTIFACTS \<and> repeats (m4_boots executable port boots timeout) m4_ok payload_hashes w"
proof (cases "artifact_record ''M4'' fs directory M4_ARTIFACTS")
  case (Inl e)
  then show ?thesis using artifact_record_iff [of "''M4''" fs directory M4_ARTIFACTS]
    by (auto simp: m4_main_def io_raise_def io_then_def io_bind_def py_print_def io_return_def)
next
  case (Inr a)
  then have files: "list_all (\<lambda>n. fs n \<noteq> None) M4_ARTIFACTS" using artifact_record_iff by blast
  show ?thesis
  proof (cases "boots < 1")
    case False
    have k: "\<exists>w'. (case s of (expected, measured) \<Rightarrow> io_then (py_print (f expected measured)) (io_then (py_print (g expected measured)) (io_return 0))) w = (Done (0 :: int), w')"
      for s :: m4_state and f g w by (cases s) (simp add: print_return)
    have s0: "fst (None, []) = (None :: (string \<times> string) option)" by simp
    from m4.passes_iff [OF s0 TrueI] False files show ?thesis
      unfolding m4_main_def if_not_P [OF False] Inr sum.case repeats_iff m4_boots_def after_boots [OF k] by (simp del: upt_Suc)
  qed (simp add: m4_main_def io_raise_def)
qed

lemma m5_main_iff:
  "(\<exists>w'. m5_main executable port boots timeout fs directory limit w = (Done 0, w')) \<longleftrightarrow>
     1 \<le> boots \<and> 0 \<le> limit \<and> list_all (\<lambda>n. fs n \<noteq> None) M5_ARTIFACTS \<and>
     repeats (m5_boots executable port boots timeout) (m5_ok limit) payload_hashes w"
proof (cases "artifact_record ''M5'' fs directory M5_ARTIFACTS")
  case (Inl e)
  then show ?thesis using artifact_record_iff [of "''M5''" fs directory M5_ARTIFACTS]
    by (auto simp: m5_main_def io_raise_def io_then_def io_bind_def py_print_def io_return_def)
next
  case (Inr a)
  then have files: "list_all (\<lambda>n. fs n \<noteq> None) M5_ARTIFACTS" using artifact_record_iff by blast
  show ?thesis
  proof (cases "boots < 1 \<or> limit < 0")
    case False
    then have main: "\<not> boots < 1" "\<not> limit < 0" by blast+
    have k: "\<exists>w'. (case s of (None, measured) \<Rightarrow> io_raise e
        | (Some (kernel_hash, dtb), measured) \<Rightarrow> io_then (py_print (f kernel_hash dtb measured))
            (io_then (py_print (g kernel_hash dtb measured)) (io_return 0))) w2 = (Done (0 :: int), w')"
      if "run_boots capture header (m5_judge limit) [1..<Suc (nat boots)] (None, []) w1 = (Done (Inr s), w2)"
      for s :: m5_state and e f g w1 w2 capture header
    proof -
      have "[1..<Suc (nat boots)] \<noteq> []" using main(1) by simp
      from m5.passed_seen [OF that this TrueI] show ?thesis by (cases s) (auto simp: print_return)
    qed
    have s0: "fst (None, []) = (None :: (string \<times> string) option)" by simp
    show ?thesis
      unfolding m5_main_def if_not_P [OF main(1)] if_not_P [OF main(2)] Inr sum.case repeats_iff m5_boots_def
      by (subst after_boots, erule k) (use m5.passes_iff [OF s0 TrueI] main files in \<open>simp del: upt_Suc\<close>)
  qed (auto simp: m5_main_def io_raise_def)
qed

text \<open>The contract can be met: a board that reports a handoff passes M2.\<close>

definition m2_example_log :: string where
  "m2_example_log = ''MICRONUX:M2:BOOT'' @ [newline] @ ''MICRONUX:M2:PSRAM '' @ [newline] @ ''MICRONUX:M2:PSRAM_TEST'' @ [newline] @
     ''MICRONUX:M2:KERNEL'' @ [newline] @ ''MICRONUX:M2:HANDOFF crc32=0123abCD'' @ [newline] @ ''MICRONUX:M2:JUMP'' @ [newline] @
     ''MICRONUX:M2:ENTRY'' @ [newline] @ ''MICRONUX:M2:PASS token=00c0ffee''"

lemma m2_example:
  "fst (m2_main 1 15 \<lparr>w_clock = [0, 1], w_clock_ns = [], w_reads = [Inr m2_example_log, Inr []], w_writes = [], w_opens = [Inr ()],
     w_controls = replicate 7 (Inr ()), w_processes = [], w_sent = [], w_printed = []\<rparr>) = Done 0"
  by code_simp

end
