(* ===== verification/M6_Gates.thy ===== *)
theory M6_Gates
  imports Boot_Gates
begin

text \<open>
  The boot gates of the sixth milestone: the microSD gate \<^verbatim>\<open>m6-test.py\<close>, which runs the M5
  self-test after a storage test, and the network gate \<^verbatim>\<open>m6-network-test.py\<close>.  Both have the
  shape of \<open>Boot_Gates\<close>, with a richer identity that the boots must repeat: the payload and the
  card (or its absence), and the payload, the functions of the network card and its address.
\<close>

section \<open>The microSD gate\<close>

definition M6_COMMON_REQUIRED_MARKERS :: "string list" where
  \<open>M6_COMMON_REQUIRED_MARKERS = [
     ''MICRONUX:M3:BOOT'',
     ''MICRONUX:M3:JUMP'',
     ''MICRONUX:M6:DSI state=disabled reason=profile-off'',
     ''MICRONUX:M4:IRQ source=22 matrix=500d6058 clic=16 handoff=armed'',
     ''MICRONUX:M6:SDMMC power=ldo4 voltage_mv=3300 slot=0 width=4'',
     ''MICRONUX:M6:DMA reserved=[4ff80000,4ff82000) desc=4ff80000 data=4ff81000 '' @
     ''uncached=8ff80000'',
     ''MICRONUX:M6:IRQ source=23 matrix=500d605c route=parked:31 irq=17:placeholder-polled '' @
     ''dma=idmac-sram-bounce handoff=armed'',
     ''Linux version 6.12.27'',
     ''Using internal DMA controller.'',
     ''ESP32-P4 synchronous-polled I/O enabled'',
     ''ESP32-P4 IDMAC internal-SRAM bounce: 4 KiB requests'',
     ''DW MMC controller at irq'',
     ''mmcblk0:'',
     ''console [ttyGS0] enabled'',
     ''USB Serial/JTAG ttyGS0'',
     ''MICRONUX:M6:SHELL ready console=ttyGS0 storage=microsd-idmac-sram-poll'',
     ''MICRONUX:M6:STORAGE raw-pass'',
     ''MICRONUX:M5:BASELINE'',
     ''MICRONUX:M5:RUN'',
     ''MICRONUX:M5:SIGNALS pass count=64'',
     ''MICRONUX:M5:TIMERS pass count=32'',
     ''MICRONUX:M5:EXEC pass count=64'',
     ''MICRONUX:M5:MEMORY pass kib=4096'',
     ''MICRONUX:M5:STACK pass depth=8'',
     ''MICRONUX:M5:CONSOLE seq=63'',
     ''MICRONUX:M5:PASS'',
     ''MICRONUX:M5:AFTER'',
     ''MICRONUX:M6:PROBE:DONE'']\<close>

definition M6_READ_REQUIRED_MARKERS :: "string list" where
  \<open>M6_READ_REQUIRED_MARKERS = [
     ''MICRONUX:M6:STORAGE begin mode=idmac-sram-poll access=read-only'',
     ''MICRONUX:M6:STORAGE:PASS mode=idmac-sram-poll access=read-only'']\<close>

definition M6_WRITE_REQUIRED_MARKERS :: "string list" where
  \<open>M6_WRITE_REQUIRED_MARKERS = [
     ''MICRONUX:M6:STORAGE begin mode=idmac-sram-poll access=write-test'',
     ''MICRONUX:M6:STORAGE write-pass bytes=41 '' @
     ''sha256=af8bdcde36e9c208ab7d846d87bfe9dadb51fccdf240f1214af2f4db232e2a36 cleanup=pass'',
     ''MICRONUX:M6:STORAGE:PASS mode=idmac-sram-poll access=write-tested cleanup=pass'']\<close>

definition M6_FORBIDDEN_MARKERS :: "string list" where
  \<open>M6_FORBIDDEN_MARKERS = [
     ''MICRONUX:M3:FAIL'',
     ''MICRONUX:M4:FAIL'',
     ''MICRONUX:M5:FAIL'',
     ''MICRONUX:M6:FAIL'',
     ''MICRONUX:M6:STORAGE:FAIL'',
     ''Kernel panic'',
     ''Oops:'',
     ''BUG:'',
     ''Unhandled'',
     ''unhandled signal'',
     ''timer stall'',
     ''stack smashing detected'',
     ''can'' @ [CHR 0x27] @ ''t open /dev/ttyGS0'']\<close>

definition M6_COMMON_MEDIA_REQUIRED_MARKERS :: "string list" where
  \<open>M6_COMMON_MEDIA_REQUIRED_MARKERS = [
     ''mmcblk0:'',
     ''MICRONUX:M6:STORAGE raw-pass'']\<close>

definition M6_M5_LINES :: "string list" where
  \<open>M6_M5_LINES = [
     ''TAG=BASELINE; echo MICRONUX:M5:$TAG'' @ [CHR 0x0A],
     ''cat /proc/meminfo'' @ [CHR 0x0A],
     ''TAG=RUN; echo MICRONUX:M5:$TAG'' @ [CHR 0x0A],
     ''/usr/bin/micronux-selftest'' @ [CHR 0x0A]]\<close>

definition M6_FINISH_LINES :: "string list" where
  \<open>M6_FINISH_LINES = [
     ''TAG=AFTER; echo MICRONUX:M5:$TAG'' @ [CHR 0x0A],
     ''cat /proc/meminfo'' @ [CHR 0x0A],
     ''TAG=DONE; echo MICRONUX:M6:PROBE:$TAG'' @ [CHR 0x0A]]\<close>

definition m6_release :: "unit io" where
  "m6_release = io_then dev_control (io_then dev_control (io_then dev_control (io_then dev_control dev_control)))"

definition no_card_in :: "string \<Rightarrow> bool" where
  "no_card_in console = py_in ''MICRONUX:M6:STORAGE:FAIL stage=no-card'' console"

definition storage_command :: "bool \<Rightarrow> string" where
  "storage_command write_test = ''/usr/bin/micronux-storage-test'' @ (if write_test then '' --write-test'' else []) @ [newline]"

type_synonym m6_capture = "string \<times> bool \<times> bool \<times> bool \<times> rat option"

definition m6_capture_body :: "bool \<Rightarrow> bool \<Rightarrow> rat \<Rightarrow> m6_capture \<Rightarrow> (m6_capture + string) io" where
  "m6_capture_body allow_no_card write_test deadline = (\<lambda>(captured, was_storage, was_m5, was_finished, done_seen_at).
     io_bind monotonic (\<lambda>now.
     if now < deadline
     then io_bind dev_read (\<lambda>chunk. let text = captured @ chunk;
           storage_now = \<not> was_storage \<and> py_in ''MICRONUX:M6:SHELL ready'' text \<and> (allow_no_card \<or> py_in ''mmcblk0:'' text);
           storage_started = was_storage \<or> storage_now;
           m5_now = storage_started \<and> \<not> was_m5 \<and> (py_in ''MICRONUX:M6:STORAGE:PASS'' text \<or> (allow_no_card \<and> no_card_in text));
           m5_started = was_m5 \<or> m5_now;
           finish_now = m5_started \<and> \<not> was_finished \<and> py_search m5_passed_re text \<noteq> None;
           finished = was_finished \<or> finish_now;
           rejected = (py_in ''MICRONUX:M6:STORAGE:FAIL'' text \<and> \<not> (allow_no_card \<and> no_card_in text)) \<or> py_in ''Kernel panic'' text in
       io_then (if storage_now then write_lines [storage_command write_test] else io_return ())
       (io_then (if m5_now then write_lines M6_M5_LINES else io_return ())
       (io_then (if finish_now then write_lines M6_FINISH_LINES else io_return ())
       (io_bind (if finished \<and> py_in ''MICRONUX:M6:PROBE:DONE'' text then linger done_seen_at else io_return (Inl done_seen_at)) (\<lambda>r.
        case r of
          Inr _ \<Rightarrow> io_return (Inr text)
        | Inl seen \<Rightarrow> if rejected then io_return (Inr text)
            else io_return (Inl (text, storage_started, m5_started, finished, seen)))))))
     else io_return (Inr captured)))"

definition m6_reset_probe_and_capture :: "string \<Rightarrow> string \<Rightarrow> rat \<Rightarrow> bool \<Rightarrow> bool \<Rightarrow> string io" where
  "m6_reset_probe_and_capture executable port timeout allow_no_card write_test =
     io_then (esptool_reset executable port) (io_then dev_open (io_finally
       (io_then dev_control (io_bind monotonic (\<lambda>now.
         io_loop (m6_capture_body allow_no_card write_test (now + timeout)) ([], False, False, False, None))))
       m6_release))"

definition M6_ARTIFACTS :: "string list" where
  "M6_ARTIFACTS = [''Image'', ''rootfs.cpio'', ''esp32p4-micronux.dtb'', ''metadata.bin'', ''micronux-selftest'',
     ''micronux-exec-child'', ''micronux-storage-test'']"

definition m6_milestone_lines :: "string \<Rightarrow> string list" where
  "m6_milestone_lines console = lines_with (\<lambda>line.
     \<not> (py_in ''MICRONUX:M5:CONSOLE'' line \<and> \<not> (py_in ''seq=0 '' line \<or> py_in ''seq=63 '' line)) \<and>
     list_ex (\<lambda>x. py_in x line)
       [''MICRONUX:M3:KERNEL'', ''MICRONUX:M3:DTB'', ''MICRONUX:M6:'', ''MICRONUX:M5:'', ''Linux version'',
        ''Using internal DMA controller'', ''synchronous-polled I/O'', ''IDMAC internal-SRAM bounce'', ''DW MMC controller'',
        ''mmc0:'', ''mmcblk0:'', ''console [ttyGS0]'', ''USB Serial/JTAG ttyGS0'', ''MemFree:'']) console"

definition storage_re :: regex where
  "storage_re = Cats [Lit ''MICRONUX:M6:STORAGE raw-pass sectors='', Grp ''1'' (Plus digit),
     Lit '' bytes=1048576 sha256='', Grp ''2'' (lowerhex_run 64)]"

definition storage_measurements :: "string \<Rightarrow> (int \<times> string) option" where
  "storage_measurements console = map_option (\<lambda>(_, _, gs). (int_str (fst (pair_of gs)), snd (pair_of gs))) (py_search storage_re console)"

definition m6_storage_required :: "bool \<Rightarrow> string list" where
  "m6_storage_required write_test = (if write_test then M6_WRITE_REQUIRED_MARKERS else M6_READ_REQUIRED_MARKERS)"

definition m6_missing :: "bool \<Rightarrow> bool \<Rightarrow> string \<Rightarrow> string list" where
  "m6_missing allow_no_card write_test console =
     (let allowed_missing = (if allow_no_card \<and> no_card_in console
          then M6_COMMON_MEDIA_REQUIRED_MARKERS @ [last (m6_storage_required write_test)] else []) in
      filter (\<lambda>marker. \<not> py_in marker console \<and> marker \<notin> set allowed_missing)
        (M6_COMMON_REQUIRED_MARKERS @ m6_storage_required write_test))"

definition m6_forbidden :: "bool \<Rightarrow> string \<Rightarrow> string list" where
  "m6_forbidden allow_no_card console = filter (\<lambda>marker. py_in marker console \<and>
     \<not> (allow_no_card \<and> no_card_in console \<and> marker = ''MICRONUX:M6:STORAGE:FAIL'')) M6_FORBIDDEN_MARKERS"

type_synonym card = "int \<times> string"
type_synonym m6_state = "(string \<times> string) option \<times> card option \<times> string option \<times> (int \<times> int \<times> int) list"

definition media_of :: "string \<Rightarrow> string" where
  "media_of console = (if no_card_in console then ''no-card'' else ''card'')"

definition m6_judge :: "bool \<Rightarrow> bool \<Rightarrow> int \<Rightarrow> m6_state judging" where
  "m6_judge allow_no_card write_test max_memory_loss_kib boot = (\<lambda>(expected_payload, expected_card, media_state, measured) console.
     (let miss = m6_missing allow_no_card write_test console; forb = m6_forbidden allow_no_card console;
          name = ''M6 boot '' @ str_nat boot in
      if miss \<noteq> [] \<or> forb \<noteq> [] then Inl (marker_complaint ''M6'' boot console miss forb)
      else case payload_hashes console of None \<Rightarrow> Inl [name @ '': boot did not report payload hashes'']
      | Some payload \<Rightarrow>
        if \<not> no_card_in console \<and> storage_measurements console = None
        then Inl [name @ '': storage test did not report raw-read metrics'']
        else let card = (if no_card_in console then None else storage_measurements console) in
        case m5_measurements console of
          None \<Rightarrow> Inl [name @ '': M5 regression did not report memory and elapsed metrics'']
        | Some (memory_before, memory_after, elapsed_ms) \<Rightarrow> (case verify_console console of
            Inl e \<Rightarrow> Inl [name @ '': '' @ error_message e]
          | Inr _ \<Rightarrow>
              if \<not> same_as expected_payload payload then Inl [''M6 payload changed across reset boot '' @ str_nat boot]
              else if \<not> same_as media_state (media_of console) then Inl [''M6 media state changed across reset boot '' @ str_nat boot]
              else if card \<noteq> None \<and> expected_card \<noteq> None \<and> card \<noteq> expected_card
              then Inl [''M6 card read changed across reset boot '' @ str_nat boot]
              else if memory_before - memory_after > max_memory_loss_kib
              then Inl [name @ '': M5 memory loss '' @ str_int (memory_before - memory_after) @ '' KiB exceeds '' @
                str_int max_memory_loss_kib @ '' KiB'']
              else Inr (Some payload, if card = None then expected_card else card, Some (media_of console),
                measured @ [(memory_before, memory_after, elapsed_ms)]))))"

definition m6_summary :: "int \<Rightarrow> bool \<Rightarrow> m6_state \<Rightarrow> string" where
  "m6_summary boots write_test = (\<lambda>(expected_payload, expected_card, media_state, measured).
     (case expected_card of
        None \<Rightarrow> ''M6 controller-only gate passed: boots='' @ str_int boots @ '' mode=idmac-sram-poll media=not-tested reason=no-card''
      | Some (sectors, digest) \<Rightarrow> ''M6 hardware gate passed: boots='' @ str_int boots @ '' mode=idmac-sram-poll access='' @
          (if write_test then ''write-tested'' else ''read-only'') @ '' card_sectors='' @ str_int sectors @ '' sample_sha256='' @ digest) @
     '' m5_exec_per_boot=64 m5_elapsed_ms='' @ join '','' (map (str_int \<circ> snd \<circ> snd) measured) @
     '' mem_before_kib='' @ join '','' (map (str_int \<circ> fst) measured) @
     '' mem_after_kib='' @ join '','' (map (str_int \<circ> fst \<circ> snd) measured) @ hashes_text expected_payload)"

definition m6_header :: "int \<Rightarrow> nat \<Rightarrow> string \<Rightarrow> string list" where
  "m6_header boots boot console = boot_header ''M6'' ''(no M6/Linux milestones captured)'' (nat boots) boot (m6_milestone_lines console)"

definition m6_main :: "string \<Rightarrow> string \<Rightarrow> int \<Rightarrow> rat \<Rightarrow> files \<Rightarrow> string \<Rightarrow> int \<Rightarrow> bool \<Rightarrow> bool \<Rightarrow> int io" where
  "m6_main executable port boots timeout fs directory max_memory_loss_kib allow_no_card write_test =
     (if boots < 1 then io_raise (SystemExit ''--boots must be at least 1'')
      else if max_memory_loss_kib < 0 then io_raise (SystemExit ''--max-memory-loss-kib cannot be negative'')
      else if write_test \<and> boots \<noteq> 1 then io_raise (SystemExit ''--write-test requires --boots 1'')
      else if write_test \<and> allow_no_card then io_raise (SystemExit ''--write-test cannot be combined with --allow-no-card'')
      else case artifact_record ''M6'' fs directory M6_ARTIFACTS of
        Inl e \<Rightarrow> io_then (py_print (error_message e)) (io_return 1)
      | Inr artifacts \<Rightarrow> io_bind (run_boots (m6_reset_probe_and_capture executable port timeout allow_no_card write_test)
          (m6_header boots) (m6_judge allow_no_card write_test max_memory_loss_kib) [1..<Suc (nat boots)] (None, None, None, [])) (\<lambda>r. case r of
        Inl code \<Rightarrow> io_return code
      | Inr s \<Rightarrow> if fst s = None then io_raise (AssertionError [])
          else io_then (py_print (''M6 artifacts: '' @ artifacts)) (io_then (py_print (m6_summary boots write_test s)) (io_return 0))))"

section \<open>The network gate\<close>

definition NET_REQUIRED_MARKERS :: "string list" where
  \<open>NET_REQUIRED_MARKERS = [
     ''MICRONUX:M3:BOOT'',
     ''MICRONUX:M3:JUMP'',
     ''MICRONUX:M6:DSI state=disabled reason=profile-off'',
     ''MICRONUX:M6:NET transport=sdio slot=1 width=4'',
     ''Linux version 6.12.27'',
     ''ESP32-P4 synchronous-polled I/O enabled'',
     ''DW MMC controller at irq'',
     ''MCU firmware version: 2.11.5'',
     ''MICRONUX:M6:NET:DRIVER stack=esp-hosted-fg mode=builtin transport=sdio bluetooth=off'',
     ''MICRONUX:M6:NET:IFACE state=ready name=ethsta0'',
     ''MICRONUX:M6:NET:SHELL ready'',
     ''MICRONUX:M6:NET:PROBE:DONE'',
     ''MICRONUX:M6:NET:UP name=ethsta0'',
     ''MICRONUX:M6:NET:CONTROL:DONE'']\<close>

definition NET_CONTROL_REQUIRED_MARKERS :: "string list" where
  \<open>NET_CONTROL_REQUIRED_MARKERS = [
     ''MICRONUX:M6:NET:UP:RC=0'']\<close>

definition NET_FORBIDDEN_MARKERS :: "string list" where
  \<open>NET_FORBIDDEN_MARKERS = [
     ''MICRONUX:M3:FAIL'',
     ''MICRONUX:M4:FAIL'',
     ''MICRONUX:M6:NET:FAIL'',
     ''Kernel panic'',
     ''Oops:'',
     ''BUG:'',
     ''Unhandled'',
     ''Drop invalid aggregate pkt'']\<close>

definition NET_ONLINE_REQUIRED_MARKERS :: "string list" where
  \<open>NET_ONLINE_REQUIRED_MARKERS = [
     ''MICRONUX:M6:NET:ONLINE state=ready name=ethsta0'',
     ''MICRONUX:M6:NET:ONLINE:RC=0'',
     ''default via '',
     ''nameserver '',
     ''1.1.1.1 is alive!'',
     ''MICRONUX:M6:NET:PING4:RC=0'',
     ''example.com is alive!'',
     ''MICRONUX:M6:NET:DNS:RC=0'',
     ''MICRONUX:M6:NET:ONLINE:DONE'']\<close>

definition NET_CONTROL_PREFIX :: string where
  \<open>NET_CONTROL_PREFIX =
     ''for D in /sys/bus/sdio/devices/*; do echo MICRONUX:M6:NET:SDIO path=${D##*/}; for F '' @
     ''in vendor device class modalias; do printf '' @ [CHR 0x27] @ ''MICRONUX:M6:NET:SDIO %s='' @
     [CHR 0x27] @ '' $F; cat $D/$F; done; done; echo MICRONUX:M6:NET:PROBE:DONE; ''\<close>

definition NET_CONTROL_UP :: string where
  \<open>NET_CONTROL_UP =
     ''micronux-netctl up; echo MICRONUX:M6:NET:UP:RC=$?; ''\<close>

definition NET_ONLINE_CONTROL :: string where
  \<open>NET_ONLINE_CONTROL =
     ''micronux-online; echo MICRONUX:M6:NET:ONLINE:RC=$?; ip -4 addr show dev ethsta0; ip '' @
     ''route; cat /etc/resolv.conf; /bin/busybox timeout 6 /bin/busybox ping 1.1.1.1; echo '' @
     ''MICRONUX:M6:NET:PING4:RC=$?; /bin/busybox timeout 6 /bin/busybox ping example.com; '' @
     ''echo MICRONUX:M6:NET:DNS:RC=$?; echo MICRONUX:M6:NET:ONLINE:DONE; ''\<close>

definition sdio_card_re :: regex where
  "sdio_card_re = Cats [Lit ''mmc0: new'', Opt (Cats [Lit '' '', Plus (Cls (\<lambda>c. c \<noteq> newline))]),
     Lit '' SDIO card at address '', Grp ''1'' (lowerhex_run 4)]"

definition control_line :: "bool \<Rightarrow> string" where
  "control_line online = NET_CONTROL_PREFIX @ (if online then NET_ONLINE_CONTROL else NET_CONTROL_UP) @
     ''ip link show ethsta0; '' @ ''echo MICRONUX:M6:NET:CONTROL:DONE'' @ [newline]"

definition control_done_re :: regex where
  "control_done_re = Cats [Alt Bos (Cat (Opt (Lit [carriage_return])) (Lit [newline])), Lit ''MICRONUX:M6:NET:CONTROL:DONE'',
     Opt (Lit [carriage_return]), Alt (Lit [newline]) Eos]"

definition net_capture_body :: "bool \<Rightarrow> rat \<Rightarrow> string \<times> bool \<times> rat option \<Rightarrow> (string \<times> bool \<times> rat option + string) io" where
  "net_capture_body online deadline = (\<lambda>(captured, was_sent, done_seen_at). io_bind monotonic (\<lambda>now.
     if now < deadline
     then io_bind dev_read (\<lambda>chunk. let text = captured @ chunk;
           probe = \<not> was_sent \<and> py_in ''MICRONUX:M6:NET:SHELL ready'' text \<and> py_search sdio_card_re text \<noteq> None;
           probe_sent = was_sent \<or> probe in
       io_then (if probe then write_lines [control_line online] else io_return ())
       (io_bind (if probe_sent \<and> py_search control_done_re text \<noteq> None then linger done_seen_at else io_return (Inl done_seen_at)) (\<lambda>r.
        case r of
          Inr _ \<Rightarrow> io_return (Inr text)
        | Inl seen \<Rightarrow> if list_ex (\<lambda>marker. py_in marker text) NET_FORBIDDEN_MARKERS then io_return (Inr text)
            else io_return (Inl (text, probe_sent, seen)))))
     else io_return (Inr captured)))"

definition capture_boot :: "string \<Rightarrow> string \<Rightarrow> rat \<Rightarrow> bool \<Rightarrow> string io" where
  "capture_boot executable port timeout online =
     io_then (esptool_reset executable port) (io_then dev_open (io_finally
       (io_then dev_control (io_bind monotonic (\<lambda>now. io_loop (net_capture_body online (now + timeout)) ([], False, None))))
       m6_release))"

definition NET_ARTIFACTS :: "string list" where
  "NET_ARTIFACTS = [''Image'', ''esp32p4-micronux.dtb'', ''metadata.bin'', ''rootfs.cpio'']"

definition sdio_field :: regex where
  "sdio_field = Plus (Cls (\<lambda>c. c \<noteq> carriage_return \<and> c \<noteq> newline \<and> c \<noteq> CHR '' ''))"

definition sdio_functions_re :: regex where
  "sdio_functions_re = (let eol = Cat (Opt (Lit [carriage_return])) (Lit [newline]) in
     Cats [Lit ''MICRONUX:M6:NET:SDIO path='', Grp ''1'' sdio_field, eol, Lit ''MICRONUX:M6:NET:SDIO vendor='', Grp ''2'' sdio_field, eol,
       Lit ''MICRONUX:M6:NET:SDIO device='', Grp ''3'' sdio_field, eol, Lit ''MICRONUX:M6:NET:SDIO class='', Grp ''4'' sdio_field, eol,
       Lit ''MICRONUX:M6:NET:SDIO modalias='', Grp ''5'' sdio_field])"

definition sdio_identity :: "string \<Rightarrow> string list list result" where
  "sdio_identity console = (let functions = map (map snd) (groups_of sdio_functions_re console) in
     if py_search sdio_card_re console = None \<or> functions = []
     then Inl (ValueError ''C6 SDIO card/function identity was incomplete'') else Inr functions)"

definition mac_pattern :: regex where
  "mac_pattern = Grp ''1'' (Cat (lowerhex_run 2) (Rep 5 (Cat (Lit '':'') (lowerhex_run 2))))"

fun split_comma :: "string \<Rightarrow> string list" where
  "split_comma [] = [[]]"
| "split_comma (c # cs) = (if c = CHR '','' then [] # split_comma cs
     else case split_comma cs of [] \<Rightarrow> [[c]] | w # ws \<Rightarrow> (c # w) # ws)"

definition control_identity :: "string \<Rightarrow> string result" where
  "control_identity console =
     (let up = group_of (Cat (Lit ''MICRONUX:M6:NET:UP name=ethsta0 mac='') mac_pattern) console;
          links = map (\<lambda>gs. snd (hd gs)) (groups_of (Cat (Lit ''link/ether '') mac_pattern) console);
          flag_sets = map (\<lambda>gs. snd (hd gs)) (groups_of (Cats [Lit ''ethsta0: <'', Grp ''1'' (Plus (Cls (\<lambda>c. c \<noteq> CHR ''>''))), Lit ''>'']) console) in
      case up of None \<Rightarrow> Inl (ValueError ''C6 RPC/link identity was incomplete'')
      | Some mac \<Rightarrow>
          if links = [] \<or> flag_sets = [] then Inl (ValueError ''C6 RPC/link identity was incomplete'')
          else if mac \<noteq> last links then Inl (ValueError ''C6 RPC/link MAC addresses did not agree'')
          else if \<not> list_all (\<lambda>flag. flag \<in> set (split_comma (last flag_sets))) [''UP'', ''LOWER_UP'']
          then Inl (ValueError ''ethsta0 did not reach UP,LOWER_UP'')
          else Inr mac)"

definition net_milestone_lines :: "string \<Rightarrow> string list" where
  "net_milestone_lines console = lines_with (\<lambda>line. list_ex (\<lambda>x. py_in x line)
     [''MICRONUX:M3:KERNEL'', ''MICRONUX:M3:DTB'', ''MICRONUX:M6:DSI'', ''MICRONUX:M6:NET'', ''Linux version'', ''synchronous-polled I/O'',
      ''DW MMC controller'', ''mmc0:'', ''console [ttyGS0]'', ''MCU firmware version'']) console"

type_synonym net_identity = "(string \<times> string) \<times> string list list \<times> string"

definition net_required :: "bool \<Rightarrow> string list" where
  "net_required online = NET_REQUIRED_MARKERS @ (if online then NET_ONLINE_REQUIRED_MARKERS else NET_CONTROL_REQUIRED_MARKERS)"

definition net_evidence :: "string \<Rightarrow> net_identity result" where
  "net_evidence console = (case payload_hashes console of
     None \<Rightarrow> Inl (ValueError ''boot did not report payload hashes'')
   | Some payload \<Rightarrow> rbind (sdio_identity console) (\<lambda>identity. rbind (control_identity console) (\<lambda>mac. Inr (payload, identity, mac))))"

definition net_judge :: "bool \<Rightarrow> net_identity option judging" where
  "net_judge online boot expected console =
     (let miss = missing (net_required online) console; forb = forbidden NET_FORBIDDEN_MARKERS console in
      if miss \<noteq> [] \<or> forb \<noteq> [] then Inl (marker_complaint ''network'' boot console miss forb)
      else case net_evidence console of
        Inl e \<Rightarrow> Inl [''network boot '' @ str_nat boot @ '': '' @ error_message e]
      | Inr identity \<Rightarrow> if same_as expected identity then Inr (Some identity)
          else Inl [''network identity changed across reset boot '' @ str_nat boot])"

definition net_timeout :: "rat option \<Rightarrow> bool \<Rightarrow> rat" where
  "net_timeout timeout online = (case timeout of Some t \<Rightarrow> t | None \<Rightarrow> if online then 420 else 120)"

definition net_header :: "int \<Rightarrow> nat \<Rightarrow> string \<Rightarrow> string list" where
  "net_header boots boot console = boot_header ''M6 network'' ''(no network/Linux milestones captured)'' (nat boots) boot (net_milestone_lines console)"

definition net_main :: "string \<Rightarrow> string \<Rightarrow> int \<Rightarrow> rat option \<Rightarrow> files \<Rightarrow> string \<Rightarrow> bool \<Rightarrow> int io" where
  "net_main executable port boots timeout fs directory online =
     (if boots < 1 then io_raise (SystemExit ''--boots must be at least 1'')
      else if net_timeout timeout online \<le> 0 then io_raise (SystemExit ''--timeout must be greater than zero'')
      else case artifact_record ''M6 network'' fs directory NET_ARTIFACTS of
        Inl e \<Rightarrow> io_then (py_print (error_message e)) (io_return 1)
      | Inr artifacts \<Rightarrow> io_bind (run_boots (capture_boot executable port (net_timeout timeout online) online)
          (net_header boots) (net_judge online) [1..<Suc (nat boots)] None) (\<lambda>r. case r of
        Inl code \<Rightarrow> io_return code
      | Inr None \<Rightarrow> io_raise (AssertionError [])
      | Inr (Some (payload, identity, mac)) \<Rightarrow> io_then (py_print (''M6 network artifacts: '' @ artifacts)) (io_then
          (py_print (''M6 C6 SDIO/RPC/link gate passed: boots='' @ str_int boots @ '' functions='' @ join '','' (map (join '':'') identity) @
            '' mac='' @ mac @ hashes_text (Some payload)))
          (io_then (if online then py_print (''M6 C6 association/DHCP/IPv4/DNS gate passed: boots='' @ str_int boots) else io_return ())
          (io_return 0)))))"

section \<open>The gates keep the contract\<close>

lemma m6_capture_asks:
  "asks_clock (m6_capture_body allow_no_card write_test deadline s)" "asks_clock (net_capture_body online deadline t)"
  unfolding m6_capture_body_def net_capture_body_def linger_def linger_for_def case_prod_beta
  by (intro asks_clock_monotonic clock_intros)+

lemmas m6_loop_unfold = m6_capture_asks [THEN io_loop_unfold]

text \<open>
  The log of a boot without a card may miss the markers of the card and show the failure of the storage
  test, when that is allowed.
\<close>

definition card_of :: "string \<Rightarrow> card option" where
  "card_of l = (if no_card_in l then None else storage_measurements l)"

definition m6_ok :: "bool \<Rightarrow> bool \<Rightarrow> int \<Rightarrow> string \<Rightarrow> bool" where
  "m6_ok allow_no_card write_test limit l \<longleftrightarrow>
     (let excused = allow_no_card \<and> no_card_in l in
      list_all (\<lambda>m. py_in m l \<or> (excused \<and> m \<in> set (M6_COMMON_MEDIA_REQUIRED_MARKERS @ [last (m6_storage_required write_test)])))
        (M6_COMMON_REQUIRED_MARKERS @ m6_storage_required write_test) \<and>
      list_all (\<lambda>m. if py_in m l then excused \<and> m = ''MICRONUX:M6:STORAGE:FAIL'' else True) M6_FORBIDDEN_MARKERS) \<and>
     payload_hashes l \<noteq> None \<and> (no_card_in l \<or> card_of l \<noteq> None) \<and> memory_ok limit l \<and> console_ok l"

definition m6_ident :: "string \<Rightarrow> ((string \<times> string) \<times> card option) option" where
  "m6_ident l = map_option (\<lambda>payload. (payload, card_of l)) (payload_hashes l)"

definition m6_seen :: "m6_state \<Rightarrow> ((string \<times> string) \<times> card option) option" where
  "m6_seen = (\<lambda>(payload, card, media, measured). map_option (\<lambda>p. (p, card)) payload)"

definition m6_agrees :: "m6_state \<Rightarrow> bool" where
  "m6_agrees = (\<lambda>(payload, card, media, measured).
     if payload = None then card = None \<and> media = None
     else media = Some (if card = None then ''no-card'' else ''card''))"

lemma m6_markers:
  "m6_missing allow_no_card write_test l = [] \<longleftrightarrow>
     list_all (\<lambda>m. py_in m l \<or> (allow_no_card \<and> no_card_in l \<and>
         m \<in> set (M6_COMMON_MEDIA_REQUIRED_MARKERS @ [last (m6_storage_required write_test)])))
       (M6_COMMON_REQUIRED_MARKERS @ m6_storage_required write_test)"
  "m6_forbidden allow_no_card l = [] \<longleftrightarrow>
     list_all (\<lambda>m. if py_in m l then allow_no_card \<and> no_card_in l \<and> m = ''MICRONUX:M6:STORAGE:FAIL'' else True) M6_FORBIDDEN_MARKERS"
  unfolding m6_missing_def m6_forbidden_def Let_def filter_empty_conv list_all_iff by (auto split: if_splits)

text \<open>The part of the judgement that concerns the log alone, and the part that compares it.\<close>

definition m6_same :: "m6_state \<Rightarrow> string \<Rightarrow> bool" where
  "m6_same = (\<lambda>(expected_payload, expected_card, media_state, measured) l.
     (case payload_hashes l of None \<Rightarrow> False | Some payload \<Rightarrow> same_as expected_payload payload) \<and>
     same_as media_state (media_of l) \<and> (card_of l = None \<or> expected_card = None \<or> card_of l = expected_card))"

lemma m6_ok_iff:
  "m6_ok allow_no_card write_test limit l \<longleftrightarrow> m6_missing allow_no_card write_test l = [] \<and> m6_forbidden allow_no_card l = [] \<and>
     payload_hashes l \<noteq> None \<and> (no_card_in l \<or> card_of l \<noteq> None) \<and> memory_ok limit l \<and> console_ok l"
  by (simp only: m6_ok_def m6_markers Let_def conj_assoc)

lemma m6_judge_Inr:
  "m6_judge allow_no_card write_test limit boot s l = Inr s' \<longleftrightarrow>
     m6_ok allow_no_card write_test limit l \<and> m6_same s l \<and>
     s' = (payload_hashes l, if card_of l = None then fst (snd s) else card_of l, Some (media_of l),
       snd (snd (snd s)) @ [the (m5_measurements l)])"
  unfolding m6_ok_iff
  by (cases s; cases "fst (snd s)") (auto simp: m6_judge_def m6_same_def Let_def card_of_def memory_ok_def verify_console_cases split: option.splits if_splits)

lemma m6_same_iff:
  assumes "m6_agrees s" and "m6_ok allow_no_card write_test limit l"
  shows "m6_same s l \<longleftrightarrow> m6_seen s = None \<or> m6_seen s = m6_ident l"
proof -
  obtain p c d e where s: "s = (p, c, d, e)" by (cases s)
  have card: "card_of l = None \<longleftrightarrow> no_card_in l" using assms(2) by (auto simp: m6_ok_def card_of_def)
  show ?thesis using assms(1) card
    by (cases p; cases "payload_hashes l") (use assms(2) in
        \<open>auto simp: s m6_agrees_def m6_same_def m6_seen_def m6_ident_def same_as_iff media_of_def m6_ok_def split: if_splits\<close>)
qed

interpretation m6: boot_gate "m6_judge allow_no_card write_test limit" "m6_ok allow_no_card write_test limit" m6_ident m6_seen m6_agrees
  for allow_no_card write_test limit
proof
  show "(\<exists>s'. m6_judge allow_no_card write_test limit b s l = Inr s') \<longleftrightarrow>
      m6_ok allow_no_card write_test limit l \<and> (m6_seen s = None \<or> m6_seen s = m6_ident l)" if "m6_agrees s" for b s l
    using m6_same_iff [OF that, of allow_no_card write_test limit l] unfolding m6_judge_Inr by blast
  show "m6_seen s' = m6_ident l \<and> m6_agrees s'"
    if "m6_agrees s" and "m6_judge allow_no_card write_test limit b s l = Inr s'" for b s l s'
  proof -
    from that(2) have j: "m6_ok allow_no_card write_test limit l" "m6_same s l"
      "s' = (payload_hashes l, if card_of l = None then fst (snd s) else card_of l, Some (media_of l),
         snd (snd (snd s)) @ [the (m5_measurements l)])" unfolding m6_judge_Inr by blast+
    have card: "card_of l = None \<longleftrightarrow> no_card_in l" using j(1) by (auto simp: m6_ok_def card_of_def)
    have "fst (snd s) = None" if "card_of l = None"
      using that j(2) \<open>m6_agrees s\<close> card by (cases s) (auto simp: m6_same_def m6_agrees_def same_as_iff media_of_def split: if_splits)
    then show ?thesis using j(1,3) card
      by (auto simp: m6_seen_def m6_ident_def m6_agrees_def media_of_def m6_ok_def split: option.splits)
  qed
qed (auto simp: m6_ok_def m6_ident_def)

definition net_ident :: "string \<Rightarrow> net_identity option" where
  "net_ident l = (case net_evidence l of Inl _ \<Rightarrow> None | Inr i \<Rightarrow> Some i)"

definition net_ok :: "bool \<Rightarrow> string \<Rightarrow> bool" where
  "net_ok online l \<longleftrightarrow> markers_ok (net_required online) NET_FORBIDDEN_MARKERS l \<and> net_ident l \<noteq> None"

interpretation net: boot_gate "net_judge online" "net_ok online" net_ident id "\<lambda>_. True" for online
proof
  show "(\<exists>s'. net_judge online b s l = Inr s') \<longleftrightarrow> net_ok online l \<and> (id s = None \<or> id s = net_ident l)" for b s l
    by (auto simp: net_judge_def net_ok_def net_ident_def Let_def marker_lists_empty markers_ok_def same_as_iff split: sum.splits)
  show "id s' = net_ident l \<and> True" if "net_judge online b s l = Inr s'" for b s l s'
    using that by (auto simp: net_judge_def net_ident_def Let_def split: sum.splits if_splits)
qed (simp add: net_ok_def)

section \<open>When the gates pass\<close>

definition m6_boots :: "string \<Rightarrow> string \<Rightarrow> int \<Rightarrow> rat \<Rightarrow> bool \<Rightarrow> bool \<Rightarrow> string list io" where
  "m6_boots executable port boots timeout allow_no_card write_test =
     capture_boots (m6_reset_probe_and_capture executable port timeout allow_no_card write_test) (m6_header boots) [1..<Suc (nat boots)]"

definition net_boots :: "string \<Rightarrow> string \<Rightarrow> int \<Rightarrow> rat \<Rightarrow> bool \<Rightarrow> string list io" where
  "net_boots executable port boots timeout online =
     capture_boots (capture_boot executable port timeout online) (net_header boots) [1..<Suc (nat boots)]"

definition m6_args_ok :: "int \<Rightarrow> int \<Rightarrow> bool \<Rightarrow> bool \<Rightarrow> bool" where
  "m6_args_ok boots limit allow_no_card write_test \<longleftrightarrow>
     1 \<le> boots \<and> 0 \<le> limit \<and> (if write_test then boots = 1 \<and> \<not> allow_no_card else True)"

lemma boots_not_empty: "\<not> boots < 1 \<Longrightarrow> [1..<Suc (nat boots)] \<noteq> []"
  by simp

lemma artifacts_missing:
  assumes "artifact_record name fs directory names = Inl e"
  shows "\<not> list_all (\<lambda>n. fs n \<noteq> None) names"
  using assms artifact_record_iff [of name fs directory names] by auto

lemma complains: "io_then (py_print x) (io_return 1) w \<noteq> (Done (0 :: int), w')"
  by (simp add: io_then_def io_bind_def py_print_def io_return_def)

lemma m6_main_iff:
  "(\<exists>w'. m6_main executable port boots timeout fs directory limit allow_no_card write_test w = (Done 0, w')) \<longleftrightarrow>
     m6_args_ok boots limit allow_no_card write_test \<and> list_all (\<lambda>n. fs n \<noteq> None) M6_ARTIFACTS \<and>
     repeats (m6_boots executable port boots timeout allow_no_card write_test) (m6_ok allow_no_card write_test limit) m6_ident w"
proof (cases "m6_args_ok boots limit allow_no_card write_test")
  case True
  then have args: "\<not> boots < 1" "\<not> limit < 0" "\<not> (write_test \<and> boots \<noteq> 1)" "\<not> (write_test \<and> allow_no_card)"
    by (auto simp: m6_args_ok_def split: if_splits)
  show ?thesis
  proof (cases "artifact_record ''M6'' fs directory M6_ARTIFACTS")
    case (Inl e)
    show ?thesis unfolding m6_main_def if_not_P [OF args(1)] if_not_P [OF args(2)] if_not_P [OF args(3)] if_not_P [OF args(4)] Inl sum.case
      using artifacts_missing [OF Inl] complains by blast
  next
    case (Inr a)
    then have files: "list_all (\<lambda>n. fs n \<noteq> None) M6_ARTIFACTS" using artifact_record_iff by blast
    have s0: "m6_seen (None, None, None, []) = None" "m6_agrees (None, None, None, [])"
      by (simp_all add: m6_seen_def m6_agrees_def)
    have k: "\<exists>w'. (if fst s = None then io_raise e else io_then (py_print x) (io_then (py_print y) (io_return 0))) w2 = (Done (0 :: int), w')"
      if "run_boots capture header (m6_judge allow_no_card write_test limit) [1..<Suc (nat boots)] (None, None, None, []) w1 = (Done (Inr s), w2)"
      for s e x y w1 w2 capture header
    proof -
      from m6.passed_seen [OF that boots_not_empty [OF args(1)] s0(2)] have "fst s \<noteq> None"
        by (cases s) (simp add: m6_seen_def)
      then show ?thesis unfolding if_not_P [OF \<open>fst s \<noteq> None\<close>] by (intro print_return)
    qed
    show ?thesis
      unfolding m6_main_def if_not_P [OF args(1)] if_not_P [OF args(2)] if_not_P [OF args(3)] if_not_P [OF args(4)] Inr sum.case
        repeats_iff m6_boots_def
      by (subst after_boots, erule k) (use m6.passes_iff [OF s0] True files in \<open>simp del: upt_Suc\<close>)
  qed
qed (auto simp: m6_main_def m6_args_ok_def io_raise_def)

lemma print_maybe_return:
  "\<exists>w'. io_then (py_print x) (io_then (py_print y) (io_then (if b then py_print z else io_return ()) (io_return 0))) w = (Done (0 :: int), w')"
  by (simp add: io_then_def io_bind_def py_print_def io_return_def)

lemma net_main_iff:
  "(\<exists>w'. net_main executable port boots timeout fs directory online w = (Done 0, w')) \<longleftrightarrow>
     1 \<le> boots \<and> 0 < net_timeout timeout online \<and> list_all (\<lambda>n. fs n \<noteq> None) NET_ARTIFACTS \<and>
     repeats (net_boots executable port boots (net_timeout timeout online) online) (net_ok online) net_ident w"
proof (cases "boots < 1 \<or> net_timeout timeout online \<le> 0")
  case False
  then have args: "\<not> boots < 1" "\<not> net_timeout timeout online \<le> 0" by blast+
  show ?thesis
  proof (cases "artifact_record ''M6 network'' fs directory NET_ARTIFACTS")
    case (Inl e)
    show ?thesis unfolding net_main_def if_not_P [OF args(1)] if_not_P [OF args(2)] Inl sum.case
      using artifacts_missing [OF Inl] complains by blast
  next
    case (Inr a)
    then have files: "list_all (\<lambda>n. fs n \<noteq> None) NET_ARTIFACTS" using artifact_record_iff by blast
    have s0: "id None = (None :: net_identity option)" by simp
    have k: "\<exists>w'. (case s of None \<Rightarrow> io_raise e | Some (payload, identity, mac) \<Rightarrow> io_then (py_print x) (io_then (py_print (y payload identity mac))
        (io_then (if b then py_print z else io_return ()) (io_return 0)))) w2 = (Done (0 :: int), w')"
      if "run_boots capture header (net_judge online) [1..<Suc (nat boots)] None w1 = (Done (Inr s), w2)"
      for s e x y z b w1 w2 capture header
    proof -
      from net.passed_seen [OF that boots_not_empty [OF args(1)] TrueI] obtain payload identity mac where "s = Some (payload, identity, mac)"
        by (cases s) auto
      then show ?thesis by (simp only: option.case prod.case print_maybe_return)
    qed
    show ?thesis
      unfolding net_main_def if_not_P [OF args(1)] if_not_P [OF args(2)] Inr sum.case repeats_iff net_boots_def
      by (subst after_boots, erule k) (use net.passes_iff [OF s0 TrueI] args files in \<open>simp del: upt_Suc\<close>)
  qed
qed (auto simp: net_main_def io_raise_def)

end
