(* ===== verification/Combined_Gate.thy ===== *)
theory Combined_Gate
  imports M6_Gates
begin

text \<open>
  The combined gate \<^verbatim>\<open>m6-combined-test.py\<close>: microSD and network at once.  It too is a judge of boot
  logs under the loop of \<open>Boot_Gates\<close>; what the boots must repeat is the payload, which must also be
  the one of the artifacts, the two cards and the digest of the sampled storage.  Markers
  count only outside the lines the shell echoes.
\<close>

section \<open>The program\<close>

definition COMBINED_REQUIRED :: "string list" where
  \<open>COMBINED_REQUIRED = [
     ''MICRONUX:M3:BOOT'',
     ''MICRONUX:M3:JUMP'',
     ''MICRONUX:M6:SDMMC power=ldo4 voltage_mv=3300 slot=0 width=4'',
     ''MICRONUX:M6:NET transport=sdio slot=1 width=4'',
     ''MICRONUX:M6:SDMMC profile=dual slots=0,1 arbitration=linux-serialized'',
     ''Linux version 6.12.27'',
     ''ESP32-P4 dual-slot arbitration enabled for microSD and C6 SDIO'',
     ''mmcblk0:'',
     ''MCU firmware version: 2.11.5'',
     ''MICRONUX:M6:COMBINED:STORAGE state=ready name=mmcblk0'',
     ''MICRONUX:M6:COMBINED:IFACE state=ready name=ethsta0'',
     ''MICRONUX:M8:SERVICE state=ready abi=1.0'',
     ''MICRONUX:M6:COMBINED:SHELL ready console=ttyGS0 network=nonblocking'',
     ''MICRONUX:M6:STORAGE:PASS'',
     ''MICRONUX:M6:COMBINED:STORAGE:RC=0'',
     ''MICRONUX:M6:NET:ONLINE state=ready name=ethsta0'',
     ''MICRONUX:M6:COMBINED:ONLINE:RC=0'',
     ''MICRONUX:M6:COMBINED:STORAGE-STRESS:RC=0'',
     ''MICRONUX:M6:COMBINED:NETWORK-STRESS:RC=0'',
     ''MICRONUX:M6:NET:DOWN state=disconnected name=ethsta0'',
     ''MICRONUX:M6:COMBINED:DOWN:RC=0'',
     ''MICRONUX:M6:COMBINED:RECONNECT:RC=0'',
     ''MICRONUX:M6:COMBINED:RECONNECT-NETWORK:RC=0'',
     ''MICRONUX:M6:COMBINED:DONE'']\<close>

definition COMBINED_FORBIDDEN :: "string list" where
  \<open>COMBINED_FORBIDDEN = [
     ''MICRONUX:M3:FAIL'',
     ''MICRONUX:M4:FAIL'',
     ''MICRONUX:M5:FAIL'',
     ''MICRONUX:M6:FAIL'',
     ''MICRONUX:M6:COMBINED:FAIL'',
     ''MICRONUX:M6:COMBINED:SOAK:STALL'',
     ''MICRONUX:M6:STORAGE:FAIL'',
     ''Kernel panic'',
     ''Oops:'',
     ''BUG:'',
     ''Unhandled'',
     ''Drop invalid aggregate pkt'']\<close>

definition output_lines :: "string \<Rightarrow> string list" where
  "output_lines console = filter (\<lambda>line. \<not> (startswith line ''/ # '' \<or> startswith line ''micronux# '')) (splitlines console)"

definition marker_seen :: "string \<Rightarrow> string \<Rightarrow> bool" where
  "marker_seen console marker = list_ex (\<lambda>line. py_in marker line) (output_lines console)"

definition storage_stress :: string where
  \<open>storage_stress = concat (replicate 8 ''dd if=/dev/mmcblk0 of=/dev/null bs=4096 count=64 2>/dev/null || RC=1; '')\<close>

definition network_stress :: string where
  "network_stress = concat (replicate 12 ''/bin/busybox ping 1.1.1.1 || RC=1; '')"

definition soak_part :: "int \<Rightarrow> string" where
  "soak_part soak_cycles = (if soak_cycles \<noteq> 0
     then ''/usr/bin/micronux-combined-soak '' @ join '' '' (map str_int [1..soak_cycles]) @ ''; echo MICRONUX:M6:COMBINED:SOAK:RC=$?; ''
     else [])"

definition probe_text_1 :: string where
  \<open>probe_text_1 =
     ''/usr/bin/micronux-storage-test''\<close>

definition probe_text_2 :: string where
  \<open>probe_text_2 =
     ''; echo MICRONUX:M6:COMBINED:STORAGE:RC=$?; for D in /sys/bus/sdio/devices/*; do echo '' @
     ''MICRONUX:M6:COMBINED:SDIO path=${D##*/}; for F in vendor device class modalias; do '' @
     ''printf '' @ [CHR 0x27] @ ''MICRONUX:M6:COMBINED:SDIO %s='' @ [CHR 0x27] @
     '' $F; cat $D/$F; done; done; /usr/bin/micronux-online; echo '' @
     ''MICRONUX:M6:COMBINED:ONLINE:RC=$?; ip -4 addr show dev ethsta0; ip route; cat '' @
     ''/etc/resolv.conf; echo MICRONUX:M6:COMBINED:HASH-BEFORE; dd if=/dev/mmcblk0 bs=4096 '' @
     ''count=256 2>/dev/null | sha256sum; (RC=0; ''\<close>

definition probe_text_3 :: string where
  \<open>probe_text_3 =
     ''echo MICRONUX:M6:COMBINED:STORAGE-STRESS:RC=$RC) & (RC=0; ''\<close>

definition probe_text_4 :: string where
  \<open>probe_text_4 =
     ''echo MICRONUX:M6:COMBINED:NETWORK-STRESS:RC=$RC) & wait; echo '' @
     ''MICRONUX:M6:COMBINED:HASH-AFTER; dd if=/dev/mmcblk0 bs=4096 count=256 2>/dev/null | '' @
     ''sha256sum; echo MICRONUX:M6:COMBINED:HASH-AFTER:RC=$?; echo '' @
     ''MICRONUX:M6:COMBINED:DOWN:BEGIN; /usr/bin/micronux-netctl down; echo '' @
     ''MICRONUX:M6:COMBINED:DOWN:RC=$?; /bin/busybox sleep 5; /usr/bin/micronux-online; '' @
     ''echo MICRONUX:M6:COMBINED:RECONNECT:RC=$?; /bin/busybox ping 1.1.1.1; echo '' @
     ''MICRONUX:M6:COMBINED:RECONNECT-NETWORK:RC=$?; echo '' @
     ''MICRONUX:M6:COMBINED:HASH-RECONNECT; dd if=/dev/mmcblk0 bs=4096 count=256 '' @
     ''2>/dev/null | sha256sum; ''\<close>

definition probe_text_5 :: string where
  \<open>probe_text_5 =
     ''echo MICRONUX:M6:COMBINED:DONE'' @ [CHR 0x0A]\<close>

definition probe_command :: "bool \<Rightarrow> int \<Rightarrow> string" where
  "probe_command write_test soak_cycles = probe_text_1 @ (if write_test then '' --write-test'' else []) @ probe_text_2 @ storage_stress @ probe_text_3 @ network_stress @ probe_text_4 @ soak_part soak_cycles @ probe_text_5"

definition combined_sdio_re :: regex where
  "combined_sdio_re = Cats [Lit ''mmc1: new'', Opt (Cats [Lit '' '', Plus (Cls (\<lambda>c. c \<noteq> newline))]),
     Lit '' SDIO card at address '', Grp ''1'' (lowerhex_run 4)]"

definition sd_re :: regex where
  "sd_re = Cats [Lit ''mmc0: new'', Opt (Cats [Lit '' '', Plus (Cls (\<lambda>c. c \<noteq> newline))]), Lit '' '',
     Grp ''1'' (Alt (Lit ''SDHC'') (Alt (Lit ''SDXC'') (Lit ''SD''))), Lit '' card'']"

definition combined_body :: "bool \<Rightarrow> int \<Rightarrow> rat \<Rightarrow> string \<times> bool \<times> rat option \<Rightarrow> (string \<times> bool \<times> rat option + string) io" where
  "combined_body write_test soak_cycles deadline = (\<lambda>(captured, was_sent, done_seen_at). io_bind monotonic (\<lambda>now.
     if now < deadline
     then io_bind dev_read (\<lambda>chunk. let text = captured @ chunk;
           probe = \<not> was_sent \<and> py_in ''MICRONUX:M6:COMBINED:SHELL ready'' text \<and> py_in ''mmcblk0:'' text \<and>
             py_search combined_sdio_re text \<noteq> None in
       io_then (if probe then write_lines [probe_command write_test soak_cycles] else io_return ())
       (io_bind (if marker_seen text ''MICRONUX:M6:COMBINED:DONE'' then linger_for (1 / 2) done_seen_at else io_return (Inl done_seen_at)) (\<lambda>r.
        case r of
          Inr _ \<Rightarrow> io_return (Inr text)
        | Inl seen \<Rightarrow> (case find (marker_seen text) COMBINED_FORBIDDEN of
            Some rejected \<Rightarrow> io_then (py_print (''capture stopped on forbidden marker: '' @ rejected)) (io_return (Inr text))
          | None \<Rightarrow> io_return (Inl (text, was_sent \<or> probe, seen))))))
     else io_return (Inr captured)))"

definition combined_capture :: "string \<Rightarrow> string \<Rightarrow> rat \<Rightarrow> bool \<Rightarrow> int \<Rightarrow> string io" where
  "combined_capture executable port timeout write_test soak_cycles =
     io_then (esptool_reset executable port) (io_then dev_open (io_then dev_control (io_then dev_control (io_finally
       (io_then dev_control (io_bind monotonic (\<lambda>now. io_loop (combined_body write_test soak_cycles (now + timeout)) ([], False, None))))
       m6_release))))"

definition combined_artifacts :: "files \<Rightarrow> string \<Rightarrow> (string \<times> string \<times> string) result" where
  "combined_artifacts fs directory = rbind (artifact_record ''M6 combined'' fs directory NET_ARTIFACTS) (\<lambda>entries.
     rbind (read_bytes fs ''Image'') (\<lambda>img. rbind (read_bytes fs ''esp32p4-micronux.dtb'') (\<lambda>dtb.
     Inr (entries, sha256_hex img, sha256_hex dtb))))"

definition identities :: "string \<Rightarrow> (string \<times> string) result" where
  "identities console = (case (group_of sd_re console, group_of combined_sdio_re console) of
     (Some sd, Some sdio) \<Rightarrow> Inr (sd, sdio)
   | _ \<Rightarrow> Inl (ValueError ''microSD/SDIO logical-host identity was incomplete''))"

definition sample_re :: "string \<Rightarrow> regex" where
  "sample_re phase = Cats [Lit (''MICRONUX:M6:COMBINED:HASH-'' @ phase), Opt (Lit [carriage_return]), Lit [newline], Grp ''1'' (lowerhex_run 64)]"

definition sample_hashes :: "string \<Rightarrow> (string \<times> string \<times> string) result" where
  "sample_hashes console =
     (case (group_of (sample_re ''BEFORE'') console, group_of (sample_re ''AFTER'') console, group_of (sample_re ''RECONNECT'') console) of
        (Some before, Some after, Some reconnect) \<Rightarrow>
          if before \<noteq> after \<or> before \<noteq> reconnect then Inl (ValueError ''microSD sample changed during concurrent/reconnect traffic'')
          else Inr (before, after, reconnect)
      | _ \<Rightarrow> Inl (ValueError ''concurrent storage hashes were missing''))"

definition combined_milestones :: "string \<Rightarrow> string list" where
  "combined_milestones console = map strip (filter (\<lambda>line. list_ex (\<lambda>x. py_in x line)
     [''MICRONUX:M3:KERNEL'', ''MICRONUX:M3:DTB'', ''MICRONUX:M6:SDMMC'', ''MICRONUX:M6:DSI'', ''MICRONUX:M6:NET'', ''MICRONUX:M6:COMBINED'',
      ''MICRONUX:M6:STORAGE'', ''MICRONUX:M8:'', ''dual-slot arbitration'', ''mmc0:'', ''mmc1:'', ''mmcblk0:'', ''MCU firmware version''])
     (output_lines console))"

definition combined_header :: "int \<Rightarrow> nat \<Rightarrow> string \<Rightarrow> string list" where
  "combined_header boots boot console = (let ls = join [newline] (combined_milestones console) in
     [''--- M6 combined boot '' @ str_nat boot @ ''/'' @ str_int boots @ '' ---'', if ls = [] then ''(no combined milestones captured)'' else ls])"

definition display_marker :: "string option \<Rightarrow> string option \<Rightarrow> string" where
  "display_marker expect_mipi_profile expect_mipi_adapter =
     (if expect_mipi_profile = Some ''jd9365''
      then ''MICRONUX:M6:DSI state=ready profile=jd9365-800x1280 resolution=800x1280 lanes=2 lane_mbps=1500 dpi_mhz=80 format=rgb565 pattern=framebuffer''
      else case expect_mipi_adapter of
        Some adapter \<Rightarrow> ''MICRONUX:M6:DSI state=probe adapter='' @ adapter @ '' address=0x45''
      | None \<Rightarrow> ''MICRONUX:M6:DSI state=disabled reason=profile-off'')"

definition combined_required :: "string \<Rightarrow> int \<Rightarrow> string list" where
  "combined_required display soak_cycles = COMBINED_REQUIRED @ [display] @
     (if soak_cycles \<noteq> 0 then [''MICRONUX:M6:COMBINED:SOAK:PASS cycles='' @ str_int soak_cycles, ''MICRONUX:M6:COMBINED:SOAK:RC=0''] else [])"

type_synonym combined_identity = "(string \<times> string) \<times> (string \<times> string) \<times> string"

definition combined_evidence :: "string \<Rightarrow> combined_identity result" where
  "combined_evidence console = (case payload_hashes console of
     None \<Rightarrow> Inl (ValueError ''boot did not report payload hashes'')
   | Some payload \<Rightarrow> rbind (identities console) (\<lambda>identity. rbind (sample_hashes console) (\<lambda>(sample, _, _). Inr (payload, identity, sample))))"

definition pair_repr :: "string \<times> string \<Rightarrow> string" where
  "pair_repr = (\<lambda>(a, b). ''('' @ py_repr a @ '', '' @ py_repr b @ '')'')"

definition combined_judge :: "string \<Rightarrow> int \<Rightarrow> string \<times> string \<Rightarrow> combined_identity option judging" where
  "combined_judge display soak_cycles artifact_payload boot expected console =
     (let miss = filter (\<lambda>marker. \<not> marker_seen console marker) (combined_required display soak_cycles);
          forb = filter (marker_seen console) COMBINED_FORBIDDEN; name = ''combined boot '' @ str_nat boot in
      if miss \<noteq> [] \<or> forb \<noteq> [] then Inl (marker_complaint ''combined'' boot console miss forb)
      else case combined_evidence console of
        Inl e \<Rightarrow> Inl [name @ '': '' @ error_message e]
      | Inr (payload, identity, sample) \<Rightarrow>
          if payload \<noteq> artifact_payload
          then Inl [name @ '': booted payload '' @ pair_repr payload @ '' does not match artifacts '' @ pair_repr artifact_payload]
          else if same_as expected (payload, identity, sample) then Inr (Some (payload, identity, sample))
          else Inl [''combined identity changed across reset boot '' @ str_nat boot])"

definition combined_main :: "string \<Rightarrow> string \<Rightarrow> int \<Rightarrow> rat \<Rightarrow> files \<Rightarrow> string \<Rightarrow> bool \<Rightarrow> int \<Rightarrow> string option \<Rightarrow> string option \<Rightarrow> int io" where
  "combined_main executable port boots timeout fs directory write_test soak_cycles expect_mipi_adapter expect_mipi_profile =
     (if boots < 1 then io_raise (SystemExit ''--boots must be at least 1'')
      else if write_test \<and> boots \<noteq> 1 then io_raise (SystemExit ''--write-test requires --boots 1'')
      else if soak_cycles < 0 \<or> 600 < soak_cycles then io_raise (SystemExit ''--soak-cycles must be between 0 and 600'')
      else if soak_cycles \<noteq> 0 \<and> boots \<noteq> 1 then io_raise (SystemExit ''--soak-cycles requires --boots 1'')
      else case combined_artifacts fs directory of
        Inl e \<Rightarrow> io_then (py_print (error_message e)) (io_return 1)
      | Inr (artifacts, artifact_payload) \<Rightarrow> io_bind (run_boots (combined_capture executable port timeout write_test soak_cycles)
          (combined_header boots) (combined_judge (display_marker expect_mipi_profile expect_mipi_adapter) soak_cycles artifact_payload)
          [1..<Suc (nat boots)] None) (\<lambda>r. case r of
        Inl code \<Rightarrow> io_return code
      | Inr None \<Rightarrow> io_raise (AssertionError [])
      | Inr (Some (payload, identity, sample)) \<Rightarrow>
          if sample = [] then io_raise (AssertionError [])
          else io_then (py_print (''M6 combined artifacts: '' @ artifacts)) (io_then
            (py_print (''M6 simultaneous storage/network gate passed: boots='' @ str_int boots @ '' sd='' @ fst identity @
              '' sdio_address='' @ snd identity @ '' sample_sha256='' @ sample @ hashes_text (Some payload))) (io_return 0))))"

section \<open>The gate keeps the contract\<close>

lemma combined_asks: "asks_clock (combined_body write_test soak_cycles deadline s)"
  unfolding combined_body_def linger_for_def case_prod_beta by (intro asks_clock_monotonic clock_intros)

lemmas combined_loop_unfold = combined_asks [THEN io_loop_unfold]

lemma search_at_match:
  "py_search_at r p s = Some (start, m) \<Longrightarrow> \<exists>p'. m \<in> set (mt r (p', start, []))"
proof (induction r p s rule: py_search_at.induct)
  case (2 r p c cs)
  then show ?case by (cases "mt r (p, c # cs, [])") (auto intro: exI [of _ p])
next
  case (1 r p)
  then show ?case by (cases "mt r (p, [], [])") (auto intro: exI [of _ p])
qed

text \<open>A digest found in the log is 64 characters long, so it is not the empty string.\<close>

lemma sample_length:
  assumes "group_of (sample_re phase) l = Some x"
  shows "length x = 64"
proof -
  from assms obtain start q t gs where m: "py_search_at (sample_re phase) None l = Some (start, q, t, gs)" and x: "x = snd (hd gs)"
    by (auto simp: group_of_def py_search_def)
  obtain p where "(q, t, gs) \<in> set (mt (sample_re phase) (p, start, []))" using search_at_match [OF m] by blast
  then obtain p' s hs where "(q, t, hs) \<in> set (mt (Rep 64 (Cls is_lowerhex)) (p', s, []))" "gs = hs @ [(''1'', take (length s - length t) s)]"
    unfolding sample_re_def lowerhex_run_def
    by (auto simp: group_match_def simp del: mt.simps(1,7) split: if_splits)
  moreover from rep_Cls_sound [OF this(1) [unfolded mt.simps(7)]] have "hs = []" "length s - length t = 64" "64 \<le> length s" by auto
  ultimately show ?thesis using x by simp
qed

definition combined_ident :: "string \<Rightarrow> combined_identity option" where
  "combined_ident l = (case combined_evidence l of Inl _ \<Rightarrow> None | Inr i \<Rightarrow> Some i)"

definition combined_ok :: "string \<Rightarrow> int \<Rightarrow> string \<times> string \<Rightarrow> string \<Rightarrow> bool" where
  "combined_ok display soak_cycles artifact_payload l \<longleftrightarrow>
     list_all (marker_seen l) (combined_required display soak_cycles) \<and>
     list_all (\<lambda>m. \<not> marker_seen l m) COMBINED_FORBIDDEN \<and>
     combined_ident l \<noteq> None \<and> payload_hashes l = Some artifact_payload"

definition combined_agrees :: "combined_identity option \<Rightarrow> bool" where
  "combined_agrees s = (case s of None \<Rightarrow> True | Some (payload, identity, sample) \<Rightarrow> sample \<noteq> [])"

lemma combined_evidence_Inr:
  assumes "combined_evidence l = Inr (payload, identity, sample)"
  shows "payload_hashes l = Some payload" "sample \<noteq> []"
proof -
  from assms show "payload_hashes l = Some payload"
    by (auto simp: combined_evidence_def elim!: rbind_InrE split: option.splits)
  from assms obtain after reconnect where "sample_hashes l = Inr (sample, after, reconnect)"
    by (auto simp: combined_evidence_def elim!: rbind_InrE split: option.splits)
  then have "group_of (sample_re ''BEFORE'') l = Some sample"
    by (auto simp: sample_hashes_def split: option.splits if_splits)
  then show "sample \<noteq> []" using sample_length by fastforce
qed

lemma combined_judge_Inr:
  "combined_judge display soak_cycles artifact_payload b s l = Inr s' \<longleftrightarrow>
     combined_ok display soak_cycles artifact_payload l \<and> (s = None \<or> s = combined_ident l) \<and> s' = combined_ident l"
proof -
  have markers: "filter (\<lambda>m. \<not> marker_seen l m) ms = [] \<longleftrightarrow> list_all (marker_seen l) ms"
    "filter (marker_seen l) ms = [] \<longleftrightarrow> list_all (\<lambda>m. \<not> marker_seen l m) ms" for ms
    by (simp_all add: filter_empty_conv list_all_iff)
  show ?thesis
  proof (cases "combined_evidence l")
    case (Inl e)
    then show ?thesis by (simp add: combined_judge_def combined_ok_def combined_ident_def Let_def)
  next
    case (Inr i)
    obtain payload identity sample where i: "i = (payload, identity, sample)" by (cases i)
    have "payload_hashes l = Some payload" using combined_evidence_Inr(1) Inr i by blast
    then show ?thesis using Inr i
      by (auto simp: combined_judge_def combined_ok_def combined_ident_def Let_def markers same_as_iff)
  qed
qed

interpretation combined: boot_gate "combined_judge display soak_cycles artifact_payload"
  "combined_ok display soak_cycles artifact_payload" combined_ident id combined_agrees for display soak_cycles artifact_payload
proof
  show "(\<exists>s'. combined_judge display soak_cycles artifact_payload b s l = Inr s') \<longleftrightarrow>
      combined_ok display soak_cycles artifact_payload l \<and> (id s = None \<or> id s = combined_ident l)" for b s l
    unfolding combined_judge_Inr by simp
  show "id s' = combined_ident l \<and> combined_agrees s'" if "combined_judge display soak_cycles artifact_payload b s l = Inr s'" for b s l s'
    using that combined_evidence_Inr(2) [of l] unfolding combined_judge_Inr
    by (auto simp: combined_agrees_def combined_ident_def split: sum.splits option.splits)
qed (simp add: combined_ok_def)

section \<open>When the gates pass\<close>

definition combined_boots :: "string \<Rightarrow> string \<Rightarrow> int \<Rightarrow> rat \<Rightarrow> bool \<Rightarrow> int \<Rightarrow> string list io" where
  "combined_boots executable port boots timeout write_test soak_cycles =
     capture_boots (combined_capture executable port timeout write_test soak_cycles) (combined_header boots) [1..<Suc (nat boots)]"

definition combined_args_ok :: "int \<Rightarrow> bool \<Rightarrow> int \<Rightarrow> bool" where
  "combined_args_ok boots write_test soak_cycles \<longleftrightarrow>
     1 \<le> boots \<and> 0 \<le> soak_cycles \<and> soak_cycles \<le> 600 \<and> (if write_test \<or> soak_cycles \<noteq> 0 then boots = 1 else True)"

text \<open>The digests of the artifacts, when they are all there.\<close>

definition artifact_digests :: "files \<Rightarrow> (string \<times> string) option" where
  "artifact_digests fs = (if list_all (\<lambda>n. fs n \<noteq> None) NET_ARTIFACTS
     then Some (sha256_hex (the (fs ''Image'')), sha256_hex (the (fs ''esp32p4-micronux.dtb''))) else None)"

lemma combined_artifacts_cases:
  "(case artifact_digests fs of None \<Rightarrow> \<exists>e. combined_artifacts fs directory = Inl e
    | Some payload \<Rightarrow> \<exists>a. combined_artifacts fs directory = Inr (a, payload))"
proof (cases "artifact_record ''M6 combined'' fs directory NET_ARTIFACTS")
  case (Inl e)
  then show ?thesis using artifacts_missing [OF Inl] by (simp add: artifact_digests_def combined_artifacts_def rbind_def)
next
  case (Inr a)
  then have files: "list_all (\<lambda>n. fs n \<noteq> None) NET_ARTIFACTS" using artifact_record_iff by blast
  then have "fs ''Image'' \<noteq> None" "fs ''esp32p4-micronux.dtb'' \<noteq> None" by (simp_all add: NET_ARTIFACTS_def)
  with files Inr show ?thesis by (auto simp: artifact_digests_def combined_artifacts_def rbind_def read_bytes_def)
qed

lemma combined_main_iff:
  "(\<exists>w'. combined_main executable port boots timeout fs directory write_test soak_cycles adapter profile w = (Done 0, w')) \<longleftrightarrow>
     combined_args_ok boots write_test soak_cycles \<and> (case artifact_digests fs of None \<Rightarrow> False | Some payload \<Rightarrow>
     repeats (combined_boots executable port boots timeout write_test soak_cycles)
       (combined_ok (display_marker profile adapter) soak_cycles payload) combined_ident w)"
proof (cases "combined_args_ok boots write_test soak_cycles")
  case True
  then have args: "\<not> boots < 1" "\<not> (write_test \<and> boots \<noteq> 1)" "\<not> (soak_cycles < 0 \<or> 600 < soak_cycles)" "\<not> (soak_cycles \<noteq> 0 \<and> boots \<noteq> 1)"
    by (auto simp: combined_args_ok_def split: if_splits)
  note main = combined_main_def if_not_P [OF args(1)] if_not_P [OF args(2)] if_not_P [OF args(3)] if_not_P [OF args(4)]
  show ?thesis
  proof (cases "artifact_digests fs")
    case None
    then obtain e where e: "combined_artifacts fs directory = Inl e" using combined_artifacts_cases [of fs directory] by auto
    show ?thesis unfolding main e sum.case None option.case using complains by blast
  next
    case (Some payload)
    then obtain a where a: "combined_artifacts fs directory = Inr (a, payload)" using combined_artifacts_cases [of fs directory] by auto
    have s0: "id None = (None :: combined_identity option)" "combined_agrees None" by (simp_all add: combined_agrees_def)
    have k: "\<exists>w'. (case s of None \<Rightarrow> io_raise e | Some (payload, identity, sample) \<Rightarrow>
        if sample = [] then io_raise e else io_then (py_print x) (io_then (py_print (y payload identity sample)) (io_return 0))) w2 = (Done (0 :: int), w')"
      if "run_boots capture header (combined_judge display soak_cycles pl) [1..<Suc (nat boots)] None w1 = (Done (Inr s), w2)"
      for s e x y w1 w2 capture header display pl
    proof -
      from combined.passed_seen [OF that boots_not_empty [OF args(1)] s0(2)]
      obtain payload identity sample where s: "s = Some (payload, identity, sample)" "sample \<noteq> []"
        by (cases s) (auto simp: combined_agrees_def)
      show ?thesis unfolding s(1) option.case prod.case if_not_P [OF s(2)] by (rule print_return)
    qed
    show ?thesis
      unfolding main a sum.case prod.case Some option.case repeats_iff combined_boots_def
      by (subst after_boots, erule k) (use combined.passes_iff [OF s0] True in \<open>simp del: upt_Suc\<close>)
  qed
qed (auto simp: combined_main_def combined_args_ok_def io_raise_def split: if_splits)

text \<open>
  C13. A gate over repeated boots (M2 to M5, microSD, network, combined) passes exactly when its arguments
  and artifacts are in order, every boot can be captured, every captured log is accepted by
  itself - no marker missing, none forbidden, what identifies the boot present, and the
  measurements and the console sequence as required - and all the logs identify the same
  payload, and the same card or network hardware.
\<close>

theorem repeated_boots:
  "((\<exists>w'. m2_main boots timeout w = (Done 0, w')) \<longleftrightarrow>
      1 \<le> boots \<and> repeats (m2_boots boots timeout) m2_ok handoff_ident w) \<and>
   ((\<exists>w'. m3_gate_main executable port boots timeout skip_reset w = (Done 0, w')) \<longleftrightarrow>
      1 \<le> boots \<and> (boots = 1 \<or> skip_reset = False) \<and>
      repeats (m3_boots executable port boots timeout skip_reset) m3_ok payload_hashes w) \<and>
   ((\<exists>w'. m4_main executable port boots timeout fs directory w = (Done 0, w')) \<longleftrightarrow>
      1 \<le> boots \<and> list_all (\<lambda>n. fs n \<noteq> None) M4_ARTIFACTS \<and>
      repeats (m4_boots executable port boots timeout) m4_ok payload_hashes w) \<and>
   ((\<exists>w'. m5_main executable port boots timeout fs directory limit w = (Done 0, w')) \<longleftrightarrow>
      1 \<le> boots \<and> 0 \<le> limit \<and> list_all (\<lambda>n. fs n \<noteq> None) M5_ARTIFACTS \<and>
      repeats (m5_boots executable port boots timeout) (m5_ok limit) payload_hashes w) \<and>
   ((\<exists>w'. m6_main executable port boots timeout fs directory limit allow_no_card write_test w = (Done 0, w')) \<longleftrightarrow>
      m6_args_ok boots limit allow_no_card write_test \<and> list_all (\<lambda>n. fs n \<noteq> None) M6_ARTIFACTS \<and>
      repeats (m6_boots executable port boots timeout allow_no_card write_test) (m6_ok allow_no_card write_test limit) m6_ident w) \<and>
   ((\<exists>w'. net_main executable port boots net_limit fs directory online w = (Done 0, w')) \<longleftrightarrow>
      1 \<le> boots \<and> 0 < net_timeout net_limit online \<and> list_all (\<lambda>n. fs n \<noteq> None) NET_ARTIFACTS \<and>
      repeats (net_boots executable port boots (net_timeout net_limit online) online) (net_ok online) net_ident w) \<and>
   ((\<exists>w'. combined_main executable port boots timeout fs directory write_test soak_cycles adapter profile w = (Done 0, w')) \<longleftrightarrow>
      combined_args_ok boots write_test soak_cycles \<and> (case artifact_digests fs of None \<Rightarrow> False | Some payload \<Rightarrow>
      repeats (combined_boots executable port boots timeout write_test soak_cycles)
        (combined_ok (display_marker profile adapter) soak_cycles payload) combined_ident w))"
  by (intro conjI m2_main_iff m3_gate_main_iff m4_main_iff m5_main_iff m6_main_iff net_main_iff combined_main_iff)

end
