(* ===== verification/Bflt_Audit.thy ===== *)
theory Bflt_Audit
  imports Py_Struct
begin

text \<open>
  The audit of flat binaries, \<^verbatim>\<open>check-bflt-wx.py\<close>: every bFLT image below a directory must be
  splittable between text and data at a boundary of the memory protection unit.  The directory
  tree is the list of its entries in the order the walk gives them.
\<close>

unbundle bit_operations_syntax

section \<open>The program\<close>

datatype entry = Regular bytes | Symlink | Directory

definition HEADER_SIZE :: nat where "HEADER_SIZE = 44"
definition PMP_GRANULE :: nat where "PMP_GRANULE = 128"
definition FLAT_FLAG_RAM :: nat where "FLAT_FLAG_RAM = 1"

definition bflt_magic :: bytes where
  "bflt_magic = [0x62, 0x46, 0x4C, 0x54]"

text \<open>\<^verbatim>\<open>struct.unpack(">10I", b)\<close> on a buffer of the right size.\<close>

definition unpack_be10 :: "bytes \<Rightarrow> nat list" where
  "unpack_be10 b = map (\<lambda>i. be_nat (take 4 (drop (4 * i) b))) [0..<10]"

fun validate :: "string \<Rightarrow> entry \<Rightarrow> bool result" where
  "validate path (Regular content) =
     (let header = take HEADER_SIZE content in
      if length header < 4 \<or> take 4 header \<noteq> bflt_magic then Inr False
      else if length header \<noteq> HEADER_SIZE then Inl (ValueError (path @ '': truncated bFLT header''))
      else let fields = unpack_be10 (drop 4 header); revision = fields ! 0; entry_at = fields ! 1;
               data_start = fields ! 2; flags = fields ! 8 in
        if revision \<noteq> 4 \<or> flags AND FLAT_FLAG_RAM = 0 then Inl (ValueError (path @ '': expected bFLT v4 FLAT_FLAG_RAM''))
        else if entry_at < HEADER_SIZE \<or> data_start \<le> entry_at then Inl (ValueError (path @ '': invalid entry/data boundary''))
        else if data_start mod PMP_GRANULE \<noteq> 0
        then Inl (ValueError (path @ '': data_start 0x'' @ str_hex data_start @ '' is not '' @ str_nat PMP_GRANULE @ ''-byte aligned''))
        else Inr True)"
| "validate path Symlink = Inr False"
| "validate path Directory = Inr False"

definition bflt_main :: "string \<Rightarrow> (string \<times> entry) list option \<Rightarrow> string result" where
  "bflt_main root tree = (case tree of
     None \<Rightarrow> Inl (SystemExit (''target tree does not exist: '' @ root))
   | Some entries \<Rightarrow> rbind (map_result (\<lambda>(path, e). validate path e) entries) (\<lambda>found.
       let checked = length (filter id found) in
       if checked = 0 then Inl (ValueError (root @ '': no bFLT images found''))
       else Inr (''MICRONUX:M7:BFLT-WX-AUDIT state=pass files='' @ str_nat checked @ '' granule='' @ str_nat PMP_GRANULE)))"

section \<open>What it establishes\<close>

definition is_bflt :: "entry \<Rightarrow> bool" where
  "is_bflt e = (case e of Regular content \<Rightarrow> prefix bflt_magic content | _ \<Rightarrow> False)"

definition header_field :: "bytes \<Rightarrow> nat \<Rightarrow> nat" where
  "header_field content i = be_nat (take 4 (drop (4 + 4 * i) content))"

text \<open>No granule of the protection unit holds a byte before the boundary and one from it on.\<close>

definition granules_split :: "nat \<Rightarrow> bool" where
  "granules_split boundary \<longleftrightarrow> (\<forall>a b. a < boundary \<and> boundary \<le> b \<longrightarrow> a div 128 \<noteq> b div 128)"

definition image_ok :: "entry \<Rightarrow> bool" where
  "image_ok e = (case e of Regular content \<Rightarrow> 44 \<le> length content \<and> header_field content 0 = 4 \<and>
     odd (header_field content 8) \<and> 44 \<le> header_field content 1 \<and> header_field content 1 < header_field content 2 \<and>
     granules_split (header_field content 2) | _ \<Rightarrow> False)"

lemma granules_split_iff: "granules_split n \<longleftrightarrow> n mod 128 = 0"
proof
  assume split: "granules_split n"
  show "n mod 128 = 0"
  proof (rule ccontr)
    assume "n mod 128 \<noteq> 0"
    then have "0 < n mod 128" by simp
    moreover have "n mod 128 < 128" "128 * (n div 128) + n mod 128 = n" by simp_all
    ultimately have "n - 1 < n" "128 * (n div 128) \<le> n - 1" "n - 1 < 128 * Suc (n div 128)"
      unfolding mult_Suc_right by linarith+
    then have "n - 1 < n" "(n - 1) div 128 = n div 128" by (simp_all add: div_nat_eqI)
    with split show False unfolding granules_split_def by blast
  qed
next
  assume "n mod 128 = 0"
  then obtain k where n: "n = 128 * k" by auto
  have "a div 128 < k" "k \<le> b div 128" if "a < n" "n \<le> b" for a b
    using that unfolding n by (auto simp: div_less_iff_less_mult mult.commute less_eq_div_iff_mult_less_eq)
  then show "granules_split n" unfolding granules_split_def by fastforce
qed

lemma header_fields:
  "i < 10 \<Longrightarrow> unpack_be10 (drop 4 (take HEADER_SIZE content)) ! i = header_field content i"
proof -
  assume "i < 10"
  moreover from this have "min 4 (40 - 4 * i) = 4" by simp
  ultimately show ?thesis by (simp add: unpack_be10_def header_field_def HEADER_SIZE_def drop_take add.commute)
qed

lemma magic_iff: "(length (take HEADER_SIZE content) < 4 \<or> take 4 (take HEADER_SIZE content) \<noteq> bflt_magic) \<longleftrightarrow> \<not> prefix bflt_magic content"
proof -
  have "prefix bflt_magic content \<longleftrightarrow> take 4 content = bflt_magic"
    by (auto simp: prefix_def bflt_magic_def) (metis append_take_drop_id append_Cons append_Nil)
  moreover have "4 \<le> length content" if "take 4 content = bflt_magic"
    using arg_cong [OF that, of length] by (simp add: bflt_magic_def)
  ultimately show ?thesis by (auto simp: HEADER_SIZE_def)
qed

lemma validate_iff:
  "validate path e = Inr True \<longleftrightarrow> is_bflt e \<and> image_ok e" "validate path e = Inr False \<longleftrightarrow> \<not> is_bflt e"
proof -
  have "(validate path e = Inr True \<longleftrightarrow> is_bflt e \<and> image_ok e) \<and> (validate path e = Inr False \<longleftrightarrow> \<not> is_bflt e)"
  proof (cases e)
    case (Regular content)
    have odd: "n AND FLAT_FLAG_RAM = 0 \<longleftrightarrow> even n" for n by (simp add: FLAT_FLAG_RAM_def and_one_eq even_iff_mod_2_eq_zero)
    have len: "length (take HEADER_SIZE content) \<noteq> HEADER_SIZE \<longleftrightarrow> \<not> 44 \<le> length content" by (auto simp: HEADER_SIZE_def)
    have fields: "unpack_be10 (drop 4 (take HEADER_SIZE content)) ! 0 = header_field content 0"
      "unpack_be10 (drop 4 (take HEADER_SIZE content)) ! 1 = header_field content 1"
      "unpack_be10 (drop 4 (take HEADER_SIZE content)) ! 2 = header_field content 2"
      "unpack_be10 (drop 4 (take HEADER_SIZE content)) ! 8 = header_field content 8"
      by (rule header_fields; simp)+
    have spec: "is_bflt e \<longleftrightarrow> prefix bflt_magic content"
      "image_ok e \<longleftrightarrow> 44 \<le> length content \<and> header_field content 0 = 4 \<and> odd (header_field content 8) \<and>
         HEADER_SIZE \<le> header_field content 1 \<and> header_field content 1 < header_field content 2 \<and>
         header_field content 2 mod PMP_GRANULE = 0"
      by (simp_all add: Regular is_bflt_def image_ok_def granules_split_iff HEADER_SIZE_def PMP_GRANULE_def)
    show ?thesis unfolding spec unfolding Regular validate.simps Let_def magic_iff len odd fields by auto
  qed (simp_all add: is_bflt_def)
  then show "validate path e = Inr True \<longleftrightarrow> is_bflt e \<and> image_ok e" "validate path e = Inr False \<longleftrightarrow> \<not> is_bflt e" by blast+
qed

lemma validate_accepts: "validate path e = Inr v \<longleftrightarrow> v = is_bflt e \<and> (if is_bflt e then image_ok e else True)"
  using validate_iff [of path e] by (cases v) auto

lemma audited:
  "map_result (\<lambda>(path, e). validate path e) entries = Inr found \<longleftrightarrow>
     found = map (is_bflt \<circ> snd) entries \<and> list_all (\<lambda>(_, e). if is_bflt e then image_ok e else True) entries"
  unfolding map_result_Inr_iff
proof (induction entries arbitrary: found)
  case (Cons p entries)
  obtain path e where p: "p = (path, e)" by (cases p)
  show ?case unfolding p list_all2_Cons1 Cons.IH prod.case validate_accepts by auto
qed simp

text \<open>
  C16. The audit of flat binaries passes exactly when the tree exists, holds at least one bFLT
  image, and every image in it has a complete version 4 header with the RAM flag, an entry point
  inside its text, and a data start that no granule of the protection unit straddles; it
  then reports how many images there are.
\<close>

theorem bflt_audit_iff:
  "bflt_main root tree = Inr line \<longleftrightarrow> (case tree of None \<Rightarrow> False | Some entries \<Rightarrow>
     list_ex (is_bflt \<circ> snd) entries \<and> list_all (\<lambda>(_, e). if is_bflt e then image_ok e else True) entries \<and>
     line = ''MICRONUX:M7:BFLT-WX-AUDIT state=pass files='' @ str_nat (length (filter (is_bflt \<circ> snd) entries)) @ '' granule=128'')"
proof (cases tree)
  case (Some entries)
  have granule: "str_nat PMP_GRANULE = ''128''" by code_simp
  have none: "filter id (map (is_bflt \<circ> snd) entries) = [] \<longleftrightarrow> \<not> list_ex (is_bflt \<circ> snd) entries"
    by (auto simp: filter_empty_conv list_ex_iff)
  have count: "length (filter id (map (is_bflt \<circ> snd) entries)) = length (filter (is_bflt \<circ> snd) entries)"
    by (simp add: filter_map)
  show ?thesis
  proof (cases "map_result (\<lambda>(path, e). validate path e) entries")
    case (Inl e)
    then have "\<not> list_all (\<lambda>(_, e). if is_bflt e then image_ok e else True) entries" using audited [of entries] by simp
    with Inl Some show ?thesis by (simp add: bflt_main_def rbind_def)
  next
    case (Inr found)
    then show ?thesis using audited [of entries found] none count
      by (auto simp: bflt_main_def rbind_def Some Let_def granule)
  qed
qed (simp add: bflt_main_def)

end
