(* ===== verification/Patch_Series.thy ===== *)
theory Patch_Series
  imports Py_Regex Py_Sha256 "HOL-Library.Multiset" "HOL-Library.List_Lexorder" "HOL-Library.Char_ord"
begin

text \<open>
  The check of the Linux patch series, \<^verbatim>\<open>check-linux-patch-series.py\<close>.  A directory is the list
  of the names and contents of its files, in any order.  Texts are ASCII, one character a byte;
  reading a text turns every line ending into a newline.
\<close>

section \<open>The program\<close>

type_synonym listing = "(string \<times> bytes) list"

definition SERIES :: "(string \<times> nat) list" where
  "SERIES = [(''patches-platform'', 8), (''patches-peripherals'', 46), (''patches-isolation'', 10)]"

definition ISOLATION_CONFIGS :: "string list" where
  "ISOLATION_CONFIGS = [''micronux_esp32p4_isolation_defconfig'', ''micronux_esp32p4_gui_foundation_defconfig'']"

definition SUBJECT_RE :: regex where
  "SUBJECT_RE = Cats [Bol, Lit ''Subject: [PATCH '', Grp ''1'' (Plus digit), Lit ''/'', Grp ''2'' (Plus digit), Lit ''] '']"

definition series_fail :: "string \<Rightarrow> 'a result" where
  "series_fail message = Inl (SystemExit (''MICRONUX:PATCH-SERIES state=fail reason='' @ message))"

definition encode :: "string \<Rightarrow> bytes" where
  "encode s = map of_char s"

fun universal_newlines :: "string \<Rightarrow> string" where
  "universal_newlines [] = []"
| "universal_newlines [c] = [if c = carriage_return then newline else c]"
| "universal_newlines (c # d # cs) = (if c = carriage_return
     then newline # universal_newlines (if d = newline then cs else d # cs) else c # universal_newlines (d # cs))"

definition read_text :: "bytes \<Rightarrow> string" where
  "read_text b = universal_newlines (map (\<lambda>x. char_of (unat x)) b)"

definition glob :: "string \<Rightarrow> string \<Rightarrow> listing \<Rightarrow> listing" where
  "glob start ending files = filter (\<lambda>(name, _). length start + length ending \<le> length name \<and>
     prefix start name \<and> suffix ending name) files"

definition sorted_files :: "listing \<Rightarrow> listing" where
  "sorted_files files = sort_key fst files"

definition number_prefix :: "nat \<Rightarrow> string" where
  "number_prefix i = zero_pad 4 (str_nat i) @ ''-''"

definition validate_patch :: "string \<Rightarrow> nat \<Rightarrow> nat \<times> string \<times> bytes \<Rightarrow> string result" where
  "validate_patch directory expected_count = (\<lambda>(expected_index, name, raw).
     if \<not> startswith name (number_prefix expected_index)
     then series_fail (directory @ ''-order-'' @ name @ ''-expected-'' @ number_prefix expected_index)
     else let content = read_text raw in case py_search SUBJECT_RE content of
       None \<Rightarrow> series_fail (directory @ ''-subject-'' @ name)
     | Some (_, _, gs) \<Rightarrow>
         if int_str (snd (gs ! 0)) \<noteq> int expected_index then series_fail (directory @ ''-subject-index-'' @ name)
         else if int_str (snd (gs ! 1)) \<noteq> int expected_count then series_fail (directory @ ''-subject-total-'' @ name)
         else if \<not> py_in ''Signed-off-by:'' content then series_fail (directory @ ''-signoff-'' @ name)
         else if \<not> py_in ''diff --git a/'' content then series_fail (directory @ ''-diff-'' @ name)
         else Inr (directory @ ''/linux/'' @ name @ '' '' @ sha256_hex raw))"

definition validate_series :: "string \<Rightarrow> nat \<Rightarrow> listing \<Rightarrow> string list result" where
  "validate_series directory expected_count files =
     (let patches = sorted_files (glob '''' ''.patch'' files) in
      if length patches \<noteq> expected_count
      then series_fail (directory @ ''-count-'' @ str_nat (length patches) @ ''-expected-'' @ str_nat expected_count)
      else map_result (validate_patch directory expected_count) (enumerate 1 patches))"

definition validate_config :: "string \<times> bytes \<Rightarrow> unit result" where
  "validate_config = (\<lambda>(name, raw). let content = read_text raw;
       has_isolation = py_in ''board/micronux/patches-isolation'' content in
     if name \<in> set ISOLATION_CONFIGS \<and> \<not> has_isolation then series_fail (''isolation-config-missing-series-'' @ name)
     else if name \<notin> set ISOLATION_CONFIGS \<and> has_isolation then series_fail (''isolation-series-leaked-'' @ name)
     else if \<not> py_in ''board/micronux/patches-platform'' content then series_fail (name @ ''-missing-patches-platform'')
     else if \<not> py_in ''board/micronux/patches-peripherals'' content then series_fail (name @ ''-missing-patches-peripherals'')
     else Inr ())"

definition validate_config_boundaries :: "listing \<Rightarrow> unit list result" where
  "validate_config_boundaries configs = map_result validate_config (sorted_files (glob ''micronux_esp32p4'' ''_defconfig'' configs))"

definition series_main :: "listing option \<Rightarrow> (string \<Rightarrow> listing) \<Rightarrow> listing \<Rightarrow> string result" where
  "series_main old_monolith board configs =
     (if (case old_monolith of None \<Rightarrow> False | Some files \<Rightarrow> glob '''' ''.patch'' files \<noteq> [])
      then series_fail ''legacy-monolithic-directory-not-empty''
      else rbind (map_result (\<lambda>(directory, expected_count). validate_series directory expected_count (board directory)) SERIES) (\<lambda>manifests.
        rbind (validate_config_boundaries configs) (\<lambda>_.
        Inr (''MICRONUX:PATCH-SERIES state=pass platform='' @ str_nat (snd (SERIES ! 0)) @
          '' peripherals='' @ str_nat (snd (SERIES ! 1)) @ '' isolation='' @ str_nat (snd (SERIES ! 2)) @
          '' total='' @ str_nat (sum_list (map snd SERIES)) @
          '' manifest_sha256='' @ sha256_hex (encode (join [newline] (concat manifests) @ [newline]))))))"

section \<open>What it establishes\<close>

text \<open>
  A series needs no order of its files: it has as many patches as it should, its
  numbers are those from one to the count, each once, and every patch agrees with its number.
\<close>

definition patches_of :: "listing \<Rightarrow> listing" where
  "patches_of files = filter (\<lambda>(name, _). suffix ''.patch'' name) files"

definition patch_ok :: "nat \<Rightarrow> nat \<Rightarrow> bytes \<Rightarrow> bool" where
  "patch_ok n_patches i raw \<longleftrightarrow> (let content = read_text raw in
     (case py_search SUBJECT_RE content of None \<Rightarrow> False
      | Some (_, _, gs) \<Rightarrow> int_str (snd (gs ! 0)) = int i \<and> int_str (snd (gs ! 1)) = int n_patches) \<and>
     py_in ''Signed-off-by:'' content \<and> py_in ''diff --git a/'' content)"

definition numbered_ok :: "nat \<Rightarrow> string \<times> bytes \<Rightarrow> bool" where
  "numbered_ok n_patches p \<longleftrightarrow> list_ex (\<lambda>i. take 5 (fst p) = number_prefix i \<and> patch_ok n_patches i (snd p)) [1..<Suc n_patches]"

definition series_ok :: "nat \<Rightarrow> listing \<Rightarrow> bool" where
  "series_ok n_patches files \<longleftrightarrow>
     mset (map (take 5 \<circ> fst) (patches_of files)) = mset (map number_prefix [1..<Suc n_patches]) \<and>
     list_all (numbered_ok n_patches) (patches_of files)"

definition config_ok :: "string \<times> bytes \<Rightarrow> bool" where
  "config_ok c \<longleftrightarrow> (let content = read_text (snd c) in
     (py_in ''board/micronux/patches-isolation'' content \<longleftrightarrow> fst c \<in> set ISOLATION_CONFIGS) \<and>
     py_in ''board/micronux/patches-platform'' content \<and> py_in ''board/micronux/patches-peripherals'' content)"

lemma take_mono: "xs \<le> ys \<Longrightarrow> take n xs \<le> take n (ys :: string)"
proof (induction n arbitrary: xs ys)
  case (Suc n)
  then show ?case by (cases xs; cases ys) auto
qed simp

lemma glob_patch: "glob '''' ''.patch'' files = patches_of files"
  by (auto simp: glob_def patches_of_def suffix_length_le intro!: filter_cong dest: suffix_length_le)

text \<open>The numbers of the series that exist are below 47.\<close>

definition prefixes_good :: "string list \<Rightarrow> bool" where
  "prefixes_good ps \<longleftrightarrow> list_all (\<lambda>p. length p = 5) ps \<and> sorted ps \<and> distinct ps"

lemma number_prefixes_good: "prefixes_good (map number_prefix [0..<47])"
  by code_simp

lemma length_number_prefix: "i < 47 \<Longrightarrow> length (number_prefix i) = 5"
  using number_prefixes_good unfolding prefixes_good_def list_all_iff set_map set_upt by auto

lemma sorted_number_prefix: "n < 47 \<Longrightarrow> sorted (map number_prefix [1..<Suc n])"
proof -
  assume n: "n < 47"
  have "sorted (map number_prefix [0..<47])" using number_prefixes_good unfolding prefixes_good_def by blast
  moreover have "[1..<Suc n] = drop 1 (take (Suc n) [0..<47])" using n by (simp add: take_upt drop_upt del: upt_Suc)
  ultimately show ?thesis by (metis sorted_wrt_take sorted_wrt_drop take_map drop_map)
qed

lemma number_prefix_inj: "i < 47 \<Longrightarrow> j < 47 \<Longrightarrow> number_prefix i = number_prefix j \<Longrightarrow> i = j"
proof -
  assume ij: "i < 47" "j < 47" "number_prefix i = number_prefix j"
  have "inj_on number_prefix (set [0..<47])" using number_prefixes_good unfolding prefixes_good_def distinct_map by blast
  with ij show ?thesis by (simp add: inj_on_def)
qed

lemma prefix_take5: "i < 47 \<Longrightarrow> prefix (number_prefix i) name \<longleftrightarrow> take 5 name = number_prefix i"
  using length_number_prefix [of i] by (metis append_eq_conv_conj prefix_def append_take_drop_id)

lemma validate_patch_iff:
  "(\<exists>r. validate_patch directory n_patches (i, p) = Inr r) \<longleftrightarrow> prefix (number_prefix i) (fst p) \<and> patch_ok n_patches i (snd p)"
  by (cases p) (auto simp: validate_patch_def patch_ok_def series_fail_def startswith_def Let_def split: option.splits)

lemma validate_config_iff: "validate_config c = Inr () \<longleftrightarrow> config_ok c"
  by (cases c) (auto simp: validate_config_def config_ok_def series_fail_def Let_def)

lemma mset_sorted_files: "mset (sorted_files files) = mset files" "set (sorted_files files) = set files"
  "sorted (map fst (sorted_files files))"
  by (simp_all add: sorted_files_def)

lemma numbers_iff:
  fixes files :: listing
  assumes "n_patches < 47"
  shows "map (take 5 \<circ> fst) (sorted_files files) = map number_prefix [1..<Suc n_patches] \<longleftrightarrow>
    mset (map (take 5 \<circ> fst) files) = mset (map number_prefix [1..<Suc n_patches])"
proof -
  let ?P = "map (take 5 \<circ> fst) (sorted_files files)" and ?N = "map number_prefix [1..<Suc n_patches]"
  have P: "mset ?P = mset (map (take 5 \<circ> fst) files)" by (simp add: mset_sorted_files)
  have "sorted_wrt (\<le>) (map fst (sorted_files files))" by (rule mset_sorted_files)
  then have sorted: "sorted ?P"
    unfolding sorted_wrt_map by (rule sorted_wrt_mono_rel [rotated]) (auto intro: take_mono)
  show ?thesis
  proof
    assume "mset (map (take 5 \<circ> fst) files) = mset ?N"
    with P have m: "mset ?P = mset ?N" by argo
    have "sort ?N = ?P" by (rule properties_for_sort [OF m sorted])
    moreover have "sort ?N = ?N" by (rule sorted_sort_id [OF sorted_number_prefix [OF assms]])
    ultimately show "?P = ?N" by argo
  next
    assume "?P = ?N"
    with P show "mset (map (take 5 \<circ> fst) files) = mset ?N" by argo
  qed
qed

lemma validate_series_iff:
  assumes "n_patches < 47"
  shows "(\<exists>ds. validate_series directory n_patches files = Inr ds) \<longleftrightarrow> series_ok n_patches files"
proof -
  let ?F = "patches_of files" and ?P = "sorted_files (patches_of files)"
  let ?N = "map number_prefix [1..<Suc n_patches]"
  have small: "i < n_patches \<Longrightarrow> Suc i < 47" for i using assms by simp
  have code: "(\<exists>ds. validate_series directory n_patches files = Inr ds) \<longleftrightarrow> length ?P = n_patches \<and>
      (\<forall>i < length ?P. take 5 (fst (?P ! i)) = number_prefix (Suc i) \<and> patch_ok n_patches (Suc i) (snd (?P ! i)))"
  proof (cases "length ?P = n_patches")
    case True
    have "list_all (\<lambda>x. \<exists>y. validate_patch directory n_patches x = Inr y) (enumerate 1 ?P) \<longleftrightarrow>
        (\<forall>i < length ?P. take 5 (fst (?P ! i)) = number_prefix (Suc i) \<and> patch_ok n_patches (Suc i) (snd (?P ! i)))"
      unfolding list_all_length
      using small True by (auto simp: nth_enumerate_eq validate_patch_iff prefix_take5)
    then show ?thesis using True by (simp add: validate_series_def Let_def glob_patch map_result_ex)
  qed (simp add: validate_series_def Let_def glob_patch series_fail_def)
  have numbers: "map (take 5 \<circ> fst) ?P = ?N \<longleftrightarrow> length ?P = n_patches \<and> (\<forall>i < length ?P. take 5 (fst (?P ! i)) = number_prefix (Suc i))"
    unfolding list_eq_iff_nth_eq by (auto simp del: upt_Suc)
  have patches: "list_all (numbered_ok n_patches) ?F \<longleftrightarrow> (\<forall>i < length ?P. patch_ok n_patches (Suc i) (snd (?P ! i)))"
    if n: "map (take 5 \<circ> fst) ?P = ?N"
  proof -
    have at: "length ?P = n_patches" "\<And>i. i < n_patches \<Longrightarrow> take 5 (fst (?P ! i)) = number_prefix (Suc i)" using n numbers by auto
    have "numbered_ok n_patches (?P ! i) \<longleftrightarrow> patch_ok n_patches (Suc i) (snd (?P ! i))" if "i < n_patches" for i
    proof -
      have "j = Suc i" if "number_prefix (Suc i) = number_prefix j" "j < Suc n_patches" for j
        using number_prefix_inj [OF small [OF \<open>i < n_patches\<close>] _ that(1)] that(2) assms by simp
      then show ?thesis using that unfolding numbered_ok_def at(2) [OF that] list_ex_iff set_upt
        by (auto intro: bexI [of _ "Suc i"])
    qed
    then show ?thesis using at(1) mset_sorted_files(2) [of ?F] unfolding list_all_iff by (metis in_set_conv_nth)
  qed
  show ?thesis
    unfolding code series_ok_def numbers_iff [OF assms, symmetric] using numbers patches by blast
qed


end
