(* ===== verification/Usb_Reset_Arm.thy ===== *)
theory Usb_Reset_Arm
  imports M9_Serial
begin

text \<open>
  Arming the USB reset before a flash, \<^verbatim>\<open>usb-reset-arm.py\<close>: type a command at the shell, every half
  second, until the token it prints comes back or the time is over.
\<close>

section \<open>The program\<close>

definition USB_RESET_SYSFS :: string where
  "USB_RESET_SYSFS = ''/sys/kernel/micronux/usb_reset''"

definition arm_token :: "nat \<Rightarrow> string" where
  "arm_token ns = ''MICRONUX_USB_RESET_ARM_'' @ str_nat ns"

definition arm_command :: "string \<Rightarrow> string" where
  "arm_command token = ''if [ -w '' @ USB_RESET_SYSFS @ '' ]; then echo enable >'' @ USB_RESET_SYSFS @ ''; fi; echo '' @ token @ [newline]"

definition keep_tail :: "string \<Rightarrow> string" where
  "keep_tail captured = (if length captured > 16384 then drop (length captured - 8192) captured else captured)"

definition arm_body :: "rat \<Rightarrow> string \<Rightarrow> rat \<times> string \<Rightarrow> (rat \<times> string + bool) io" where
  "arm_body deadline token = (\<lambda>(next_write, captured). io_bind monotonic (\<lambda>t.
     if t < deadline
     then io_bind monotonic (\<lambda>now.
       io_bind (if next_write \<le> now
           then io_bind (dev_write (arm_command token)) (\<lambda>_. io_then dev_control (io_return (now + 1 / 2)))
           else io_return next_write) (\<lambda>next_write'.
       io_bind dev_read (\<lambda>chunk.
         if chunk = [] then io_return (Inl (next_write', captured))
         else if py_in token (captured @ chunk) then io_return (Inr True)
         else io_return (Inl (next_write', keep_tail (captured @ chunk))))))
     else io_return (Inr False)))"

definition arm_release :: "unit io" where
  "arm_release = io_then (io_catch (io_then dev_control dev_control) is_serial_error (\<lambda>_. io_return ())) dev_control"

definition arm_wait :: "rat \<Rightarrow> string \<Rightarrow> bool io" where
  "arm_wait deadline token = io_finally
     (io_catch (io_loop (arm_body deadline token) (0, [])) is_serial_error (\<lambda>_. io_return False)) arm_release"

definition arm_main :: "string \<Rightarrow> rat \<Rightarrow> int io" where
  "arm_main port timeout =
     (if timeout < 1 \<or> 60 < timeout then io_raise (SystemExit ''--timeout must be between 1 and 60 seconds'')
      else io_bind (io_catch (io_then dev_open (io_return None)) is_serial_error (\<lambda>e. io_return (Some e))) (\<lambda>failed.
        case failed of
          Some e \<Rightarrow> io_then (py_print (''MICRONUX:USB-RESET-ARM state=unavailable port='' @ port @
            '' detail='' @ replace_char (CHR '' '') (CHR ''-'') (error_message e))) (io_return 0)
        | None \<Rightarrow> io_bind monotonic_ns (\<lambda>ns. io_bind monotonic (\<lambda>now.
            io_bind (arm_wait (now + timeout) (arm_token ns)) (\<lambda>armed.
            io_then (py_print (if armed then ''MICRONUX:USB-RESET-ARM state=armed port='' @ port
              else ''MICRONUX:USB-RESET-ARM state=not-running-or-no-shell port='' @ port)) (io_return 0))))))"

section \<open>What it promises\<close>

text \<open>Arming is best effort: whenever the program returns, its status is 0.\<close>

lemma arm_main_status: "arm_main port timeout w = (Done c, w') \<Longrightarrow> c = 0"
  by (auto simp: arm_main_def io_raise_def io_then_def io_return_def py_print_def elim!: io_bind_DoneE split: if_splits option.splits)

text \<open>Cutting the captured text never loses the beginning of a token that is still arriving.\<close>

lemma keep_tail_suffix:
  assumes "suffix part captured" and "length part \<le> 8192"
  shows "suffix part (keep_tail captured)"
proof -
  obtain before where "captured = before @ part" using assms(1) by (auto simp: suffix_def)
  with assms(2) show ?thesis by (auto simp: keep_tail_def suffix_def)
qed

text \<open>The rounds the clock allows are all the rounds of the loop.\<close>

lemma arm_body_asks: "asks_clock (arm_body deadline token s)"
  by (cases s) (simp only: arm_body_def prod.case, intro asks_clock_monotonic clock_intros)

lemmas arm_loop_unfold = io_loop_unfold [of "arm_body deadline token" for deadline token, OF arm_body_asks]

end
