(* ===== verification/Spec2Isabelle.thy ===== *)
theory Spec2Isabelle
  imports Jd9365_Firmware Display_Contract Display_Ownership Display_Gdma M9_Safety Combined_Gate Bflt_Audit Patch_Series Usb_Reset_Arm
begin

text \<open>
  A verification development of the host-side Python programs of MicroNUX, a NOMMU Linux for the
  ESP32-P4.  The programs build what the target boots (the panel firmware, the payload manifest),
  state the contracts between loader and kernel (the display handoff records), and drive a
  board over a serial port and judge what it answers (the hardware gates).

  \<^bold>\<open>The parts and their theories.\<close>  Paths are below \<^verbatim>\<open>src/\<close>.
  \<^item> \<open>Py_Base\<close>, \<open>Py_Struct\<close>, \<open>Py_Regex\<close>, \<open>Py_Sha256\<close>, \<open>Py_IO\<close>: the prelude, that is what the programs use of
    Python: exceptions as values of \<open>py_error + 'a\<close>, chains of early returns as guard lists
    (\<open>first_reject\<close>), text and numbers, \<^verbatim>\<open>struct\<close> and \<^verbatim>\<open>zlib.crc32\<close>, the backtracking matcher of
    \<^verbatim>\<open>re\<close>, \<^verbatim>\<open>hashlib.sha256\<close>, and effects as functions on a world that holds the answers of clock,
    device and child processes and records what is sent and printed.
  \<^item> \<open>Jd9365_Firmware\<close>: \<^verbatim>\<open>generate_firmware.py\<close>.  Building and parsing are inverse (the locale
    \<open>byte_codec\<close>), encodings are canonical, bursts of up to 32 bits are detected, and the
    generator fails only on a bad source.
  \<^item> \<open>Display_Layout\<close>, \<open>Display_Cold\<close>, \<open>Display_Handoff\<close>, \<open>Display_Contract\<close>: the two handoff records of
    \<^verbatim>\<open>scripts/m9-2-display-contract-test.py\<close> (\<^verbatim>\<open>validate_cold_relinquish\<close>, \<^verbatim>\<open>validate_handoff\<close>).
    What each validator accepts, exactly; that accepted buffers are disjoint from the kernel's
    memory; that no record satisfies both versions.  The locales \<open>sealed_record\<close> and \<open>abi_record\<close>
    carry what the two formats share.
  \<^item> \<open>Display_Ownership\<close>, \<open>Display_Gdma\<close>: the \<^verbatim>\<open>OwnershipModel\<close> of the same script as a step relation
    with its invariant and its refinement of a mailbox (locale \<open>mailbox\<close>), and the register
    readback regressions.
  \<^item> \<open>M3_Pack\<close>: \<^verbatim>\<open>scripts/m3-pack.py\<close>, the manifest the loader reads.
  \<^item> \<open>M9_Telemetry\<close>, \<open>M9_Evidence\<close>: the functions of \<^verbatim>\<open>scripts/m9-hardware-test.py\<close> that judge a
    transcript; the locale \<open>telemetry_contract\<close> is the contract of a verdict on samples.
  \<^item> \<open>M9_Serial\<close>, \<open>M9_Commands\<close>, \<open>M9_Gate\<close>, \<open>M9_Reconnect\<close>, \<open>M9_Main\<close>: the rest of that program, from
    the serial port over the six modes to \<^verbatim>\<open>main\<close>.  \<open>M9_Safety\<close> is about the whole of it: it has no
    errors of its own, its status agrees with its last line, and it does not pass a target that
    did not boot.
  \<^item> \<open>Boot_Gates\<close>, \<open>M6_Gates\<close>, \<open>Combined_Gate\<close>: \<^verbatim>\<open>scripts/m2-test.py\<close> to \<^verbatim>\<open>m6-test.py\<close>,
    \<^verbatim>\<open>m6-network-test.py\<close> and \<^verbatim>\<open>m6-combined-test.py\<close>.  Seven judges of boot logs, each an instance of the locale \<open>boot_gate\<close>, under one loop over the boots
    (\<open>run_boots\<close>); a gate passes exactly when every boot is accepted and all have one identity.
  \<^item> \<open>Bflt_Audit\<close>, \<open>Patch_Series\<close>, \<open>Usb_Reset_Arm\<close>: \<^verbatim>\<open>scripts/check-bflt-wx.py\<close>,
    \<^verbatim>\<open>scripts/check-linux-patch-series.py\<close> and \<^verbatim>\<open>scripts/usb-reset-arm.py\<close>.

  The parts meet in three places: the packer's manifest is what the hardware test verifies
  (\<open>packed_payload_verified\<close> in \<open>M9_Main\<close>), the digests and the serial primitives are shared by all gates,
  and the ownership model and the telemetry contract speak of the same buffers (below).

  \<^bold>\<open>Bounds.\<close>  A \<^verbatim>\<open>while\<close> loop of the programs asks the clock in every round.  \<open>io_loop\<close> makes one more
  round than the world has clock answers, and \<open>io_loop_unfold\<close> proves that this is the loop: a
  body that asks the clock never runs out of rounds.  A primitive without an answer is \<open>Blocked\<close>,
  so that not returning is a value; \<open>waits_terminate\<close> proves that the waits of the hardware test
  return once the clock passes the deadline.  The matcher of a starred pattern takes the
  length of the remaining text as its bound, and every round must consume a character.

  \<^bold>\<open>Assumptions of the model.\<close>  Text is ASCII, so decoding is the identity, and \<^verbatim>\<open>\d\<close> means the ten
  digits.  Floating-point numbers are exact rationals.  The command line is taken as parsed; the
  checks the programs make on the values are modelled.  Delays and the settings of the port have no
  effect but on later answers.  Standard output and standard error are one sequence of lines.
  Files are functions from names to contents, directories lists, and do not change while a
  program runs.  The constants of SHA-256 are computed from the primes as the standard defines
  them; no digest is evaluated in the logic, and no theorem depends on the value of one.

  \<^bold>\<open>Not modelled.\<close>
  \<^item> \<^verbatim>\<open>scripts/m7-baseline-test.py\<close>, \<^verbatim>\<open>m7-test.py\<close>, \<^verbatim>\<open>m8-device-test.py\<close>: gates that also write log files, and
    the second drives two ports; the world of \<open>Py_IO\<close> has one device and no file output.
  \<^item> \<^verbatim>\<open>scripts/m1-test.py\<close> and \<^verbatim>\<open>m9-run-logged.py\<close>: they run other programs (QEMU, the hardware test) and
    copy their output; nearly all they do is an effect of the operating system.
  \<^item> \<^verbatim>\<open>scripts/m9-2-display-contract-test.py\<close> from \<^verbatim>\<open>bind_to_sources\<close> on: it searches the C sources
    and the kernel patches for fragments of text, whose meaning is that of those files.
  \<^item> \<^verbatim>\<open>scripts/m9-hardware-telemetry-test.py\<close> and \<^verbatim>\<open>test_firmware.py\<close>: test cases of modelled functions.
  \<^item> \<^verbatim>\<open>parse_address\<close> of \<^verbatim>\<open>m3-pack.py\<close> and the argument parsers: part of reading the command line.
  \<^item> The loader, the kernel patches, the device trees and the build configuration, which are
    not Python.
\<close>

section \<open>The ownership model and the telemetry contract\<close>

text \<open>
  The fields of a diagnostics sample that the ownership model determines: the roles, with -1 for
  no queued buffer, and the counters of flips and generations.
\<close>

definition reported :: "ownership_model \<Rightarrow> sample" where
  "reported s = [(''front'', front s), (''back'', render s), (''queued'', case queued s of None \<Rightarrow> -1 | Some q \<Rightarrow> q),
     (''flip_requests'', requests s), (''flip_completions'', completions s), (''generation'', generation s)]"

definition reported_counters :: "string list" where
  "reported_counters = [''flip_requests'', ''flip_completions'', ''generation'']"

text \<open>A request that is not completed is the queued one, or one that a later request replaced.\<close>

definition flips_balanced :: "ownership_model \<Rightarrow> bool" where
  "flips_balanced s \<longleftrightarrow> completions s + (if queued s = None then 0 else 1) \<le> requests s"

lemma step_counters:
  assumes "own_step e s = Inr s'" and "active s"
  shows "requests s \<le> requests s' \<and> completions s \<le> completions s' \<and> generation s \<le> generation s' \<and>
     (flips_balanced s \<longrightarrow> flips_balanced s')"
  using assms
  by (cases e) (auto simp: queue_render_def start_def Display_Ownership.complete_def Let_def flips_balanced_def
      elim!: rbind_InrE split: if_splits option.splits)

lemma reachable_balanced:
  assumes "own_reachable (OwnershipModel True) s"
  shows "flips_balanced s"
  using assms
proof (induction rule: own_reachable.induct)
  case init
  show ?case by (simp add: OwnershipModel_def flips_balanced_def)
next
  case (step s e s')
  with reachable_ok [OF step.hyps(1)] step_counters show ?case by blast
qed

lemma reachable_trans:
  assumes "own_reachable s s'" and "own_reachable s0 s"
  shows "own_reachable s0 s'"
  using assms by (induction rule: own_reachable.induct) (auto intro: own_reachable.step)

lemma reachable_counters:
  assumes "own_reachable s s'" and "own_reachable (OwnershipModel True) s"
  shows "requests s \<le> requests s' \<and> completions s \<le> completions s' \<and> generation s \<le> generation s'"
  using assms
proof (induction rule: own_reachable.induct)
  case (step s1 e s2)
  have "active s1" using reachable_ok reachable_trans [OF step.hyps(1) step.prems] by blast
  with step step_counters [OF step.hyps(2)] show ?case by force
qed simp

lemma reported_simps:
  "dict_get (reported s) ''front'' = front s" "dict_get (reported s) ''back'' = render s"
  "dict_get (reported s) ''queued'' = (case queued s of None \<Rightarrow> -1 | Some q \<Rightarrow> q)"
  "dict_get (reported s) ''flip_requests'' = requests s" "dict_get (reported s) ''flip_completions'' = completions s"
  "dict_get (reported s) ''generation'' = generation s"
  by (simp_all add: reported_def dict_get_def)

lemma reported_roles: "own_ok s \<Longrightarrow> active s \<Longrightarrow> \<not> bad_roles (reported s) \<and> \<not> bad_queued (reported s)"
  by (auto simp: bad_roles_def bad_queued_def reported_simps own_ok_iff split: option.splits)



end
